(* ===== verification/Awis_Prelude.thy ===== *)
theory Awis_Prelude
  imports Main "HOL-Library.Word"
begin

text \<open>
  Shared vocabulary of the AWIS client model (\<open>src/awis.py\<close>, \<open>src/awis/awis.py\<close>).
  Python exceptions become values of the sum type \<open>py_error + 'a\<close>; \<open>bindE\<close> threads
  them the way an uncaught exception leaves a function. Python \<open>str\<close> values of the
  client are ASCII, so a string is a list of bytes (\<open>char\<close>), which is also what their
  \<open>encode('utf-8')\<close> produces. The theory holds the decimal printer used for
  \<open>str(int)\<close> and f-string interpolation of integers, \<open>str.join\<close>, splitting at a
  separator, and their round-trip lemmas.
\<close>

named_theorems awis_simps "evaluation rules of the AWIS model"

type_synonym byte = "8 word"
type_synonym bytes = "byte list"

datatype py_error =
    ValueError string
  | OverflowError string
  | TypeError string
  | AttributeError string
  | NameError string
  | SearchRangeError string
  | TransportError nat

type_synonym 'a result = "py_error + 'a"

definition bindE :: "'e + 'a \<Rightarrow> ('a \<Rightarrow> 'e + 'b) \<Rightarrow> 'e + 'b" where
  "bindE m f = (case m of Inl e \<Rightarrow> Inl e | Inr x \<Rightarrow> f x)"

subsection \<open>Decimal digits: \<open>str(n)\<close> and \<open>int(s)\<close> on digit strings\<close>

definition DIGITS :: string where
  "DIGITS = ''0123456789''"

definition digit_char :: "nat \<Rightarrow> char" where
  "digit_char d = DIGITS ! d"

definition is_dec_digit :: "char \<Rightarrow> bool" where
  "is_dec_digit c \<longleftrightarrow> c \<in> set DIGITS"

definition digit_val :: "char \<Rightarrow> nat" where
  "digit_val c = of_char c - 48"

fun show_nat :: "nat \<Rightarrow> string" where
  "show_nat n = (if n < 10 then [digit_char n] else show_nat (n div 10) @ [digit_char (n mod 10)])"

declare show_nat.simps [simp del]

definition show_int :: "int \<Rightarrow> string" where
  "show_int i = (if i < 0 then CHR ''-'' # show_nat (nat (- i)) else show_nat (nat i))"

text \<open>Reading a string of decimal digits, most significant first.\<close>

definition read_digits :: "string \<Rightarrow> nat" where
  "read_digits s = foldl (\<lambda>acc c. 10 * acc + digit_val c) 0 s"

subsection \<open>Joining and splitting\<close>

text \<open>\<open>sep.join(xs)\<close>.\<close>

fun join :: "string \<Rightarrow> string list \<Rightarrow> string" where
  "join sep [] = []"
| "join sep [x] = x"
| "join sep (x # y # xs) = x @ sep @ join sep (y # xs)"

text \<open>\<open>s.split(c)\<close> for a one-character separator.\<close>

fun split_on :: "char \<Rightarrow> string \<Rightarrow> string list" where
  "split_on c [] = [[]]"
| "split_on c (x # xs) =
     (if x = c then [] # split_on c xs
      else (case split_on c xs of [] \<Rightarrow> [[x]] | w # ws \<Rightarrow> (x # w) # ws))"

text \<open>
  Evaluating a list of fallible computations left to right, as a list comprehension
  does: the first exception propagates.
\<close>

fun sequence_r :: "'a result list \<Rightarrow> 'a list result" where
  "sequence_r [] = Inr []"
| "sequence_r (r # rs) = bindE r (\<lambda>v. bindE (sequence_r rs) (\<lambda>vs. Inr (v # vs)))"

subsection \<open>Lemmas\<close>

lemma bindE_simps [simp, awis_simps]:
  "bindE (Inl e) f = Inl e"
  "bindE (Inr x) f = f x"
  by (simp_all add: bindE_def)

lemma bindE_Inr_iff:
  "bindE m f = Inr y \<longleftrightarrow> (\<exists>x. m = Inr x \<and> f x = Inr y)"
  by (cases m) auto

lemma bindE_Inl_iff:
  "bindE m f = Inl e \<longleftrightarrow> m = Inl e \<or> (\<exists>x. m = Inr x \<and> f x = Inl e)"
  by (cases m) auto

lemma digit_char_is_dec_digit [simp]: "d < 10 \<Longrightarrow> is_dec_digit (digit_char d)"
  unfolding digit_char_def is_dec_digit_def by (rule nth_mem) (simp add: DIGITS_def)

lemma digit_val_digit_char [simp]: "d < 10 \<Longrightarrow> digit_val (digit_char d) = d"
  by (auto simp: digit_char_def DIGITS_def digit_val_def less_Suc_eq numeral_eq_Suc)

lemma show_nat_small [simp]: "n < 10 \<Longrightarrow> show_nat n = [digit_char n]"
  by (simp add: show_nat.simps)

lemma show_nat_large: "\<not> n < 10 \<Longrightarrow> show_nat n = show_nat (n div 10) @ [digit_char (n mod 10)]"
  by (simp add: show_nat.simps)

lemma set_show_nat: "set (show_nat n) \<subseteq> set DIGITS"
proof (induction n rule: show_nat.induct)
  case (1 n)
  have "\<And>d. d < 10 \<Longrightarrow> digit_char d \<in> set DIGITS"
    using digit_char_is_dec_digit by (simp add: is_dec_digit_def)
  with "1.IH" show ?case
    by (cases "n < 10") (simp_all add: show_nat_large)
qed

lemma show_nat_nonempty [simp]: "show_nat n \<noteq> []"
  by (cases "n < 10") (simp_all add: show_nat_large)

lemma read_digits_snoc: "read_digits (s @ [c]) = 10 * read_digits s + digit_val c"
  by (simp add: read_digits_def)

theorem read_show_nat [simp]: "read_digits (show_nat n) = n"
proof (induction n rule: show_nat.induct)
  case (1 n)
  show ?case
  proof (cases "n < 10")
    case True
    then show ?thesis by (simp add: read_digits_def)
  next
    case False
    with "1.IH" show ?thesis
      by (simp add: show_nat_large read_digits_snoc)
  qed
qed

lemma show_nat_inj: "show_nat m = show_nat n \<Longrightarrow> m = n"
  by (metis read_show_nat)

lemma set_show_int: "set (show_int i) \<subseteq> insert CHR ''-'' (set DIGITS)"
  using set_show_nat by (auto simp: show_int_def)

lemma show_int_nonneg [simp]: "0 \<le> i \<Longrightarrow> show_int i = show_nat (nat i)"
  by (simp add: show_int_def)

lemma join_append_Cons:
  "xs \<noteq> [] \<Longrightarrow> join sep (x # xs) = x @ sep @ join sep xs"
  by (cases xs) simp_all

lemma split_on_nonempty [simp]: "split_on c s \<noteq> []"
  by (induction s) (auto split: list.split)

lemma split_on_no_sep [simp]: "c \<notin> set s \<Longrightarrow> split_on c s = [s]"
  by (induction s) auto

lemma split_on_append_sep:
  "c \<notin> set s \<Longrightarrow> split_on c (s @ c # t) = s # split_on c t"
  by (induction s) auto

theorem split_on_join:
  assumes "xs \<noteq> []" and "\<forall>x \<in> set xs. c \<notin> set x"
  shows "split_on c (join [c] xs) = xs"
  using assms
proof (induction xs rule: induct_list012)
  case (3 x y zs)
  then show ?case by (simp add: split_on_append_sep)
qed simp_all

subsection \<open>Integer division\<close>

lemma div_pred_step:
  fixes y k :: int
  assumes "0 < k"
  shows "y div k = (y - 1) div k + (if y mod k = 0 then 1 else 0)"
proof -
  have "y - 1 = (y mod k - 1) + y div k * k"
    by (simp add: algebra_simps)
  then have "(y - 1) div k = ((y mod k - 1) + y div k * k) div k"
    by (rule arg_cong)
  also have "\<dots> = (y mod k - 1) div k + y div k"
    using assms div_mult_self1 [of k "y mod k - 1" "y div k"] by simp
  finally have "(y - 1) div k = (y mod k - 1) div k + y div k" .
  moreover have "(y mod k - 1) div k = (if y mod k = 0 then -1 else 0)"
  proof (cases "y mod k = 0")
    case True
    with assms show ?thesis by (simp add: div_eq_minus1)
  next
    case False
    have "0 \<le> y mod k - 1" "y mod k - 1 < k"
      using False assms pos_mod_sign [of k y] pos_mod_bound [of k y] by linarith+
    with False show ?thesis
      by (simp add: div_pos_pos_trivial)
  qed
  ultimately show ?thesis by simp
qed

lemma sequence_r_Inr_iff: "sequence_r rs = Inr vs \<longleftrightarrow> rs = map Inr vs"
proof (induction rs arbitrary: vs)
  case (Cons r rs)
  then show ?case
    by (cases r; cases "sequence_r rs") (auto simp: Cons_eq_map_conv)
qed auto

lemma sequence_r_map_Inr [simp]: "sequence_r (map Inr vs) = Inr vs"
  by (simp add: sequence_r_Inr_iff)

lemma sequence_r_append:
  "sequence_r (xs @ ys) = bindE (sequence_r xs) (\<lambda>u. bindE (sequence_r ys) (\<lambda>v. Inr (u @ v)))"
  by (induction xs) (auto simp: bindE_def split: sum.splits)

lemma sequence_r_first_error:
  "sequence_r (map Inr vs @ Inl e # rs) = Inl e"
  by (induction vs) simp_all

end
