(* ===== verification/Dates.thy ===== *)
theory Dates
  imports Awis_Prelude
begin

text \<open>
  The calendar the client relies on: Python's \<open>datetime.date\<close> and \<open>timedelta\<close>
  as the standard library implements them (\<open>Lib/_pydatetime.py\<close>, mirrored by the C
  module). A date is its proleptic Gregorian ordinal (\<open>date.toordinal()\<close>, 1 is
  0001-01-01, \<open>MAXORDINAL\<close> is 9999-12-31). Adding a \<open>timedelta\<close> adds days and raises
  \<open>OverflowError\<close> outside that range; building a \<open>timedelta\<close> of more than
  999999999 days raises too. \<open>strftime('%Y%m%d')\<close> goes through \<open>_ord2ymd\<close>;
  \<open>strptime(s, '%Y%m%d')\<close> follows \<open>_strptime\<close>'s regular expression
  (\<open>\d\d\d\d\<close>, then \<open>1[0-2]|0[1-9]|[1-9]\<close>, then
  \<open>3[01]|[12]\d|0[1-9]|[1-9]| [1-9]\<close>, tried in that order with backtracking),
  the check that no data is left over, and the day-of-month check of \<open>date(y, m, d)\<close>.
\<close>

type_synonym date = int

definition MAXORDINAL :: int where
  "MAXORDINAL = 3652059"

definition MAX_DELTA_DAYS :: int where
  "MAX_DELTA_DAYS = 999999999"

definition valid_date :: "date \<Rightarrow> bool" where
  "valid_date d \<longleftrightarrow> 0 < d \<and> d \<le> MAXORDINAL"

text \<open>\<open>timedelta(days=n)\<close>.\<close>

definition timedelta :: "int \<Rightarrow> int result" where
  "timedelta n =
     (if MAX_DELTA_DAYS < \<bar>n\<bar> then Inl (OverflowError ''days must have magnitude <= 999999999'')
      else Inr n)"

text \<open>\<open>date + timedelta\<close> and \<open>date - timedelta\<close> (\<open>self + timedelta(-other.days)\<close>).\<close>

definition date_add :: "date \<Rightarrow> int \<Rightarrow> date result" where
  "date_add d n =
     (let r = d + n in
      if 0 < r \<and> r \<le> MAXORDINAL then Inr r else Inl (OverflowError ''result out of range''))"

definition date_sub :: "date \<Rightarrow> int \<Rightarrow> date result" where
  "date_sub d n = bindE (timedelta (- n)) (date_add d)"

subsection \<open>The calendar of \<open>_pydatetime\<close>\<close>

definition is_leap :: "int \<Rightarrow> bool" where
  "is_leap y \<longleftrightarrow> y mod 4 = 0 \<and> (y mod 100 \<noteq> 0 \<or> y mod 400 = 0)"

definition DAYS_IN_MONTH :: "int list" where
  "DAYS_IN_MONTH = [-1, 31, 28, 31, 30, 31, 30, 31, 31, 30, 31, 30, 31]"

definition DAYS_BEFORE_MONTH :: "int list" where
  "DAYS_BEFORE_MONTH = [-1, 0, 31, 59, 90, 120, 151, 181, 212, 243, 273, 304, 334]"

definition days_before_year :: "int \<Rightarrow> int" where
  "days_before_year year = (let y = year - 1 in y * 365 + y div 4 - y div 100 + y div 400)"

definition days_in_month :: "int \<Rightarrow> int \<Rightarrow> int" where
  "days_in_month year month =
     (if month = 2 \<and> is_leap year then 29 else DAYS_IN_MONTH ! nat month)"

definition days_before_month :: "int \<Rightarrow> int \<Rightarrow> int" where
  "days_before_month year month =
     DAYS_BEFORE_MONTH ! nat month + (if 2 < month \<and> is_leap year then 1 else 0)"

definition ymd2ord :: "int \<Rightarrow> int \<Rightarrow> int \<Rightarrow> date" where
  "ymd2ord year month day = days_before_year year + days_before_month year month + day"

definition DI400Y :: int where "DI400Y = 146097"
definition DI100Y :: int where "DI100Y = 36524"
definition DI4Y :: int where "DI4Y = 1461"

definition ord2ymd :: "date \<Rightarrow> int \<times> int \<times> int" where
  "ord2ymd n =
     (let n0 = n - 1;
          n400 = n0 div DI400Y; r400 = n0 mod DI400Y;
          n100 = r400 div DI100Y; r100 = r400 mod DI100Y;
          n4 = r100 div DI4Y; r4 = r100 mod DI4Y;
          n1 = r4 div 365; r1 = r4 mod 365;
          year = n400 * 400 + 1 + n100 * 100 + n4 * 4 + n1
      in if n1 = 4 \<or> n100 = 4 then (year - 1, 12, 31)
         else
           let leapyear = (n1 = 3 \<and> (n4 \<noteq> 24 \<or> n100 = 3));
               month = (r1 + 50) div 32;
               preceding = DAYS_BEFORE_MONTH ! nat month + (if 2 < month \<and> leapyear then 1 else 0)
           in if r1 < preceding
              then (let month' = month - 1;
                        preceding' = preceding -
                          (DAYS_IN_MONTH ! nat month' + (if month' = 2 \<and> leapyear then 1 else 0))
                    in (year, month', r1 - preceding' + 1))
              else (year, month, r1 - preceding + 1))"

subsection \<open>\<open>date.strftime('%Y%m%d')\<close>\<close>

text \<open>
  \<open>%m\<close> and \<open>%d\<close> are zero-padded to two digits; \<open>%Y\<close> is the year as the C
  library prints it (four digits for every year from 1000 on).
\<close>

definition pad2 :: "int \<Rightarrow> string" where
  "pad2 i = (if i < 10 then CHR ''0'' # show_int i else show_int i)"

definition strftime_Ymd :: "date \<Rightarrow> string" where
  "strftime_Ymd d = (case ord2ymd d of (y, m, dd) \<Rightarrow> show_int y @ pad2 m @ pad2 dd)"

subsection \<open>\<open>datetime.strptime(s, '%Y%m%d').date()\<close>\<close>

definition digit_in :: "string \<Rightarrow> char \<Rightarrow> bool" where
  "digit_in cs c \<longleftrightarrow> c \<in> set cs"

text \<open>One alternative of a group: the value it matched and the rest of the input.\<close>

type_synonym alt = "string \<Rightarrow> (int \<times> string) option"

fun year_re :: alt where
  "year_re (a # b # c # d # r) =
     (if list_all is_dec_digit [a, b, c, d] then Some (int (read_digits [a, b, c, d]), r) else None)"
| "year_re _ = None"

fun m_ten :: alt where
  "m_ten (a # b # r) =
     (if a = CHR ''1'' \<and> digit_in ''012'' b then Some (int (read_digits [a, b]), r) else None)"
| "m_ten _ = None"

fun lead0 :: alt where
  "lead0 (a # b # r) =
     (if a = CHR ''0'' \<and> digit_in ''123456789'' b then Some (int (digit_val b), r) else None)"
| "lead0 _ = None"

fun one_digit :: alt where
  "one_digit (a # r) = (if digit_in ''123456789'' a then Some (int (digit_val a), r) else None)"
| "one_digit [] = None"

fun d_thirty :: alt where
  "d_thirty (a # b # r) =
     (if a = CHR ''3'' \<and> digit_in ''01'' b then Some (int (read_digits [a, b]), r) else None)"
| "d_thirty _ = None"

fun d_teens :: alt where
  "d_teens (a # b # r) =
     (if digit_in ''12'' a \<and> is_dec_digit b then Some (int (read_digits [a, b]), r) else None)"
| "d_teens _ = None"

fun space_digit :: alt where
  "space_digit (a # b # r) =
     (if a = CHR '' '' \<and> digit_in ''123456789'' b then Some (int (digit_val b), r) else None)"
| "space_digit _ = None"

definition month_alts :: "alt list" where
  "month_alts = [m_ten, lead0, one_digit]"

definition day_alts :: "alt list" where
  "day_alts = [d_thirty, d_teens, lead0, one_digit, space_digit]"

fun first_some :: "('a \<Rightarrow> 'b option) \<Rightarrow> 'a list \<Rightarrow> 'b option" where
  "first_some f [] = None"
| "first_some f (x # xs) = (case f x of None \<Rightarrow> first_some f xs | Some y \<Rightarrow> Some y)"

text \<open>\<open>re.match\<close>: the first way, in backtracking order, that the three groups match a prefix.\<close>

definition strptime_match :: "string \<Rightarrow> (int \<times> int \<times> int \<times> string) option" where
  "strptime_match s =
     (case year_re s of
        None \<Rightarrow> None
      | Some (y, r0) \<Rightarrow>
          first_some (\<lambda>ma. case ma r0 of
                              None \<Rightarrow> None
                            | Some (m, r1) \<Rightarrow>
                                first_some (\<lambda>da. map_option (\<lambda>(d, r2). (y, m, d, r2)) (da r1)) day_alts)
            month_alts)"

definition strptime_date :: "string \<Rightarrow> date result" where
  "strptime_date s =
     (case strptime_match s of
        None \<Rightarrow> Inl (ValueError ''time data does not match format %Y%m%d'')
      | Some (y, m, d, rest) \<Rightarrow>
          if rest \<noteq> [] then Inl (ValueError ''unconverted data remains'')
          else if y < 1 then Inl (ValueError ''year is out of range'')
          else if days_in_month y m < d then Inl (ValueError ''day is out of range for month'')
          else Inr (ymd2ord y m d))"

text \<open>The equations that evaluate the calendar on concrete dates.\<close>

lemmas date_eval_simps =
  strptime_date_def strptime_match_def month_alts_def day_alts_def digit_in_def read_digits_def
  digit_val_def is_dec_digit_def DIGITS_def ymd2ord_def days_before_year_def days_before_month_def
  days_in_month_def is_leap_def DAYS_BEFORE_MONTH_def DAYS_IN_MONTH_def date_add_def date_sub_def
  timedelta_def MAX_DELTA_DAYS_def MAXORDINAL_def strftime_Ymd_def ord2ymd_def DI400Y_def DI100Y_def
  DI4Y_def pad2_def show_int_def digit_char_def show_nat_large Let_def

subsection \<open>Calendar lemmas\<close>

lemma step_arith:
  fixes y X4 X100 X400 a b c :: int
  shows "y * 365 + (X4 + a) - (X100 + b) + (X400 + c) = (y - 1) * 365 + X4 - X100 + X400 + 365 + (a - b + c)"
  by (simp add: algebra_simps)
lemma leap_indicator:
  "(q \<Longrightarrow> p) \<Longrightarrow> (r \<Longrightarrow> q) \<Longrightarrow>
   (if p \<and> (\<not> q \<or> r) then 1 else 0) = (if p then 1 else 0) - (if q then 1 else 0) + (if r then (1::int) else 0)"
  by auto
lemma mod100_mod4: "(y::int) mod 100 = 0 \<Longrightarrow> y mod 4 = 0"
    using dvd_trans [of 4 100 y] by (simp add: mod_eq_0_iff_dvd)
lemma mod400_mod100: "(y::int) mod 400 = 0 \<Longrightarrow> y mod 100 = 0"
    using dvd_trans [of 100 400 y] by (simp add: mod_eq_0_iff_dvd)
lemma leap01: "(if is_leap y then 1 else 0) =
   (if y mod 4 = 0 then 1 else 0) - (if y mod 100 = 0 then 1 else 0) + (if y mod 400 = 0 then (1::int) else 0)"
  unfolding is_leap_def by (rule leap_indicator [OF mod100_mod4 mod400_mod100])
lemma days_before_year_step:
  "days_before_year (y + 1) = days_before_year y + 365 + (if is_leap y then 1 else 0)"
proof -
  have q: "y div 4 = (y - 1) div 4 + (if y mod 4 = 0 then 1 else 0)"
    "y div 100 = (y - 1) div 100 + (if y mod 100 = 0 then 1 else 0)"
    "y div 400 = (y - 1) div 400 + (if y mod 400 = 0 then 1 else 0)"
    by (simp_all only: div_pred_step [of 4 y] div_pred_step [of 100 y] div_pred_step [of 400 y])
  show ?thesis
    unfolding leap01 days_before_year_def Let_def add_diff_cancel_right' q
    by (rule step_arith)
qed

lemma days_before_year_mono: "y \<le> y' \<Longrightarrow> days_before_year y \<le> days_before_year y'"
proof (induction y' rule: int_ge_induct)
  case base
  then show ?case by simp
next
  case (step i)
  then show ?case using days_before_year_step [of i] by simp
qed

lemma month_cases: "1 \<le> m \<Longrightarrow> m \<le> (12::int) \<Longrightarrow>
  m = 1 \<or> m = 2 \<or> m = 3 \<or> m = 4 \<or> m = 5 \<or> m = 6 \<or> m = 7 \<or> m = 8 \<or> m = 9 \<or> m = 10 \<or> m = 11 \<or> m = 12"
  by presburger

lemma days_before_month_bounds:
  assumes "1 \<le> m" "m \<le> 12"
  shows "0 \<le> days_before_month y m \<and>
         days_before_month y m + days_in_month y m \<le> 365 + (if is_leap y then 1 else 0)"
  using month_cases [OF assms]
  by (elim disjE) (simp_all add: days_before_month_def days_in_month_def DAYS_BEFORE_MONTH_def DAYS_IN_MONTH_def)

lemma ymd2ord_valid:
  assumes "1 \<le> y" "y \<le> 9999" "1 \<le> m" "m \<le> 12" "1 \<le> d" "d \<le> days_in_month y m"
  shows "valid_date (ymd2ord y m d)"
proof -
  have "0 \<le> days_before_year y"
    using days_before_year_mono [of 1 y] assms(1) by (simp add: days_before_year_def)
  moreover have "days_before_year (y + 1) \<le> days_before_year 10000"
    using assms(2) by (intro days_before_year_mono) simp
  moreover have "days_before_year 10000 = MAXORDINAL"
    by (simp add: days_before_year_def MAXORDINAL_def)
  ultimately show ?thesis
    using days_before_month_bounds [OF assms(3,4), of y] days_before_year_step [of y] assms(5,6)
    by (simp add: valid_date_def ymd2ord_def split: if_splits)
qed
lemma digit_val_le: "is_dec_digit c \<Longrightarrow> digit_val c \<le> 9"
  by (auto simp: is_dec_digit_def DIGITS_def digit_val_def)

lemma first_some_SomeD: "first_some f xs = Some y \<Longrightarrow> \<exists>x \<in> set xs. f x = Some y"
  by (induction xs) (auto split: option.splits)

lemma year_re_bounds: "year_re s = Some (y, r) \<Longrightarrow> 0 \<le> y \<and> y \<le> 9999"
proof (cases s rule: year_re.cases)
  case (1 a b c d r')
  moreover assume "year_re s = Some (y, r)"
  ultimately show ?thesis
    using digit_val_le [of a] digit_val_le [of b] digit_val_le [of c] digit_val_le [of d]
    by (auto simp: read_digits_def split: if_splits)
qed auto

lemma month_alts_bounds:
  "ma \<in> set month_alts \<Longrightarrow> ma s = Some (m, r) \<Longrightarrow> 1 \<le> m \<and> m \<le> 12"
  unfolding month_alts_def
  by (cases s rule: m_ten.cases; auto simp: digit_in_def read_digits_def digit_val_def split: if_splits)

lemma day_alts_pos:
  "da \<in> set day_alts \<Longrightarrow> da s = Some (d, r) \<Longrightarrow> 1 \<le> d"
  unfolding day_alts_def
  by (cases s rule: m_ten.cases; auto simp: digit_in_def read_digits_def digit_val_def split: if_splits)

lemma strptime_match_bounds:
  assumes "strptime_match s = Some (y, m, d, rest)"
  shows "0 \<le> y \<and> y \<le> 9999 \<and> 1 \<le> m \<and> m \<le> 12 \<and> 1 \<le> d"
proof -
  from assms obtain y0 r0 where y: "year_re s = Some (y0, r0)"
    and fm: "first_some (\<lambda>ma. case ma r0 of None \<Rightarrow> None
           | Some (m, r1) \<Rightarrow> first_some (\<lambda>da. map_option (\<lambda>(d, r2). (y0, m, d, r2)) (da r1)) day_alts)
         month_alts = Some (y, m, d, rest)"
    by (auto simp: strptime_match_def split: option.splits)
  from first_some_SomeD [OF fm] obtain ma where ma: "ma \<in> set month_alts"
    and "(case ma r0 of None \<Rightarrow> None
           | Some (m, r1) \<Rightarrow> first_some (\<lambda>da. map_option (\<lambda>(d, r2). (y0, m, d, r2)) (da r1)) day_alts)
         = Some (y, m, d, rest)"
    by blast
  then obtain m' r1 where m': "ma r0 = Some (m', r1)"
    and fd: "first_some (\<lambda>da. map_option (\<lambda>(d, r2). (y0, m', d, r2)) (da r1)) day_alts = Some (y, m, d, rest)"
    by (auto split: option.splits)
  from first_some_SomeD [OF fd] obtain da d' r2 where da: "da \<in> set day_alts" "da r1 = Some (d', r2)"
    and eq: "(y0, m', d', r2) = (y, m, d, rest)"
    by auto
  show ?thesis
    using year_re_bounds [OF y] month_alts_bounds [OF ma m'] day_alts_pos [OF da] eq by simp
qed

theorem strptime_date_valid: "strptime_date s = Inr d \<Longrightarrow> valid_date d"
  using strptime_match_bounds [of s] ymd2ord_valid
  by (force simp: strptime_date_def split: option.splits if_splits)

lemma set_pad2: "set (pad2 i) \<subseteq> insert CHR ''-'' (set DIGITS)"
  using set_show_int [of i] by (auto simp: pad2_def DIGITS_def)

lemma set_strftime_Ymd: "set (strftime_Ymd d) \<subseteq> insert CHR ''-'' (set DIGITS)"
proof -
  obtain y m dd where "ord2ymd d = (y, m, dd)"
    by (cases "ord2ymd d") auto
  then show ?thesis
    using set_show_int [of y] set_pad2 [of m] set_pad2 [of dd] by (simp add: strftime_Ymd_def)
qed

end
