(* ===== verification/Query.thy ===== *)
theory Query
  imports Dates "HOL-Library.Char_ord" "HOL-Library.List_Lexorder" "HOL-Library.Product_Lexorder"
begin

text \<open>
  Canonical query strings. \<open>quote\<close> is \<open>urllib.parse.quote(s, safe='/')\<close>: the bytes
  \<open>A-Z a-z 0-9 _ . - ~\<close> and \<open>/\<close> pass through, every other byte becomes \<open>%XX\<close>
  with upper-case hex digits. \<open>unquote\<close> is the byte-level inverse
  (\<open>urllib.parse.unquote_to_bytes\<close>). The two query builders are the f-strings of
  \<open>AWIS.url_info\<close> and of the loop of \<open>AWIS.traffic_history\<close>; \<open>parse_query\<close>
  splits a query at \<open>&\<close> and each parameter at its first \<open>=\<close>, as a server reads it.
  The SigV4 encoding of query values (\<open>sigv4_encode\<close>) is the standard's: it keeps only
  the unreserved bytes.
\<close>

subsection \<open>Percent-encoding\<close>

definition always_safe :: "char \<Rightarrow> bool" where
  "always_safe c \<longleftrightarrow>
     c \<in> set ''ABCDEFGHIJKLMNOPQRSTUVWXYZabcdefghijklmnopqrstuvwxyz0123456789_.-~''"

definition quote_safe :: "char \<Rightarrow> bool" where
  "quote_safe c \<longleftrightarrow> always_safe c \<or> c = CHR ''/''"

definition HEX_DIGITS :: string where
  "HEX_DIGITS = ''0123456789ABCDEF''"

definition hex_upper :: "nat \<Rightarrow> char" where
  "hex_upper d = HEX_DIGITS ! d"

definition percent_byte :: "char \<Rightarrow> string" where
  "percent_byte c = [CHR ''%'', hex_upper (of_char c div 16), hex_upper (of_char c mod 16)]"

definition quote :: "string \<Rightarrow> string" where
  "quote s = concat (map (\<lambda>c. if quote_safe c then [c] else percent_byte c) s)"

definition sigv4_encode :: "string \<Rightarrow> string" where
  "sigv4_encode s = concat (map (\<lambda>c. if always_safe c then [c] else percent_byte c) s)"

definition hex_val :: "char \<Rightarrow> nat option" where
  "hex_val c =
     (if CHR ''0'' \<le> c \<and> c \<le> CHR ''9'' then Some (of_char c - 48)
      else if CHR ''A'' \<le> c \<and> c \<le> CHR ''F'' then Some (of_char c - 55)
      else if CHR ''a'' \<le> c \<and> c \<le> CHR ''f'' then Some (of_char c - 87)
      else None)"

fun unquote :: "string \<Rightarrow> string" where
  "unquote (p # a # b # r) =
     (if p = CHR ''%'' then
        (case (hex_val a, hex_val b) of
           (Some x, Some y) \<Rightarrow> char_of (16 * x + y) # unquote r
         | _ \<Rightarrow> p # unquote (a # b # r))
      else p # unquote (a # b # r))"
| "unquote cs = cs"

subsection \<open>The canonical queries of the two actions\<close>

text \<open>\<open>AWIS.url_info\<close>, \<open>src/awis/awis.py\<close> line 103.\<close>

definition url_info_query :: "string \<Rightarrow> string \<Rightarrow> string" where
  "url_info_query str_response_groups url =
     ''Action=urlInfo&ResponseGroup='' @ quote str_response_groups @ ''&Url='' @ quote url"

text \<open>\<open>AWIS.traffic_history\<close>, \<open>src/awis/awis.py\<close> lines 138-140.\<close>

definition history_query :: "string \<Rightarrow> int \<Rightarrow> date \<Rightarrow> string" where
  "history_query url instance_search_range date =
     ''Action=TrafficHistory&Range='' @ show_int instance_search_range @
     ''&ResponseGroup=History&Start='' @ strftime_Ymd date @ ''&Url='' @ quote url"

subsection \<open>Reading a query back\<close>

definition split_param :: "string \<Rightarrow> string \<times> string" where
  "split_param p = (takeWhile (\<lambda>c. c \<noteq> CHR ''='') p, drop 1 (dropWhile (\<lambda>c. c \<noteq> CHR ''='') p))"

definition parse_query :: "string \<Rightarrow> (string \<times> string) list" where
  "parse_query q = map split_param (split_on CHR ''&'' q)"

text \<open>
  What a SigV4 verifier signs for the query it received: the parameters decoded, encoded
  again with \<open>sigv4_encode\<close>, sorted by name (then value), joined by \<open>&\<close>.
\<close>

definition sigv4_canonical_query :: "(string \<times> string) list \<Rightarrow> string" where
  "sigv4_canonical_query ps =
     join ''&'' (map (\<lambda>(k, v). k @ ''='' @ v)
       (sort (map (\<lambda>(k, v). (sigv4_encode k, sigv4_encode v)) ps)))"

definition decode_params :: "(string \<times> string) list \<Rightarrow> (string \<times> string) list" where
  "decode_params ps = map (\<lambda>(k, v). (unquote k, unquote v)) ps"

subsection \<open>Percent-encoding lemmas\<close>

lemma hex_val_hex_upper [simp]: "d < 16 \<Longrightarrow> hex_val (hex_upper d) = Some d"
  by (auto simp: hex_upper_def HEX_DIGITS_def hex_val_def less_Suc_eq numeral_eq_Suc)

lemma hex_upper_mem: "d < 16 \<Longrightarrow> hex_upper d \<in> set HEX_DIGITS"
  unfolding hex_upper_def by (rule nth_mem) (simp add: HEX_DIGITS_def)

lemma of_char_div_16: "of_char c div 16 < (16::nat)"
  using nat_of_char_less_256 [of c] by (simp add: div_less_iff_less_mult)

lemma char_of_percent: "char_of (16 * (of_char c div 16) + of_char c mod 16 :: nat) = c"
  by simp

lemma unquote_Cons_other [simp]:
  assumes "c \<noteq> CHR ''%''"
  shows "unquote (c # r) = c # unquote r"
proof (cases r)
  case (Cons a r')
  with assms show ?thesis by (cases r') simp_all
qed simp

lemma unquote_percent_byte [simp]: "unquote (percent_byte c @ r) = c # unquote r"
  using of_char_div_16 [of c] by (simp add: percent_byte_def)

lemma quote_Cons:
  "quote (c # s) = (if quote_safe c then [c] else percent_byte c) @ quote s"
  by (simp add: quote_def)

lemma quote_safe_not_percent: "quote_safe c \<Longrightarrow> c \<noteq> CHR ''%''"
  by (auto simp: quote_safe_def always_safe_def)

lemma unquote_quote: "unquote (quote s) = s"
proof (induction s)
  case Nil
  then show ?case by (simp add: quote_def)
next
  case (Cons c s)
  then show ?case
    by (simp add: quote_Cons quote_safe_not_percent)
qed

lemma set_percent_byte:
  "set (percent_byte c) \<subseteq> insert (CHR ''%'') (set HEX_DIGITS)"
  using hex_upper_mem [OF of_char_div_16 [of c]] hex_upper_mem [of "of_char c mod 16"]
  by (simp add: percent_byte_def)

lemma set_quote:
  "set (quote s) \<subseteq> Collect quote_safe \<union> insert (CHR ''%'') (set HEX_DIGITS)"
  using set_percent_byte by (fastforce simp: quote_def split: if_splits)

lemma quote_no_delims [simp]:
  "CHR ''&'' \<notin> set (quote s)" "CHR ''='' \<notin> set (quote s)" "CHR '','' \<notin> set (quote s)"
  using set_quote [of s] by (auto simp: quote_safe_def always_safe_def HEX_DIGITS_def)

subsection \<open>Reading the canonical queries back\<close>

lemma split_param_eq:
  "CHR ''='' \<notin> set k \<Longrightarrow> split_param (k @ CHR ''='' # v) = (k, v)"
  by (induction k) (auto simp: split_param_def)

lemma show_nat_no_delims [simp]:
  "CHR ''&'' \<notin> set (show_nat n)" "CHR ''%'' \<notin> set (show_nat n)" "CHR ''/'' \<notin> set (show_nat n)"
  using set_show_nat [of n] by (auto simp: DIGITS_def)

lemma show_int_no_delims [simp]:
  "CHR ''&'' \<notin> set (show_int i)" "CHR ''%'' \<notin> set (show_int i)" "CHR ''/'' \<notin> set (show_int i)"
  by (simp_all add: show_int_def)

lemma pad2_no_delims [simp]:
  "CHR ''&'' \<notin> set (pad2 i)" "CHR ''%'' \<notin> set (pad2 i)" "CHR ''/'' \<notin> set (pad2 i)"
  by (simp_all add: pad2_def)

lemma strftime_no_delims [simp]:
  "CHR ''&'' \<notin> set (strftime_Ymd d)" "CHR ''%'' \<notin> set (strftime_Ymd d)"
  "CHR ''/'' \<notin> set (strftime_Ymd d)"
  by (simp_all add: strftime_Ymd_def split: prod.split)

lemma history_query_join:
  "history_query url isr d =
     join ''&'' [''Action=TrafficHistory'', ''Range='' @ show_int isr, ''ResponseGroup=History'',
                 ''Start='' @ strftime_Ymd d, ''Url='' @ quote url]"
  by (simp add: history_query_def)

lemma url_info_query_join:
  "url_info_query g url = join ''&'' [''Action=urlInfo'', ''ResponseGroup='' @ quote g, ''Url='' @ quote url]"
  by (simp add: url_info_query_def)

lemma unquote_no_percent: "CHR ''%'' \<notin> set s \<Longrightarrow> unquote s = s"
proof (induction s)
  case (Cons a s)
  then have "a \<noteq> CHR ''%''" by auto
  with Cons show ?case by simp
qed simp

lemma sigv4_encode_Cons:
  "sigv4_encode (c # s) = (if always_safe c then [c] else percent_byte c) @ sigv4_encode s"
  by (simp add: sigv4_encode_def)

lemma sigv4_encode_safe: "set s \<subseteq> Collect always_safe \<Longrightarrow> sigv4_encode s = s"
  by (induction s) (simp_all add: sigv4_encode_Cons, simp add: sigv4_encode_def)

lemma length_quote_le: "length (quote s) \<le> length (sigv4_encode s)"
  by (induction s) (auto simp: quote_Cons sigv4_encode_Cons quote_safe_def percent_byte_def, simp_all add: quote_def sigv4_encode_def)

theorem quote_eq_sigv4_encode_iff: "quote s = sigv4_encode s \<longleftrightarrow> CHR ''/'' \<notin> set s"
proof (induction s)
  case Nil
  then show ?case by (simp add: quote_def sigv4_encode_def)
next
  case (Cons c s)
  show ?case
  proof (cases "c = CHR ''/''")
    case True
    have "length (quote (c # s)) < length (sigv4_encode (c # s))"
      using True length_quote_le [of s]
      by (simp add: quote_Cons sigv4_encode_Cons quote_safe_def always_safe_def percent_byte_def)
    with True show ?thesis by auto
  next
    case False
    then have "quote_safe c = always_safe c" by (simp add: quote_safe_def)
    with False Cons.IH show ?thesis
      by (simp add: quote_Cons sigv4_encode_Cons)
  qed
qed

lemma digits_always_safe: "set DIGITS \<subseteq> Collect always_safe"
  by (simp add: DIGITS_def always_safe_def)

lemma show_nat_always_safe: "set (show_nat n) \<subseteq> Collect always_safe"
  using set_show_nat [of n] digits_always_safe by blast

lemma always_safe_sign_zero: "always_safe CHR ''-''" "always_safe CHR ''0''"
  by (simp_all add: always_safe_def)
lemma show_int_always_safe: "set (show_int i) \<subseteq> Collect always_safe"
  using show_nat_always_safe by (simp add: show_int_def always_safe_sign_zero)

lemma pad2_always_safe: "set (pad2 i) \<subseteq> Collect always_safe"
  unfolding pad2_def using show_int_always_safe [of i] always_safe_sign_zero by auto

lemma strftime_always_safe: "set (strftime_Ymd d) \<subseteq> Collect always_safe"
proof -
  obtain y m dd where "ord2ymd d = (y, m, dd)"
    by (cases "ord2ymd d") auto
  then show ?thesis
    using show_int_always_safe [of y] pad2_always_safe [of m] pad2_always_safe [of dd]
    by (simp add: strftime_Ymd_def)
qed

lemma parse_history_query:
  "parse_query (history_query url isr d) =
     [(''Action'', ''TrafficHistory''), (''Range'', show_int isr), (''ResponseGroup'', ''History''),
      (''Start'', strftime_Ymd d), (''Url'', quote url)]"
  unfolding history_query_join parse_query_def
  by (subst split_on_join) (auto simp: split_param_def)

lemma decode_history_query:
  "decode_params (parse_query (history_query url isr d)) =
     [(''Action'', ''TrafficHistory''), (''Range'', show_int isr), (''ResponseGroup'', ''History''),
      (''Start'', strftime_Ymd d), (''Url'', url)]"
  by (simp add: parse_history_query decode_params_def unquote_quote unquote_no_percent)

lemma parse_url_info_query:
  "parse_query (url_info_query g url) =
     [(''Action'', ''urlInfo''), (''ResponseGroup'', quote g), (''Url'', quote url)]"
  unfolding url_info_query_join parse_query_def
  by (subst split_on_join) (auto simp: split_param_def)

lemma decode_url_info_query:
  "decode_params (parse_query (url_info_query g url)) =
     [(''Action'', ''urlInfo''), (''ResponseGroup'', g), (''Url'', url)]"
  by (simp add: parse_url_info_query decode_params_def unquote_quote)

text \<open>
  C16: The TrafficHistory query string equals the SigV4 canonical query a verifier
  rebuilds from it (parameters decoded, re-encoded, sorted) if and only if the url
  contains no '/', which quote leaves unencoded.
\<close>

theorem history_query_sigv4_canonical:
  "sigv4_canonical_query (decode_params (parse_query (history_query url isr d))) = history_query url isr d
   \<longleftrightarrow> CHR ''/'' \<notin> set url"
proof -
  note dec = decode_history_query
  have enc: "map (\<lambda>(k, v). (sigv4_encode k, sigv4_encode v)) (decode_params (parse_query (history_query url isr d))) =
     [(''Action'', ''TrafficHistory''), (''Range'', show_int isr), (''ResponseGroup'', ''History''),
      (''Start'', strftime_Ymd d), (''Url'', sigv4_encode url)]"
    unfolding dec
    by (simp add: sigv4_encode_safe show_int_always_safe strftime_always_safe)
       (simp add: sigv4_encode_def always_safe_def)
  have "sorted [(''Action'', ''TrafficHistory''), (''Range'', show_int isr), (''ResponseGroup'', ''History''),
      (''Start'', strftime_Ymd d), (''Url'', sigv4_encode url)]"
    by simp
  then have "sigv4_canonical_query (decode_params (parse_query (history_query url isr d))) =
      history_query url isr d \<longleftrightarrow> sigv4_encode url = quote url"
    unfolding sigv4_canonical_query_def enc
    by (simp add: sorted_sort_id history_query_def)
  then show ?thesis
    using quote_eq_sigv4_encode_iff [of url] by auto
qed

text \<open>
  C25: From the urlInfo query string a reader recovers the url and the exact list of
  response groups (when no group contains a comma).
\<close>

theorem url_info_query_roundtrip:
  assumes "groups \<noteq> []" and "\<forall>g \<in> set groups. CHR '','' \<notin> set g"
  shows "map_of (decode_params (parse_query (url_info_query (join '','' groups) url))) ''Url'' = Some url \<and>
         map_option (split_on CHR '','')
           (map_of (decode_params (parse_query (url_info_query (join '','' groups) url))) ''ResponseGroup'')
         = Some groups"
  using split_on_join [OF assms] by (simp add: decode_url_info_query)

lemma url_info_query_roundtrip_witness:
  "map_of (decode_params (parse_query (url_info_query (join '','' [''Rank'', ''LinksInCount'']) ''example.com'')))
     ''Url'' = Some ''example.com'' \<and>
   map_option (split_on CHR '','')
     (map_of (decode_params (parse_query (url_info_query (join '','' [''Rank'', ''LinksInCount'']) ''example.com'')))
       ''ResponseGroup'') = Some [''Rank'', ''LinksInCount'']"
  by (rule url_info_query_roundtrip) simp_all

end
