(* ===== verification/Planner.thy ===== *)
theory Planner
  imports Query
begin

text \<open>
  The history planner: the part of \<open>AWIS.traffic_history\<close> that validates the request
  and builds the canonical queries of the sub-requests (\<open>src/awis/awis.py\<close> lines
  119-142, \<open>src/awis.py\<close> lines 109-135). The two versions differ only in the exception
  they raise, so the two range errors are a parameter (\<open>range_errors_v2\<close> raises
  \<open>ValueError\<close>, \<open>range_errors_v1\<close> the module's \<open>SearchRangeError\<close>). \<open>today\<close> is
  the value \<open>datetime.date.today()\<close> returned; the code reads it twice (lines 122 and
  128), and the model takes one reading for both, which is what happens unless the call
  straddles midnight.

  The loop \<open>for i in range(num_requests)\<close> is \<open>history_loop\<close> over the list
  \<open>[0..<num_requests]\<close>; its body computes the sub-request's range (\<open>range_of\<close>), the
  query, and advances the date, which may raise \<open>OverflowError\<close>. \<open>windows\<close> is the
  abstract plan (start date and span of every sub-request), \<open>spec_spans\<close> the spans the
  specification asks for (section 4.5: full 31-day requests and a last one of
  \<open>search_range mod 31\<close> days, none of length zero).
\<close>

definition MAX_SEARCH_RANGE :: int where
  "MAX_SEARCH_RANGE = 31"

definition range_of :: "int \<Rightarrow> int \<Rightarrow> nat \<Rightarrow> int" where
  "range_of num_requests remainder i =
     (if int i \<noteq> num_requests - 1 then MAX_SEARCH_RANGE else remainder)"

fun history_loop :: "string \<Rightarrow> int \<Rightarrow> int \<Rightarrow> date \<Rightarrow> nat list \<Rightarrow> string list result" where
  "history_loop url num_requests remainder date [] = Inr []"
| "history_loop url num_requests remainder date (i # is) =
     (let instance_search_range = range_of num_requests remainder i;
          canonical_query = history_query url instance_search_range date
      in bindE (bindE (timedelta instance_search_range) (date_add date))
           (\<lambda>date'. bindE (history_loop url num_requests remainder date' is)
                       (\<lambda>queries. Inr (canonical_query # queries))))"

text \<open>Lines 121-126: the start date, from \<open>today\<close> or from \<open>start_date\<close>, shifted back when
  \<open>search_reverse\<close> is set.\<close>

definition start_of :: "date \<Rightarrow> int \<Rightarrow> string option \<Rightarrow> bool \<Rightarrow> date result" where
  "start_of today search_range start_date search_reverse =
     bindE (case start_date of
              None \<Rightarrow> bindE (timedelta search_range) (date_sub today)
            | Some s \<Rightarrow> strptime_date s)
       (\<lambda>date. if search_reverse then bindE (timedelta search_range) (date_sub date) else Inr date)"

definition num_requests_of :: "int \<Rightarrow> int" where
  "num_requests_of search_range =
     (let quotient = search_range div MAX_SEARCH_RANGE; remainder = search_range mod MAX_SEARCH_RANGE
      in quotient + min remainder 1)"

definition range_errors_v2 :: "py_error \<times> py_error" where
  "range_errors_v2 = (ValueError ''search_range must be at least 1.'',
                      ValueError ''Cannot search past today's date'')"

definition range_errors_v1 :: "py_error \<times> py_error" where
  "range_errors_v1 =
     (SearchRangeError ''search_range must be at least 1. Set search_reverse to True for searching backwards'',
      SearchRangeError ''Cannot search past today's date'')"

definition traffic_history_plan ::
  "py_error \<times> py_error \<Rightarrow> date \<Rightarrow> string \<Rightarrow> int \<Rightarrow> string option \<Rightarrow> bool \<Rightarrow> string list result" where
  "traffic_history_plan errs today url search_range start_date search_reverse =
     (if search_range < 1 then Inl (fst errs)
      else bindE (start_of today search_range start_date search_reverse) (\<lambda>date.
           bindE (bindE (timedelta search_range) (date_add date)) (\<lambda>end_date.
           if today \<le> end_date then Inl (snd errs)
           else
             let num_requests = num_requests_of search_range;
                 remainder = search_range mod MAX_SEARCH_RANGE
             in history_loop url num_requests remainder date [0..<nat num_requests])))"

subsection \<open>The abstract plan\<close>

fun windows :: "date \<Rightarrow> int list \<Rightarrow> (date \<times> int) list" where
  "windows d [] = []"
| "windows d (s # ss) = (d, s) # windows (d + s) ss"

text \<open>The spans the loop gives its sub-requests.\<close>

definition plan_spans :: "int \<Rightarrow> int list" where
  "plan_spans search_range =
     map (range_of (num_requests_of search_range) (search_range mod MAX_SEARCH_RANGE))
       [0..<nat (num_requests_of search_range)]"

definition spec_spans :: "int \<Rightarrow> int list" where
  "spec_spans search_range =
     replicate (nat (search_range div MAX_SEARCH_RANGE)) MAX_SEARCH_RANGE @
     (if search_range mod MAX_SEARCH_RANGE = 0 then [] else [search_range mod MAX_SEARCH_RANGE])"

text \<open>Every window starts where the one before it ends, and no span is negative.\<close>

fun contiguous :: "date \<Rightarrow> (date \<times> int) list \<Rightarrow> bool" where
  "contiguous d [] = True"
| "contiguous d ((d', s) # ws) = (d' = d \<and> 0 \<le> s \<and> contiguous (d + s) ws)"

definition covered :: "(date \<times> int) list \<Rightarrow> date set" where
  "covered ws = (\<Union>(d, s) \<in> set ws. {d..<d + s})"

subsection \<open>The loop and the plan\<close>

lemma history_loop_windows:
  assumes "0 < d"
    and "\<forall>i \<in> set is. 0 \<le> range_of num rem i \<and> range_of num rem i \<le> MAX_DELTA_DAYS"
    and "d + sum_list (map (range_of num rem) is) \<le> MAXORDINAL"
  shows "history_loop url num rem d is =
           Inr (map (\<lambda>(d, s). history_query url s d) (windows d (map (range_of num rem) is)))"
  using assms
proof (induction "is" arbitrary: d)
  case Nil
  then show ?case by simp
next
  case (Cons i "is")
  let ?s = "range_of num rem i"
  have s: "0 \<le> ?s" "?s \<le> MAX_DELTA_DAYS" using Cons.prems(2) by auto
  have rest: "0 \<le> sum_list (map (range_of num rem) is)"
    using Cons.prems(2) by (intro sum_list_nonneg) auto
  have step: "bindE (timedelta ?s) (date_add d) = Inr (d + ?s)"
    using s rest Cons.prems(1,3) by (simp add: timedelta_def date_add_def Let_def)
  have "history_loop url num rem (d + ?s) is =
          Inr (map (\<lambda>(d, s). history_query url s d) (windows (d + ?s) (map (range_of num rem) is)))"
    using Cons.prems s by (intro Cons.IH) (auto simp: add.assoc)
  then show ?case
    by (simp add: step Let_def)
qed

lemma map_upt_const: "(\<And>i. i < m \<Longrightarrow> f i = c) \<Longrightarrow> map f [0..<m] = replicate m c"
  by (induction m) (auto simp: replicate_append_same)

lemma divmod_31:
  "sr = sr div MAX_SEARCH_RANGE * 31 + sr mod MAX_SEARCH_RANGE"
  "0 \<le> sr mod MAX_SEARCH_RANGE" "sr mod MAX_SEARCH_RANGE < 31"
  by (simp_all add: MAX_SEARCH_RANGE_def)

lemma num_requests_of_eq:
  "num_requests_of sr = sr div MAX_SEARCH_RANGE + (if sr mod MAX_SEARCH_RANGE = 0 then 0 else 1)"
  using divmod_31(2) [of sr] by (simp add: num_requests_of_def Let_def min_def)

lemma num_requests_of_pos: "1 \<le> sr \<Longrightarrow> 1 \<le> num_requests_of sr"
  using divmod_31 [of sr] by (simp add: num_requests_of_eq)

lemma plan_spans_eq:
  assumes "1 \<le> sr"
  shows "plan_spans sr =
    replicate (nat (num_requests_of sr) - 1) MAX_SEARCH_RANGE @ [sr mod MAX_SEARCH_RANGE]"
proof -
  let ?n = "nat (num_requests_of sr)"
  have pos: "1 \<le> num_requests_of sr" by (rule num_requests_of_pos [OF assms])
  have n: "?n = Suc (?n - 1)" using pos by simp
  have "[0..<?n] = [0..<?n - 1] @ [?n - 1]"
    by (subst n) simp
  moreover have "\<And>i. i < ?n - 1 \<Longrightarrow> range_of (num_requests_of sr) (sr mod MAX_SEARCH_RANGE) i = MAX_SEARCH_RANGE"
    using pos by (auto simp: range_of_def)
  then have "map (range_of (num_requests_of sr) (sr mod MAX_SEARCH_RANGE)) [0..<?n - 1] =
      replicate (?n - 1) MAX_SEARCH_RANGE"
    by (rule map_upt_const)
  moreover have "range_of (num_requests_of sr) (sr mod MAX_SEARCH_RANGE) (?n - 1) = sr mod MAX_SEARCH_RANGE"
    using pos by (simp add: range_of_def)
  ultimately show ?thesis by (simp add: plan_spans_def)
qed

lemma plan_spans_cases:
  assumes "1 \<le> sr"
  shows "plan_spans sr =
    (if sr mod MAX_SEARCH_RANGE = 0
     then replicate (nat (sr div MAX_SEARCH_RANGE) - 1) MAX_SEARCH_RANGE @ [0]
     else replicate (nat (sr div MAX_SEARCH_RANGE)) MAX_SEARCH_RANGE @ [sr mod MAX_SEARCH_RANGE])"
proof (cases "sr mod MAX_SEARCH_RANGE = 0")
  case True
  then show ?thesis
    using plan_spans_eq [OF assms] by (simp add: num_requests_of_eq)
next
  case False
  have "0 \<le> sr div MAX_SEARCH_RANGE"
    using assms divmod_31 [of sr] by linarith
  with False show ?thesis
    using plan_spans_eq [OF assms] by (simp add: num_requests_of_eq nat_add_distrib)
qed

lemma sum_list_plan_spans:
  assumes "1 \<le> sr"
  shows "sum_list (plan_spans sr) = sr - (if sr mod MAX_SEARCH_RANGE = 0 then MAX_SEARCH_RANGE else 0)"
proof (cases "sr mod MAX_SEARCH_RANGE = 0")
  case True
  then have "1 \<le> sr div MAX_SEARCH_RANGE"
    using assms divmod_31 [of sr] by linarith
  with True show ?thesis
    using divmod_31(1) [of sr] by (simp add: plan_spans_cases [OF assms] sum_list_replicate of_nat_diff MAX_SEARCH_RANGE_def)
next
  case False
  have "0 \<le> sr div MAX_SEARCH_RANGE"
    using assms divmod_31 [of sr] by linarith
  with False show ?thesis
    using divmod_31(1) [of sr] by (simp add: plan_spans_cases [OF assms] sum_list_replicate MAX_SEARCH_RANGE_def)
qed

lemma contiguous_windows: "\<forall>s \<in> set ss. 0 \<le> s \<Longrightarrow> contiguous d (windows d ss)"
  by (induction ss arbitrary: d) auto

lemma covered_windows:
  "\<forall>s \<in> set ss. 0 \<le> s \<Longrightarrow> covered (windows d ss) = {d..<d + sum_list ss}"
proof (induction ss arbitrary: d)
  case Nil
  then show ?case by (simp add: covered_def)
next
  case (Cons s ss)
  then have IH: "covered (windows (d + s) ss) = {d + s..<d + s + sum_list ss}" by simp
  have nn: "0 \<le> s" "0 \<le> sum_list ss"
    using Cons.prems by (auto intro: sum_list_nonneg)
  have "covered (windows d (s # ss)) = {d..<d + s} \<union> covered (windows (d + s) ss)"
    by (simp add: covered_def)
  also have "\<dots> = {d..<d + sum_list (s # ss)}"
    using nn unfolding IH by auto
  finally show ?case .
qed

lemma plan_spans_bounds: "1 \<le> sr \<Longrightarrow> \<forall>s \<in> set (plan_spans sr). 0 \<le> s \<and> s \<le> MAX_SEARCH_RANGE"
  using divmod_31 [of sr] by (auto simp: plan_spans_eq MAX_SEARCH_RANGE_def)

lemma date_add_valid: "date_add d n = Inr d' \<Longrightarrow> valid_date d'"
  by (auto simp: date_add_def valid_date_def Let_def split: if_splits)

lemma date_sub_valid: "date_sub d n = Inr d' \<Longrightarrow> valid_date d'"
  by (auto simp: date_sub_def bindE_Inr_iff intro: date_add_valid)

lemma start_of_valid:
  "valid_date today \<Longrightarrow> start_of today sr start_date reverse = Inr d \<Longrightarrow> valid_date d"
  by (auto simp: start_of_def bindE_Inr_iff dest: date_sub_valid strptime_date_valid
           split: option.splits if_splits)

lemma date_shift_ok:
  assumes "0 < d" "0 \<le> n" "d + n \<le> MAXORDINAL"
  shows "bindE (timedelta n) (date_add d) = Inr (d + n)"
  using assms by (simp add: timedelta_def date_add_def MAX_DELTA_DAYS_def MAXORDINAL_def Let_def)

lemma traffic_history_plan_windows:
  assumes "1 \<le> sr" "valid_date today"
    and "start_of today sr start_date reverse = Inr date" and "date + sr < today"
  shows "traffic_history_plan errs today url sr start_date reverse =
           Inr (map (\<lambda>(d, s). history_query url s d) (windows date (plan_spans sr)))"
proof -
  have vd: "valid_date date" by (rule start_of_valid [OF assms(2,3)])
  have end_ok: "bindE (timedelta sr) (date_add date) = Inr (date + sr)"
    using vd assms(1,2,4) by (intro date_shift_ok) (auto simp: valid_date_def)
  have sum_le: "sum_list (plan_spans sr) \<le> sr"
    using sum_list_plan_spans [OF assms(1)] by (simp add: MAX_SEARCH_RANGE_def)
  have loop: "history_loop url (num_requests_of sr) (sr mod MAX_SEARCH_RANGE) date [0..<nat (num_requests_of sr)] =
      Inr (map (\<lambda>(d, s). history_query url s d) (windows date (plan_spans sr)))"
    unfolding plan_spans_def
  proof (rule history_loop_windows)
    show "0 < date" using vd by (simp add: valid_date_def)
    show "\<forall>i \<in> set [0..<nat (num_requests_of sr)].
            0 \<le> range_of (num_requests_of sr) (sr mod MAX_SEARCH_RANGE) i \<and>
            range_of (num_requests_of sr) (sr mod MAX_SEARCH_RANGE) i \<le> MAX_DELTA_DAYS"
      using plan_spans_bounds [OF assms(1)]
      by (auto simp: plan_spans_def MAX_SEARCH_RANGE_def MAX_DELTA_DAYS_def)
    show "date + sum_list (map (range_of (num_requests_of sr) (sr mod MAX_SEARCH_RANGE))
            [0..<nat (num_requests_of sr)]) \<le> MAXORDINAL"
      using sum_le assms(2,4) by (simp add: plan_spans_def valid_date_def)
  qed
  show ?thesis
    using assms(1,3,4) end_ok loop by (simp add: traffic_history_plan_def)
qed

text \<open>
  C3: Without start_date and without search_reverse, the default start today -
  search_range puts the window's end on today, so traffic_history always raises the
  'Cannot search past today' error.
\<close>

theorem traffic_history_default_start_rejected:
  assumes "valid_date today" "1 \<le> sr" "sr < today"
  shows "traffic_history_plan errs today url sr None False = Inl (snd errs)"
proof -
  have "start_of today sr None False = Inr (today - sr)"
    using assms by (simp add: start_of_def date_sub_def timedelta_def date_add_def valid_date_def
                              MAX_DELTA_DAYS_def MAXORDINAL_def Let_def)
  moreover have "bindE (timedelta sr) (date_add (today - sr)) = Inr today"
    using date_shift_ok [of "today - sr" sr] assms by (simp add: valid_date_def)
  ultimately show ?thesis
    using assms(2) by (simp add: traffic_history_plan_def)
qed

text \<open>
  C2: When search_range is a positive multiple of 31, the loop gives the last
  sub-request Range=0 (the remainder) instead of 31, so its spans are 31,...,31,0.
\<close>

theorem plan_spans_multiple_of_31:
  "1 \<le> k \<Longrightarrow> plan_spans (MAX_SEARCH_RANGE * k) = replicate (nat k - 1) MAX_SEARCH_RANGE @ [0]"
  by (simp add: plan_spans_cases MAX_SEARCH_RANGE_def)

text \<open>
  C8: The sub-request spans the code computes equal the specified ones (full 31-day
  requests then one of search_range mod 31 days) exactly when search_range is not a
  multiple of 31.
\<close>

theorem plan_spans_refines_spec:
  assumes "1 \<le> sr"
  shows "plan_spans sr = spec_spans sr \<longleftrightarrow> sr mod MAX_SEARCH_RANGE \<noteq> 0"
proof (cases "sr mod MAX_SEARCH_RANGE = 0")
  case True
  then have "last (plan_spans sr) = 0" "last (spec_spans sr) = MAX_SEARCH_RANGE"
    "1 \<le> sr div MAX_SEARCH_RANGE"
    using plan_spans_cases [OF assms] assms divmod_31 [of sr]
    by (auto simp: spec_spans_def MAX_SEARCH_RANGE_def)
  with True show ?thesis by (auto simp: MAX_SEARCH_RANGE_def)
next
  case False
  then show ?thesis by (simp add: plan_spans_cases [OF assms] spec_spans_def)
qed

text \<open>
  C9: The sub-request windows are contiguous without overlap and together cover the
  days [start, start + search_range), except the last 31 days when search_range is a
  multiple of 31.
\<close>

theorem plan_windows_cover:
  assumes "1 \<le> sr"
  shows "contiguous d (windows d (plan_spans sr)) \<and>
         covered (windows d (plan_spans sr)) =
           {d..<d + sr - (if sr mod MAX_SEARCH_RANGE = 0 then MAX_SEARCH_RANGE else 0)}"
proof -
  have nn: "\<forall>s \<in> set (plan_spans sr). 0 \<le> s"
    using plan_spans_bounds [OF assms] by auto
  show ?thesis
    using contiguous_windows [OF nn] covered_windows [OF nn] sum_list_plan_spans [OF assms]
    by (simp add: add_diff_eq)
qed

lemma ceil_div_31: "(sr + 30) div 31 = sr div 31 + (if sr mod 31 = 0 then 0 else (1::int))"
proof -
  have "sr + 30 = (sr mod 31 + 30) + sr div 31 * 31" by simp
  then have "(sr + 30) div 31 = sr div 31 + (sr mod 31 + 30) div 31"
    by (metis div_mult_self1 zero_neq_numeral)
  moreover have "(sr mod 31 + 30) div 31 = (if sr mod 31 = 0 then 0 else 1)"
  proof (cases "sr mod 31 = 0")
    case False
    have "sr mod 31 + 30 = (sr mod 31 - 1) + 1 * 31" by simp
    moreover have "0 \<le> sr mod 31 - 1" "sr mod 31 - 1 < 31"
      using False pos_mod_sign [of 31 sr] pos_mod_bound [of 31 sr] by linarith+
    ultimately show ?thesis
      using False by simp
  qed simp
  ultimately show ?thesis by simp
qed

text \<open>
  C24: traffic_history issues ceil(search_range / 31) sub-requests and every
  sub-request's Range lies in [0, 31].
\<close>

theorem plan_request_count:
  assumes "1 \<le> sr"
  shows "length (plan_spans sr) = nat ((sr + 30) div MAX_SEARCH_RANGE) \<and>
         (\<forall>s \<in> set (plan_spans sr). 0 \<le> s \<and> s \<le> MAX_SEARCH_RANGE)"
  using plan_spans_bounds [OF assms] num_requests_of_eq [of sr] ceil_div_31 [of sr]
  by (simp add: plan_spans_def MAX_SEARCH_RANGE_def)

text \<open>
  C1: For a valid today, traffic_history returns its list of queries exactly when
  search_range >= 1, the start date is computed without error and its window ends
  before today; the queries are then one TrafficHistory query per window of the plan,
  each starting where the previous ends.
\<close>

theorem traffic_history_plan_result:
  assumes "valid_date today"
  shows "traffic_history_plan errs today url sr start_date reverse = Inr qs \<longleftrightarrow>
         1 \<le> sr \<and> (\<exists>date. start_of today sr start_date reverse = Inr date \<and> date + sr < today \<and>
            qs = map (\<lambda>(d, s). history_query url s d) (windows date (plan_spans sr)))"
proof
  assume h: "traffic_history_plan errs today url sr start_date reverse = Inr qs"
  then have sr: "1 \<le> sr"
    by (auto simp: traffic_history_plan_def split: if_splits)
  with h obtain date end_date where st: "start_of today sr start_date reverse = Inr date"
    and e: "bindE (timedelta sr) (date_add date) = Inr end_date" and lt: "\<not> today \<le> end_date"
    by (auto simp: traffic_history_plan_def bindE_Inr_iff split: if_splits)
  from e have "end_date = date + sr"
    by (auto simp: bindE_Inr_iff timedelta_def date_add_def Let_def split: if_splits)
  with lt have lt': "date + sr < today" by simp
  from traffic_history_plan_windows [OF sr assms st lt'] h
  have "qs = map (\<lambda>(d, s). history_query url s d) (windows date (plan_spans sr))"
    by simp
  with sr st lt' show "1 \<le> sr \<and> (\<exists>date. start_of today sr start_date reverse = Inr date \<and> date + sr < today \<and>
      qs = map (\<lambda>(d, s). history_query url s d) (windows date (plan_spans sr)))"
    by blast
next
  assume "1 \<le> sr \<and> (\<exists>date. start_of today sr start_date reverse = Inr date \<and> date + sr < today \<and>
      qs = map (\<lambda>(d, s). history_query url s d) (windows date (plan_spans sr)))"
  then show "traffic_history_plan errs today url sr start_date reverse = Inr qs"
    using traffic_history_plan_windows [OF _ assms] by blast
qed

lemma windows_dates:
  "(d', s) \<in> set (windows d ss) \<Longrightarrow> \<forall>x \<in> set ss. 0 \<le> x \<Longrightarrow>
     d \<le> d' \<and> 0 \<le> s \<and> d' + s \<le> d + sum_list ss"
proof (induction ss arbitrary: d)
  case (Cons x ss)
  then show ?case
    using sum_list_nonneg [of ss] by (fastforce simp: add.assoc)
qed simp

subsection \<open>Witnesses\<close>

lemma plan_spans_multiple_of_31_witness:
  "(1::int) \<le> 2 \<and> plan_spans (MAX_SEARCH_RANGE * 2) = [31, 0]"
  using plan_spans_multiple_of_31 [of 2] by (simp add: MAX_SEARCH_RANGE_def numeral_eq_Suc)

lemma traffic_history_plan_result_witness:
  "valid_date 737425 \<and>
   traffic_history_plan range_errors_v2 737425 ''example.com'' 45 (Some ''20191001'') False =
     Inr (map (\<lambda>(d, s). history_query ''example.com'' s d) (windows 737333 (plan_spans 45)))"
proof -
  have v: "valid_date 737425" by (simp add: valid_date_def MAXORDINAL_def)
  have s: "start_of 737425 45 (Some ''20191001'') False = Inr 737333"
    by (simp add: start_of_def date_eval_simps)
  show ?thesis
    using traffic_history_plan_result [OF v, of range_errors_v2 "''example.com''" 45 "Some ''20191001''" False] v s
    by auto
qed

lemma traffic_history_default_start_rejected_witness:
  "valid_date 737425 \<and> traffic_history_plan range_errors_v2 737425 ''example.com'' 31 None False =
     Inl (ValueError ''Cannot search past today's date'')"
proof -
  have v: "valid_date 737425" by (simp add: valid_date_def MAXORDINAL_def)
  show ?thesis
    using traffic_history_default_start_rejected [OF v, of 31 range_errors_v2 "''example.com''"] v
    by (simp add: range_errors_v2_def)
qed

lemma plan_spans_refines_spec_witness:
  "plan_spans 45 = spec_spans 45 \<and> plan_spans 62 \<noteq> spec_spans 62"
  using plan_spans_refines_spec [of 45] plan_spans_refines_spec [of 62]
  by (simp add: MAX_SEARCH_RANGE_def)

lemma plan_windows_cover_witness:
  "contiguous 737333 (windows 737333 (plan_spans 62)) \<and>
   covered (windows 737333 (plan_spans 62)) = {737333..<737364}"
  using plan_windows_cover [of 62 737333] by (simp add: MAX_SEARCH_RANGE_def)

lemma plan_request_count_witness:
  "length (plan_spans 45) = 2 \<and> set (plan_spans 45) \<subseteq> {0..MAX_SEARCH_RANGE}"
  using plan_request_count [of 45] by (auto simp: MAX_SEARCH_RANGE_def)

end
