(* ===== verification/Signer.thy ===== *)
theory Signer
  imports Awis_Prelude
begin

text \<open>
  The signer: \<open>AWIS.get_signature_key\<close>, \<open>AWIS.sha256\<close> and \<open>AWIS.hmac_sha256\<close>
  (\<open>src/awis/awis.py\<close> lines 66-88 and 208-217) and their copies in v1
  (\<open>src/awis.py\<close> lines 59-78 and 201-210, the definitions with suffix \<open>_v1\<close>, each
  proved equal to the v2 one). SHA-256 and HMAC-SHA256 are library functions the client
  only calls; they are the two fields of the record \<open>crypto\<close>, and every lemma holds for
  any functions in them. \<open>bytes.hex()\<close> is modelled exactly (two lower-case hex digits
  per byte), as is \<open>str.encode('utf-8')\<close> on the byte strings of the model.
  The reference definition \<open>sigv4_signing_key\<close> is the SigV4 key derivation as the
  standard writes it: HMAC folded over the scope parts, starting from \<open>"AWS4" + secret\<close>.
\<close>

record crypto =
  hmac_digest :: "bytes \<Rightarrow> bytes \<Rightarrow> bytes"
  sha256_digest :: "bytes \<Rightarrow> bytes"

text \<open>\<open>s.encode('utf-8')\<close>: a string of the model is already its byte sequence.\<close>

definition encode :: "string \<Rightarrow> bytes" where
  "encode s = map (\<lambda>c. of_nat (of_char c)) s"

definition HEX_LOWER :: string where
  "HEX_LOWER = ''0123456789abcdef''"

definition hex_byte :: "byte \<Rightarrow> string" where
  "hex_byte b = [HEX_LOWER ! (unat b div 16), HEX_LOWER ! (unat b mod 16)]"

text \<open>\<open>bytes.hex()\<close>.\<close>

definition hex :: "bytes \<Rightarrow> string" where
  "hex bs = concat (map hex_byte bs)"

definition nibble_of :: "char \<Rightarrow> nat option" where
  "nibble_of c = (if c \<in> set HEX_LOWER then Some (of_char c - (if c \<in> set DIGITS then 48 else 87)) else None)"

text \<open>\<open>bytes.fromhex\<close> on lower-case input: the inverse of \<open>hex\<close>.\<close>

fun unhex :: "string \<Rightarrow> bytes option" where
  "unhex [] = Some []"
| "unhex (a # b # r) =
     (case (nibble_of a, nibble_of b, unhex r) of
        (Some x, Some y, Some bs) \<Rightarrow> Some (of_nat (16 * x + y) # bs)
      | _ \<Rightarrow> None)"
| "unhex [_] = None"

text \<open>\<open>AWIS.get_signature_key(datestamp, region_name, service_name)\<close>.\<close>

definition get_signature_key :: "crypto \<Rightarrow> string \<Rightarrow> string \<Rightarrow> string \<Rightarrow> string \<Rightarrow> bytes" where
  "get_signature_key c secret_access_key datestamp region_name service_name =
     (let k_secret = encode (''AWS4'' @ secret_access_key);
          k_date = hmac_digest c k_secret (encode datestamp);
          k_region = hmac_digest c k_date (encode region_name);
          k_service = hmac_digest c k_region (encode service_name);
          k_signing = hmac_digest c k_service (encode ''aws4_request'')
      in k_signing)"

text \<open>
  v1's \<open>AWIS.get_signature_key(datestamp, region_name, service_name)\<close>
  (\<open>src/awis.py\<close>), a copy of v2's on the instance's \<open>secret_access_key\<close>.
\<close>

definition get_signature_key_v1 :: "crypto \<Rightarrow> string \<Rightarrow> string \<Rightarrow> string \<Rightarrow> string \<Rightarrow> bytes" where
  "get_signature_key_v1 c secret_access_key datestamp region_name service_name =
     (let datestamp = encode datestamp;
          region_name = encode region_name;
          service_name = encode service_name;
          k_secret = encode (''AWS4'' @ secret_access_key);
          k_date = hmac_digest c k_secret datestamp;
          k_region = hmac_digest c k_date region_name;
          k_service = hmac_digest c k_region service_name;
          k_signing = hmac_digest c k_service (encode ''aws4_request'')
      in k_signing)"

text \<open>\<open>AWIS.sha256(text)\<close> returns the hex digest of the UTF-8 bytes.\<close>

definition sha256 :: "crypto \<Rightarrow> string \<Rightarrow> string" where
  "sha256 c text_to_hash = hex (sha256_digest c (encode text_to_hash))"

text \<open>\<open>AWIS.hmac_sha256(data, key)\<close> takes the data first and the key second.\<close>

definition hmac_sha256 :: "crypto \<Rightarrow> bytes \<Rightarrow> bytes \<Rightarrow> bytes" where
  "hmac_sha256 c data key = hmac_digest c key data"

text \<open>The same two static methods of v1.\<close>

definition sha256_v1 :: "crypto \<Rightarrow> string \<Rightarrow> string" where
  "sha256_v1 c text_to_hash = hex (sha256_digest c (encode text_to_hash))"

definition hmac_sha256_v1 :: "crypto \<Rightarrow> bytes \<Rightarrow> bytes \<Rightarrow> bytes" where
  "hmac_sha256_v1 c data key = hmac_digest c key data"

subsection \<open>The SigV4 key derivation\<close>

definition sigv4_signing_key :: "(bytes \<Rightarrow> bytes \<Rightarrow> bytes) \<Rightarrow> string \<Rightarrow> string list \<Rightarrow> bytes" where
  "sigv4_signing_key hmac secret scope =
     foldl (\<lambda>k part. hmac k (encode part)) (encode (''AWS4'' @ secret)) (scope @ [''aws4_request''])"

subsection \<open>Lemmas\<close>

lemma unat_hex_digits: "unat (b::byte) div 16 < 16" "unat (b::byte) mod 16 < 16"
  using unsigned_less [of b, where ?'a = nat] by (simp_all add: div_less_iff_less_mult)

lemma nibble_of_hex [simp]: "n < 16 \<Longrightarrow> nibble_of (HEX_LOWER ! n) = Some n"
  by (auto simp: nibble_of_def HEX_LOWER_def DIGITS_def less_Suc_eq numeral_eq_Suc)

lemma byte_of_nibbles: "(of_nat (16 * (unat b div 16) + unat b mod 16) :: byte) = b"
  by simp

theorem unhex_hex: "unhex (hex bs) = Some bs"
  by (induction bs) (simp_all add: hex_def hex_byte_def unat_hex_digits)

lemma length_hex: "length (hex bs) = 2 * length bs"
  by (induction bs) (simp_all add: hex_def hex_byte_def)

lemma set_hex: "set (hex bs) \<subseteq> set HEX_LOWER"
proof -
  have "length HEX_LOWER = 16" by (simp add: HEX_LOWER_def)
  then have "set (hex_byte b) \<subseteq> set HEX_LOWER" for b
    using unat_hex_digits [of b] by (simp add: hex_byte_def nth_mem)
  then show ?thesis by (auto simp: hex_def)
qed

lemma get_signature_key_v1_eq: "get_signature_key_v1 = get_signature_key"
  by (simp add: fun_eq_iff get_signature_key_v1_def get_signature_key_def Let_def)

lemma sha256_v1_eq: "sha256_v1 = sha256" and hmac_sha256_v1_eq: "hmac_sha256_v1 = hmac_sha256"
  by (simp_all add: fun_eq_iff sha256_v1_def sha256_def hmac_sha256_v1_def hmac_sha256_def)

lemma hex_inj: "hex xs = hex ys \<Longrightarrow> xs = ys"
  by (metis option.inject unhex_hex)

lemma encode_inj: "encode s = encode t \<Longrightarrow> s = t"
proof -
  have "inj (\<lambda>c::char. (of_nat (of_char c) :: byte))"
  proof (rule injI)
    fix x y :: char
    assume "(of_nat (of_char x) :: byte) = of_nat (of_char y)"
    then have "unat (of_nat (of_char x) :: byte) = unat (of_nat (of_char y) :: byte)" by simp
    then have "(of_char x :: nat) = of_char y"
      using nat_of_char_less_256 [of x] nat_of_char_less_256 [of y] by (simp add: unat_of_nat)
    then show "x = y" by simp
  qed
  then show "encode s = encode t \<Longrightarrow> s = t"
    by (simp add: encode_def inj_map_eq_map)
qed

text \<open>
  C12: get_signature_key computes the SigV4 signing key: HMAC folded over date, region,
  service and 'aws4_request', starting from 'AWS4' + secret.
\<close>

theorem get_signature_key_sigv4:
  "get_signature_key c secret ds region service = sigv4_signing_key (hmac_digest c) secret [ds, region, service]"
  by (simp add: get_signature_key_def sigv4_signing_key_def)

end
