(* ===== verification/Request.thy ===== *)
theory Request
  imports Signer Dates
begin

text \<open>
  The request builder: \<open>AWIS.create_request\<close> (\<open>src/awis/awis.py\<close> lines 177-197, the
  GET itself at lines 199-201 belongs to the dispatcher), \<open>AWIS.amz_date\<close> and the
  property \<open>AWIS.date_stamp\<close> (lines 203-206, 219-222), the constructor (lines 56-64)
  and the module constants; and the v1 versions (\<open>src/awis.py\<close> lines 35-57, 170-199,
  216-219), whose endpoint, region and base URL are module constants. v1's
  \<open>create_request\<close> writes the canonical request inline and calls v1's own
  \<open>amz_date\<close>, \<open>date_stamp\<close>, \<open>sha256\<close>, \<open>hmac_sha256\<close> and
  \<open>get_signature_key\<close>; it builds the same request as v2's in region us-west-1.

  \<open>datetime.utcnow()\<close> is read twice per request, once by \<open>amz_date()\<close> and once by
  \<open>date_stamp\<close>; the two readings are the inputs \<open>now1\<close> and \<open>now2\<close>. A reading is a
  date (an ordinal, as in \<open>Dates\<close>) and the seconds since midnight UTC. A request is its
  URL and its header list, in the order of the \<open>request_properties\<close> dictionary.
\<close>

definition ALGORITHM :: string where "ALGORITHM = ''AWS4-HMAC-SHA256''"
definition SERVICE_NAME :: string where "SERVICE_NAME = ''awis''"
definition SERVICE_HOST :: string where "SERVICE_HOST = ''awis.amazonaws.com''"
definition SERVICE_URI :: string where "SERVICE_URI = ''/api''"
definition NL :: string where "NL = [CHR 0x0A]"

record awis_client =
  access_id :: string
  secret_access_key :: string
  SERVICE_REGION :: string
  SERVICE_ENDPOINT :: string
  AWS_BASE_URL :: string

text \<open>\<open>AWIS.__init__(access_id, secret_key, service_region)\<close> of v2.\<close>

definition awis_init :: "string \<Rightarrow> string \<Rightarrow> string \<Rightarrow> awis_client" where
  "awis_init aid secret_key service_region =
     \<lparr>access_id = aid, secret_access_key = secret_key, SERVICE_REGION = service_region,
      SERVICE_ENDPOINT = ''awis.'' @ service_region @ ''.amazonaws.com'',
      AWS_BASE_URL = ''https://'' @ SERVICE_HOST @ SERVICE_URI\<rparr>"

record utc_now =
  now_date :: date
  now_secs :: int

definition valid_now :: "utc_now \<Rightarrow> bool" where
  "valid_now n \<longleftrightarrow> valid_date (now_date n) \<and> 0 \<le> now_secs n \<and> now_secs n < 86400"

text \<open>\<open>now.strftime('%Y%m%dT%H%M%SZ')\<close> and \<open>now.strftime('%Y%m%d')\<close>.\<close>

definition amz_date :: "utc_now \<Rightarrow> string" where
  "amz_date now =
     strftime_Ymd (now_date now) @ ''T'' @ pad2 (now_secs now div 3600) @
     pad2 (now_secs now mod 3600 div 60) @ pad2 (now_secs now mod 60) @ ''Z''"

definition date_stamp :: "utc_now \<Rightarrow> string" where
  "date_stamp now = strftime_Ymd (now_date now)"

record http_request =
  req_url :: string
  req_headers :: "(string \<times> string) list"

text \<open>The header dictionary of v2's \<open>create_request\<close>, and v1's \<open>AWIS.request\<close>.\<close>

definition request_properties :: "string \<Rightarrow> string \<Rightarrow> (string \<times> string) list" where
  "request_properties amz authorisation =
     [(''Accept'', ''application/xml''), (''Content-Type'', ''application/xml''),
      (''X-Amz-Date'', amz), (''Authorization'', authorisation)]"

definition canonical_request_of :: "crypto \<Rightarrow> string \<Rightarrow> string \<Rightarrow> string \<Rightarrow> string" where
  "canonical_request_of c endpoint amz canonical_query =
     (let canonical_headers = ''host:'' @ endpoint @ NL @ ''x-amz-date:'' @ amz @ NL;
          signed_headers = ''host;x-amz-date'';
          payload_hash = sha256 c ''''
      in ''GET'' @ NL @ SERVICE_URI @ NL @ canonical_query @ NL @ canonical_headers @ NL @
         signed_headers @ NL @ payload_hash)"

text \<open>\<open>AWIS.create_request(canonical_query)\<close> of v2, up to the GET.\<close>

definition create_request :: "crypto \<Rightarrow> awis_client \<Rightarrow> utc_now \<Rightarrow> utc_now \<Rightarrow> string \<Rightarrow> http_request" where
  "create_request c self now1 now2 canonical_query =
     (let amz = amz_date now1;
          ds = date_stamp now2;
          signed_headers = ''host;x-amz-date'';
          canonical_request = canonical_request_of c (SERVICE_ENDPOINT self) amz canonical_query;
          credential_scope = ds @ ''/'' @ SERVICE_REGION self @ ''/'' @ SERVICE_NAME @ ''/aws4_request'';
          string_to_sign = ALGORITHM @ NL @ amz @ NL @ credential_scope @ NL @ sha256 c canonical_request;
          signing_key = get_signature_key c (secret_access_key self) ds (SERVICE_REGION self) SERVICE_NAME;
          signature = hex (hmac_sha256 c (encode string_to_sign) signing_key);
          uri = AWS_BASE_URL self @ ''?'' @ canonical_query;
          authorisation = ALGORITHM @ '' Credential='' @ access_id self @ ''/'' @ credential_scope @
            '', SignedHeaders='' @ signed_headers @ '', Signature='' @ signature
      in \<lparr>req_url = uri, req_headers = request_properties amz authorisation\<rparr>)"

subsection \<open>Version 1\<close>

definition SERVICE_ENDPOINT_v1 :: string where "SERVICE_ENDPOINT_v1 = ''awis.us-west-1.amazonaws.com''"
definition SERVICE_REGION_v1 :: string where "SERVICE_REGION_v1 = ''us-west-1''"
definition AWS_BASE_URL_v1 :: string where "AWS_BASE_URL_v1 = ''https://'' @ SERVICE_HOST @ SERVICE_URI"

text \<open>v1's \<open>AWIS.amz_date()\<close>, on its clock reading.\<close>

definition amz_date_v1 :: "utc_now \<Rightarrow> string" where
  "amz_date_v1 now =
     strftime_Ymd (now_date now) @ ''T'' @ pad2 (now_secs now div 3600) @
     pad2 (now_secs now mod 3600 div 60) @ pad2 (now_secs now mod 60) @ ''Z''"

text \<open>v1's property \<open>AWIS.date_stamp\<close>.\<close>

definition date_stamp_v1 :: "utc_now \<Rightarrow> string" where
  "date_stamp_v1 now = strftime_Ymd (now_date now)"

text \<open>\<open>AWIS.request(request_url, authorisation, amz)\<close> of v1.\<close>

definition request_v1 :: "string \<Rightarrow> string \<Rightarrow> string \<Rightarrow> http_request" where
  "request_v1 request_url authorisation amz =
     \<lparr>req_url = request_url, req_headers = request_properties amz authorisation\<rparr>"

definition create_request_v1 :: "crypto \<Rightarrow> string \<Rightarrow> string \<Rightarrow> utc_now \<Rightarrow> utc_now \<Rightarrow> string \<Rightarrow> http_request" where
  "create_request_v1 c aid secret now1 now2 canonical_query =
     (let amz = amz_date_v1 now1;
          ds = date_stamp_v1 now2;
          canonical_headers = ''host:'' @ SERVICE_ENDPOINT_v1 @ NL @ ''x-amz-date:'' @ amz @ NL;
          signed_headers = ''host;x-amz-date'';
          payload_hash = sha256_v1 c '''';
          canonical_request = ''GET'' @ NL @ SERVICE_URI @ NL @ canonical_query @ NL @ canonical_headers @ NL @
            signed_headers @ NL @ payload_hash;
          credential_scope = ds @ ''/'' @ SERVICE_REGION_v1 @ ''/'' @ SERVICE_NAME @ ''/aws4_request'';
          string_to_sign = ALGORITHM @ NL @ amz @ NL @ credential_scope @ NL @ sha256_v1 c canonical_request;
          signing_key = get_signature_key_v1 c secret ds SERVICE_REGION_v1 SERVICE_NAME;
          signature = hex (hmac_sha256_v1 c (encode string_to_sign) signing_key);
          uri = AWS_BASE_URL_v1 @ ''?'' @ canonical_query;
          authorisation = ALGORITHM @ '' Credential='' @ aid @ ''/'' @ credential_scope @
            '', SignedHeaders='' @ signed_headers @ '', Signature='' @ signature
      in request_v1 uri authorisation amz)"

subsection \<open>Reading a request back\<close>

text \<open>The host a URL \<open>https://host/path?query\<close> is sent to, and a header's value.\<close>

definition url_host :: "string \<Rightarrow> string" where
  "url_host u = takeWhile (\<lambda>c. c \<noteq> CHR ''/'') (drop (length ''https://'') u)"

definition header :: "http_request \<Rightarrow> string \<Rightarrow> string option" where
  "header r k = map_of (req_headers r) k"

text \<open>
  The \<open>Credential=\<close> field of the Authorization header split at \<open>/\<close>, as a SigV4
  verifier reads it: access key id, date, region, service, terminator.
\<close>

definition auth_credential :: "http_request \<Rightarrow> string list option" where
  "auth_credential r =
     (case header r ''Authorization'' of
        None \<Rightarrow> None
      | Some a \<Rightarrow>
          (let p = ALGORITHM @ '' Credential=''
           in if take (length p) a = p
              then Some (split_on CHR ''/'' (takeWhile (\<lambda>c. c \<noteq> CHR '','') (drop (length p) a)))
              else None))"

text \<open>A crypto instance in which hashing and HMAC are injective, for the witnesses.\<close>

definition id_crypto :: crypto where "id_crypto = \<lparr>hmac_digest = \<lambda>k d. k @ d, sha256_digest = id\<rparr>"

subsection \<open>Lemmas\<close>

lemma create_request_authorization:
  "header (create_request c self n1 n2 q) ''Authorization'' =
     Some (ALGORITHM @ '' Credential='' @ access_id self @ ''/'' @
           date_stamp n2 @ ''/'' @ SERVICE_REGION self @ ''/'' @ SERVICE_NAME @ ''/aws4_request'' @
           '', SignedHeaders=host;x-amz-date, Signature='' @
           hex (hmac_sha256 c
             (encode (ALGORITHM @ NL @ amz_date n1 @ NL @
                date_stamp n2 @ ''/'' @ SERVICE_REGION self @ ''/'' @ SERVICE_NAME @ ''/aws4_request'' @ NL @
                sha256 c (canonical_request_of c (SERVICE_ENDPOINT self) (amz_date n1) q)))
             (get_signature_key c (secret_access_key self) (date_stamp n2) (SERVICE_REGION self) SERVICE_NAME)))"
  by (simp add: create_request_def header_def request_properties_def Let_def)

lemma sha256_inj: "inj (sha256_digest c) \<Longrightarrow> sha256 c s = sha256 c t \<Longrightarrow> s = t"
  by (auto simp: sha256_def dest: hex_inj encode_inj injD)

text \<open>
  C6: If SHA-256 and HMAC are injective, two requests signed at the same instants with
  the same credentials carry the same Authorization header only if their canonical
  queries are equal: the signature binds the query.
\<close>

theorem signature_binds_query:
  assumes "inj (sha256_digest c)" "\<forall>k. inj (hmac_digest c k)"
    and "header (create_request c self n1 n2 q) ''Authorization'' =
         header (create_request c self n1 n2 q') ''Authorization''"
  shows "q = q'"
proof -
  have "hmac_digest c k (encode s) = hmac_digest c k (encode s') \<Longrightarrow> s = s'" for k s s'
    using assms(2) by (auto dest: injD encode_inj)
  then have "sha256 c (canonical_request_of c (SERVICE_ENDPOINT self) (amz_date n1) q) =
             sha256 c (canonical_request_of c (SERVICE_ENDPOINT self) (amz_date n1) q')"
    using assms(3) by (auto simp: create_request_authorization hmac_sha256_def dest!: hex_inj)
  then show ?thesis
    by (auto simp: canonical_request_of_def Let_def dest!: sha256_inj [OF assms(1)])
qed


lemma signature_binds_query_witness:
  "inj (sha256_digest id_crypto) \<and> (\<forall>k. inj (hmac_digest id_crypto k)) \<and>
   header (create_request id_crypto (awis_init ''AKID'' ''secret'' ''us-west-1'') \<lparr>now_date = 737425, now_secs = 0\<rparr> \<lparr>now_date = 737425, now_secs = 0\<rparr> ''Action=urlInfo'') ''Authorization'' =
   header (create_request id_crypto (awis_init ''AKID'' ''secret'' ''us-west-1'') \<lparr>now_date = 737425, now_secs = 0\<rparr> \<lparr>now_date = 737425, now_secs = 0\<rparr> ''Action=urlInfo'') ''Authorization'' \<and>
   ''Action=urlInfo'' = ''Action=urlInfo''"
  using signature_binds_query [of id_crypto] by (simp add: id_crypto_def inj_def)

lemma create_request_fields:
  "req_url (create_request c self n1 n2 q) = AWS_BASE_URL self @ ''?'' @ q"
  "header (create_request c self n1 n2 q) ''Accept'' = Some ''application/xml''"
  "header (create_request c self n1 n2 q) ''Content-Type'' = Some ''application/xml''"
  "header (create_request c self n1 n2 q) ''X-Amz-Date'' = Some (amz_date n1)"
  by (simp_all add: create_request_def header_def request_properties_def Let_def)

lemma amz_date_v1_eq: "amz_date_v1 = amz_date" and date_stamp_v1_eq: "date_stamp_v1 = date_stamp"
  by (simp_all add: fun_eq_iff amz_date_v1_def amz_date_def date_stamp_v1_def date_stamp_def)

lemma create_request_v1_as_v2:
  "create_request_v1 c aid secret n1 n2 q = create_request c (awis_init aid secret ''us-west-1'') n1 n2 q"
  unfolding create_request_v1_def create_request_def canonical_request_of_def amz_date_v1_eq date_stamp_v1_eq
    get_signature_key_v1_eq sha256_v1_eq hmac_sha256_v1_eq
  by (simp add: awis_init_def request_v1_def SERVICE_ENDPOINT_v1_def SERVICE_REGION_v1_def
                AWS_BASE_URL_v1_def Let_def)

text \<open>
  C26: The v1 create_request (module constants for endpoint, region and base URL, then
  AWIS.request) builds the same request as the v2 create_request of a client
  constructed with region us-west-1.
\<close>

theorem create_request_v1_eq_v2:
  "create_request_v1 c aid secret n1 n2 q = create_request c (awis_init aid secret ''us-west-1'') n1 n2 q"
  unfolding create_request_v1_def create_request_def canonical_request_of_def amz_date_v1_eq date_stamp_v1_eq
    get_signature_key_v1_eq sha256_v1_eq hmac_sha256_v1_eq
  by (simp add: awis_init_def request_v1_def SERVICE_ENDPOINT_v1_def SERVICE_REGION_v1_def
                AWS_BASE_URL_v1_def Let_def)

text \<open>
  C27: The request is sent to host awis.amazonaws.com while the signed host header
  names awis.<region>.amazonaws.com, for every region.
\<close>

theorem create_request_host_mismatch:
  "url_host (req_url (create_request c (awis_init aid secret region) n1 n2 q)) = SERVICE_HOST \<and>
   SERVICE_HOST \<noteq> SERVICE_ENDPOINT (awis_init aid secret region)"
proof -
  have "length SERVICE_HOST \<noteq> length (SERVICE_ENDPOINT (awis_init aid secret region))"
    by (simp add: SERVICE_HOST_def awis_init_def)
  then show ?thesis
    by (auto simp: create_request_fields awis_init_def url_host_def SERVICE_HOST_def SERVICE_URI_def)
qed

lemma strftime_no_slash_comma: "CHR ''/'' \<notin> set (strftime_Ymd d)" "CHR '','' \<notin> set (strftime_Ymd d)"
  using set_strftime_Ymd [of d] by (auto simp: DIGITS_def)

text \<open>
  C28: When the access id and region contain no '/' or ',', the Credential field of the
  Authorization header splits back into access id, date stamp, region, 'awis' and
  'aws4_request'.
\<close>

theorem authorization_credential:
  assumes "CHR ''/'' \<notin> set (access_id self)" "CHR '','' \<notin> set (access_id self)"
    and "CHR ''/'' \<notin> set (SERVICE_REGION self)" "CHR '','' \<notin> set (SERVICE_REGION self)"
  shows "auth_credential (create_request c self n1 n2 q) =
           Some [access_id self, date_stamp n2, SERVICE_REGION self, SERVICE_NAME, ''aws4_request'']"
proof -
  let ?xs = "[access_id self, date_stamp n2, SERVICE_REGION self, SERVICE_NAME, ''aws4_request'']"
  have j: "access_id self @ ''/'' @ date_stamp n2 @ ''/'' @ SERVICE_REGION self @ ''/'' @ SERVICE_NAME @
      ''/aws4_request'' @ rest = join ''/'' ?xs @ rest" for rest by simp
  have nc: "\<forall>x \<in> set (join ''/'' ?xs). x \<noteq> CHR '',''"
    using assms strftime_no_slash_comma [of "now_date n2"]
    by (auto simp: date_stamp_def SERVICE_NAME_def)
  have "takeWhile (\<lambda>c. c \<noteq> CHR '','') (join ''/'' ?xs @ '', SignedHeaders='' @ rest) = join ''/'' ?xs" for rest
    using nc by (simp add: takeWhile_append2)
  moreover have "split_on CHR ''/'' (join ''/'' ?xs) = ?xs"
    using assms strftime_no_slash_comma [of "now_date n2"]
    by (intro split_on_join) (auto simp: date_stamp_def SERVICE_NAME_def)
  ultimately show ?thesis
    unfolding auth_credential_def create_request_authorization
    by (simp only: Let_def j option.case) (simp add: ALGORITHM_def)
qed
text \<open>
  C15: Two requests built from the same query and client at different instants have the
  same URL and the same headers except X-Amz-Date and Authorization.
\<close>

theorem create_request_timestamp_only:
  assumes "k \<notin> {''X-Amz-Date'', ''Authorization''}"
  shows "req_url (create_request c self n1 n2 q) = req_url (create_request c self n1' n2' q) \<and>
         header (create_request c self n1 n2 q) k = header (create_request c self n1' n2' q) k"
  using assms by (simp add: create_request_def header_def request_properties_def Let_def)

text \<open>
  C14: The Authorization header create_request builds is the one SigV4 specifies: the
  credential scope date/region/awis/aws4_request and the signature hex(HMAC(signing
  key, string to sign)), where the string to sign joins the algorithm, X-Amz-Date, the
  scope and the SHA-256 hex digest of the canonical request, with the HMAC key and
  message in SigV4's order.
\<close>

theorem create_request_signature_sigv4:
  "header (create_request c self n1 n2 q) ''Authorization'' =
     Some (ALGORITHM @ '' Credential='' @ access_id self @ ''/'' @
           join ''/'' [date_stamp n2, SERVICE_REGION self, SERVICE_NAME, ''aws4_request''] @
           '', SignedHeaders=host;x-amz-date, Signature='' @
           hex (hmac_digest c
                  (sigv4_signing_key (hmac_digest c) (secret_access_key self) [date_stamp n2, SERVICE_REGION self, SERVICE_NAME])
                  (encode (join NL [ALGORITHM, amz_date n1,
                     join ''/'' [date_stamp n2, SERVICE_REGION self, SERVICE_NAME, ''aws4_request''],
                     hex (sha256_digest c (encode (join NL [''GET'', SERVICE_URI, q,
                        ''host:'' @ SERVICE_ENDPOINT self @ NL @ ''x-amz-date:'' @ amz_date n1 @ NL,
                        ''host;x-amz-date'', hex (sha256_digest c (encode ''''))])))]))))"
  by (simp add: create_request_def header_def request_properties_def Let_def canonical_request_of_def
      get_signature_key_def sigv4_signing_key_def hmac_sha256_def sha256_def)

subsection \<open>Witnesses\<close>

lemma authorization_credential_witness:
  "CHR ''/'' \<notin> set ''AKID'' \<and> CHR '','' \<notin> set ''AKID'' \<and>
   CHR ''/'' \<notin> set ''us-west-1'' \<and> CHR '','' \<notin> set ''us-west-1'' \<and>
   auth_credential (create_request id_crypto (awis_init ''AKID'' ''secret'' ''us-west-1'')
     \<lparr>now_date = 737425, now_secs = 0\<rparr> \<lparr>now_date = 737425, now_secs = 0\<rparr> ''Action=urlInfo'') =
   Some [''AKID'', date_stamp \<lparr>now_date = 737425, now_secs = 0\<rparr>, ''us-west-1'', SERVICE_NAME, ''aws4_request'']"
  using authorization_credential [of "awis_init ''AKID'' ''secret'' ''us-west-1''" id_crypto
      "\<lparr>now_date = 737425, now_secs = 0\<rparr>" "\<lparr>now_date = 737425, now_secs = 0\<rparr>" "''Action=urlInfo''"]
  by (simp add: awis_init_def)

lemma create_request_timestamp_only_witness:
  "''Accept'' \<notin> {''X-Amz-Date'', ''Authorization''} \<and>
   req_url (create_request id_crypto (awis_init ''AKID'' ''secret'' ''us-west-1'') \<lparr>now_date = 737425, now_secs = 0\<rparr> \<lparr>now_date = 737425, now_secs = 0\<rparr> ''Action=urlInfo'') =
   req_url (create_request id_crypto (awis_init ''AKID'' ''secret'' ''us-west-1'') \<lparr>now_date = 737426, now_secs = 5\<rparr> \<lparr>now_date = 737426, now_secs = 5\<rparr> ''Action=urlInfo'') \<and>
   header (create_request id_crypto (awis_init ''AKID'' ''secret'' ''us-west-1'') \<lparr>now_date = 737425, now_secs = 0\<rparr> \<lparr>now_date = 737425, now_secs = 0\<rparr> ''Action=urlInfo'') ''Accept'' =
   header (create_request id_crypto (awis_init ''AKID'' ''secret'' ''us-west-1'') \<lparr>now_date = 737426, now_secs = 5\<rparr> \<lparr>now_date = 737426, now_secs = 5\<rparr> ''Action=urlInfo'') ''Accept''"
  using create_request_timestamp_only [of "''Accept''" id_crypto "awis_init ''AKID'' ''secret'' ''us-west-1''"
      "\<lparr>now_date = 737425, now_secs = 0\<rparr>" "\<lparr>now_date = 737425, now_secs = 0\<rparr>" "''Action=urlInfo''"
      "\<lparr>now_date = 737426, now_secs = 5\<rparr>" "\<lparr>now_date = 737426, now_secs = 5\<rparr>"]
  by simp

end
