(* ===== verification/Dispatcher.thy ===== *)
theory Dispatcher
  imports Request
begin

text \<open>
  The dispatcher. In v2, \<open>AWIS.bulk_request\<close> (\<open>src/awis/awis.py\<close> lines 148-153)
  submits one task per query to a \<open>ThreadPool(8)\<close> with \<open>apply_async\<close> and collects
  \<open>[p.get() for p in async_requests]\<close>. Task \<open>i\<close> is \<open>self.create_request(queries[i],
  session)\<close>, which builds and sends the request. Its behaviour is \<open>job i\<close>: \<open>Some\<close> of its
  outcome (a response, or the exception the worker raised), or \<open>None\<close> when the call never
  returns, as \<open>requests.get\<close> without a timeout may. The pool is a state machine: the
  queue of submitted tasks, the tasks running on the 8 workers, and the result slot of
  every \<open>AsyncResult\<close>. Workers take tasks in submission order and finish them in any
  order, so the steps are an inductive relation; a task that never returns keeps its
  worker. \<open>p.get()\<close> waits for its slot and re-raises the task's exception.

  In v1, \<open>grequests.map(reqs, exception_handler=exception_handler)\<close> (\<open>src/awis.py\<close>
  lines 95, 136) sends every request and, for each failed one in list order, calls
  \<open>exception_handler(request, exception)\<close>; the module's \<open>exception_handler\<close> (lines
  221-222) takes no parameters.
\<close>

definition POOL_SIZE :: nat where "POOL_SIZE = 8"

record 'r pool =
  queue :: "nat list"
  running :: "nat list"
  slots :: "'r result option list"

text \<open>The pool right after the \<open>apply_async\<close> comprehension: every task queued.\<close>

definition apply_async_all :: "nat \<Rightarrow> 'r pool" where
  "apply_async_all n = \<lparr>queue = [0..<n], running = [], slots = replicate n None\<rparr>"

text \<open>
  A free worker takes the oldest queued task; a running task that returns frees its
  worker and fills its slot. A task with \<open>job i = None\<close> never finishes.
\<close>

inductive pool_step :: "(nat \<Rightarrow> 'r result option) \<Rightarrow> 'r pool \<Rightarrow> 'r pool \<Rightarrow> bool" for job where
  start: "queue s = i # rest \<Longrightarrow> length (running s) < POOL_SIZE \<Longrightarrow>
            pool_step job s (s\<lparr>queue := rest, running := running s @ [i]\<rparr>)"
| finish: "i \<in> set (running s) \<Longrightarrow> job i = Some r \<Longrightarrow>
            pool_step job s (s\<lparr>running := remove1 i (running s), slots := (slots s)[i := Some r]\<rparr>)"

text \<open>
  \<open>[p.get() for p in async_requests]\<close>: \<open>None\<close> when the next \<open>get\<close> still waits, the
  first exception in index order otherwise.
\<close>

fun collect :: "'r result option list \<Rightarrow> 'r list result option" where
  "collect [] = Some (Inr [])"
| "collect (None # _) = None"
| "collect (Some (Inl e) # _) = Some (Inl e)"
| "collect (Some (Inr v) # ps) = map_option (\<lambda>r. bindE r (\<lambda>vs. Inr (v # vs))) (collect ps)"

definition pool_done :: "'r pool \<Rightarrow> bool" where
  "pool_done s \<longleftrightarrow> queue s = [] \<and> running s = []"

text \<open>
  One schedule of the pool when every task returns (\<open>job\<close> total), as an executable
  function: start tasks while a worker is free, otherwise finish the oldest running task.
\<close>

function drive :: "(nat \<Rightarrow> 'r result) \<Rightarrow> 'r pool \<Rightarrow> 'r pool" where
  "drive job s =
     (case (queue s, running s) of
        (i # rest, rs) \<Rightarrow>
          if length rs < POOL_SIZE then drive job (s\<lparr>queue := rest, running := rs @ [i]\<rparr>)
          else drive job (s\<lparr>running := tl rs, slots := (slots s)[hd rs := Some (job (hd rs))]\<rparr>)
      | ([], i # rs) \<Rightarrow> drive job (s\<lparr>running := rs, slots := (slots s)[i := Some (job i)]\<rparr>)
      | ([], []) \<Rightarrow> s)"
  by pat_completeness auto
termination
  by (relation "measure (\<lambda>(_, s). 2 * length (queue s) + length (running s))")
     (auto simp: POOL_SIZE_def dest!: sym [of _ "queue _"] sym [of _ "running _"])

declare drive.simps [simp del]

text \<open>\<open>AWIS.bulk_request\<close> when every task returns: submit every task, run the pool, collect.\<close>

definition bulk_request :: "(nat \<Rightarrow> 'r result) \<Rightarrow> nat \<Rightarrow> 'r list result option" where
  "bulk_request job n = collect (slots (drive job (apply_async_all n)))"

text \<open>
  The task whose outcome decides \<open>[p.get() ...]\<close> never returns: every task before it
  succeeds.
\<close>

definition first_blocks :: "(nat \<Rightarrow> 'r result option) \<Rightarrow> nat \<Rightarrow> bool" where
  "first_blocks job n \<longleftrightarrow> (\<exists>i<n. job i = None \<and> (\<forall>j<i. \<exists>v. job j = Some (Inr v)))"

subsection \<open>Version 1: \<open>grequests.map\<close>\<close>

text \<open>
  \<open>exception_handler()\<close> of v1 called with \<open>nargs\<close> positional arguments: with none it
  warns and returns \<open>None\<close>; with any it raises the interpreter's \<open>TypeError\<close>.
\<close>

definition exception_handler :: "nat \<Rightarrow> unit result" where
  "exception_handler nargs =
     (if nargs = 0 then Inr ()
      else Inl (TypeError (''exception_handler() takes 0 positional arguments but '' @
                           show_nat nargs @ '' were given'')))"

text \<open>
  \<open>grequests.map(reqs, exception_handler=h)\<close>: every request is sent; then, in list order,
  a response is kept and a failed request is replaced by \<open>h(request, exception)\<close>.
\<close>

definition grequests_map :: "('q \<Rightarrow> 'r result) \<Rightarrow> 'q list \<Rightarrow> 'r option list result" where
  "grequests_map send reqs =
     sequence_r (map (\<lambda>r. case send r of
                            Inr resp \<Rightarrow> Inr (Some resp)
                          | Inl _ \<Rightarrow> bindE (exception_handler 2) (\<lambda>_. Inr None)) reqs)"

text \<open>
  Task outcomes for the examples. In \<open>job_example\<close> every request returns and the
  first fails in transport; in \<open>hang_example\<close> the first fails and the second never
  returns.
\<close>

definition job_example :: "nat \<Rightarrow> nat result" where
  "job_example i = (if i = 0 then Inl (TransportError 0) else Inr i)"

definition hang_example :: "nat \<Rightarrow> nat result option" where
  "hang_example i = (if i = 0 then Some (Inl (TransportError 0)) else None)"

subsection \<open>The pool invariant\<close>

text \<open>
  Every task is in exactly one place: queued, running, or with its slot filled by its own
  outcome; the queue is the tasks not yet started, in submission order, and every running
  task was submitted before them; at most \<open>POOL_SIZE\<close> tasks run.
\<close>

definition pool_inv :: "(nat \<Rightarrow> 'r result option) \<Rightarrow> nat \<Rightarrow> 'r pool \<Rightarrow> bool" where
  "pool_inv job n s \<longleftrightarrow>
     length (slots s) = n \<and> distinct (queue s @ running s) \<and> length (running s) \<le> POOL_SIZE \<and>
     (\<exists>q\<le>n. queue s = [q..<n] \<and> set (running s) \<subseteq> {..<q}) \<and>
     (\<forall>i<n. (i \<in> set (queue s @ running s) \<longleftrightarrow> slots s ! i = None) \<and> slots s ! i \<in> {None, job i})"

lemma pool_inv_init: "pool_inv job n (apply_async_all n)"
  by (auto simp: pool_inv_def apply_async_all_def)

lemma pool_step_inv:
  assumes "pool_step job s t" "pool_inv job n s"
  shows "pool_inv job n t"
  using assms
proof (induction rule: pool_step.induct)
  case (start s i rest)
  then obtain q where q: "q \<le> n" "queue s = [q..<n]" "set (running s) \<subseteq> {..<q}"
    by (auto simp: pool_inv_def)
  with start.hyps(1) have "i = q" "q < n" "rest = [Suc q..<n]"
    by (auto simp: upt_eq_Cons_conv)
  with start q show ?case
    by (auto simp: pool_inv_def intro!: exI [of _ "Suc q"])
next
  case (finish i s r)
  then have "i < n" "distinct (running s)" "i \<notin> set (queue s)"
    by (auto simp: pool_inv_def)
  with finish show ?case
    by (auto simp: pool_inv_def nth_list_update length_remove1 dest: subsetD [OF set_remove1_subset])
qed

lemma pool_steps_inv:
  "(pool_step job)\<^sup>*\<^sup>* s t \<Longrightarrow> pool_inv job n s \<Longrightarrow> pool_inv job n t"
  by (induction rule: rtranclp_induct) (auto intro: pool_step_inv)

lemma pool_reachable_inv:
  "(pool_step job)\<^sup>*\<^sup>* (apply_async_all n) s \<Longrightarrow> pool_inv job n s"
  using pool_steps_inv pool_inv_init by blast

subsection \<open>Collecting the results\<close>

lemma collect_None_iff:
  "collect ps = None \<longleftrightarrow> (\<exists>j<length ps. ps ! j = None \<and> (\<forall>j'<j. \<forall>e. ps ! j' \<noteq> Some (Inl e)))"
proof (induction ps rule: collect.induct)
  case (3 e ps)
  show ?case by (auto simp: nth_Cons' intro!: exI [of _ 0])
next
  case (4 v ps)
  have "collect (Some (Inr v) # ps) = None \<longleftrightarrow> collect ps = None" by simp
  also have "\<dots> \<longleftrightarrow> (\<exists>j<length (Some (Inr v) # ps). (Some (Inr v) # ps) ! j = None \<and>
                     (\<forall>j'<j. \<forall>e. (Some (Inr v) # ps) ! j' \<noteq> Some (Inl e)))"
    unfolding "4.IH" by (simp add: Ex_less_Suc2 All_less_Suc2)
  finally show ?case .
qed auto

lemma collect_slots:
  assumes "\<forall>i<length ps. ps ! i \<in> {None, job (k + i)}" "collect ps = Some r"
  shows "r = sequence_r (map (\<lambda>i. the (job i)) [k..<k + length ps])"
  using assms
proof (induction ps arbitrary: k r)
  case (Cons p ps)
  have p: "p \<in> {None, job k}"
    using Cons.prems(1) by force
  have rest: "\<forall>i<length ps. ps ! i \<in> {None, job (Suc k + i)}"
    using Cons.prems(1) by force
  have up: "[k..<k + length (p # ps)] = k # [Suc k..<Suc k + length ps]"
    by (simp add: upt_rec)
  obtain o' where o': "p = Some o'" "job k = Some o'"
    using p Cons.prems(2) by (cases p) auto
  show ?case
  proof (cases o')
    case (Inl e)
    then show ?thesis using o' Cons.prems(2) up by auto
  next
    case (Inr v)
    then obtain r' where "collect ps = Some r'" "r = bindE r' (\<lambda>vs. Inr (v # vs))"
      using o' Cons.prems(2) by auto
    then show ?thesis
      using Cons.IH [OF rest] Inr o' up by simp
  qed
qed simp

lemma collect_done:
  "collect (map (\<lambda>i. Some (job i)) xs) = Some (sequence_r (map job xs))"
proof (induction xs)
  case (Cons a xs)
  then show ?case by (cases "job a") simp_all
qed simp

lemma pool_done_slots:
  "pool_inv job n s \<Longrightarrow> pool_done s \<Longrightarrow> slots s = map job [0..<n]"
  by (fastforce simp: pool_inv_def pool_done_def intro!: nth_equalityI)

subsection \<open>The schedule of \<open>drive\<close>\<close>

lemma drive_start:
  "queue s = i # rest \<Longrightarrow> length (running s) < POOL_SIZE \<Longrightarrow>
   drive job s = drive job (s\<lparr>queue := rest, running := running s @ [i]\<rparr>)"
  by (subst drive.simps) simp

lemma drive_finish_full:
  "queue s = i # rest \<Longrightarrow> \<not> length (running s) < POOL_SIZE \<Longrightarrow> running s = j # rs \<Longrightarrow>
   drive job s = drive job (s\<lparr>running := rs, slots := (slots s)[j := Some (job j)]\<rparr>)"
  by (subst drive.simps) simp

lemma drive_finish_last:
  "queue s = [] \<Longrightarrow> running s = j # rs \<Longrightarrow>
   drive job s = drive job (s\<lparr>running := rs, slots := (slots s)[j := Some (job j)]\<rparr>)"
  by (subst drive.simps) simp

lemma drive_done: "queue s = [] \<Longrightarrow> running s = [] \<Longrightarrow> drive job s = s"
  by (subst drive.simps) simp

lemma pool_step_finish_head:
  "running s = j # rs \<Longrightarrow>
   pool_step (\<lambda>i. Some (job i)) s (s\<lparr>running := rs, slots := (slots s)[j := Some (job j)]\<rparr>)"
  using pool_step.finish [of j s "\<lambda>i. Some (job i)" "job j"] by simp

lemma drive_steps:
  "(pool_step (\<lambda>i. Some (job i)))\<^sup>*\<^sup>* s (drive job s) \<and> pool_done (drive job s)"
proof (induction job s rule: drive.induct)
  case (1 job s)
  let ?step = "pool_step (\<lambda>i. Some (job i))"
  show ?case
  proof (cases "queue s")
    case (Cons i rest)
    show ?thesis
    proof (cases "length (running s) < POOL_SIZE")
      case True
      let ?t = "s\<lparr>queue := rest, running := running s @ [i]\<rparr>"
      have step: "?step s ?t"
        using Cons True by (rule pool_step.start)
      have ih: "?step\<^sup>*\<^sup>* ?t (drive job ?t) \<and> pool_done (drive job ?t)"
        by (rule "1.IH"(2) [OF refl Cons True])
      then show ?thesis
        unfolding drive_start [OF Cons True]
        using converse_rtranclp_into_rtranclp [of ?step, OF step] by blast
    next
      case False
      then obtain j rs where rs: "running s = j # rs"
        by (cases "running s") (auto simp: POOL_SIZE_def)
      let ?t = "s\<lparr>running := rs, slots := (slots s)[j := Some (job j)]\<rparr>"
      have step: "?step s ?t"
        using rs by (rule pool_step_finish_head)
      have ih: "?step\<^sup>*\<^sup>* ?t (drive job ?t) \<and> pool_done (drive job ?t)"
        using "1.IH"(3) [OF refl Cons False] rs by simp
      then show ?thesis
        unfolding drive_finish_full [OF Cons False rs]
        using converse_rtranclp_into_rtranclp [of ?step, OF step] by blast
    qed
  next
    case Nil
    show ?thesis
    proof (cases "running s")
      case (Cons j rs)
      let ?t = "s\<lparr>running := rs, slots := (slots s)[j := Some (job j)]\<rparr>"
      have step: "?step s ?t"
        using Cons by (rule pool_step_finish_head)
      have ih: "?step\<^sup>*\<^sup>* ?t (drive job ?t) \<and> pool_done (drive job ?t)"
        by (rule "1.IH"(1) [OF refl Nil Cons])
      then show ?thesis
        unfolding drive_finish_last [OF Nil Cons]
        using converse_rtranclp_into_rtranclp [of ?step, OF step] by blast
    next
      case Nil': Nil
      then show ?thesis using Nil by (simp add: drive_done pool_done_def)
    qed
  qed
qed

lemma bulk_request_eq: "bulk_request job n = Some (sequence_r (map job [0..<n]))"
proof -
  have "(pool_step (\<lambda>i. Some (job i)))\<^sup>*\<^sup>* (apply_async_all n) (drive job (apply_async_all n))"
    using drive_steps by blast
  then have "pool_inv (\<lambda>i. Some (job i)) n (drive job (apply_async_all n))"
    by (rule pool_reachable_inv)
  then show ?thesis
    using drive_steps [of job "apply_async_all n"]
    by (simp add: bulk_request_def pool_done_slots collect_done)
qed

subsection \<open>Progress of the pool\<close>

text \<open>Finishing running tasks that return, one after another.\<close>

lemma finish_returning:
  assumes "pool_inv job n s" "set xs \<subseteq> set (running s)" "distinct xs" "\<forall>i\<in>set xs. job i \<noteq> None"
  shows "\<exists>t. (pool_step job)\<^sup>*\<^sup>* s t \<and> queue t = queue s \<and> set (running t) = set (running s) - set xs"
  using assms
proof (induction xs arbitrary: s)
  case (Cons x xs)
  obtain r where r: "job x = Some r" using Cons.prems(4) by auto
  let ?s' = "s\<lparr>running := remove1 x (running s), slots := (slots s)[x := Some r]\<rparr>"
  have step: "pool_step job s ?s'"
    using Cons.prems(2) r by (auto intro: pool_step.finish)
  have inv': "pool_inv job n ?s'" by (rule pool_step_inv [OF step Cons.prems(1)])
  have dr: "distinct (running s)" using Cons.prems(1) by (simp add: pool_inv_def)
  have run': "set (running ?s') = set (running s) - {x}" using dr by simp
  obtain t where t: "(pool_step job)\<^sup>*\<^sup>* ?s' t" "queue t = queue ?s'"
    "set (running t) = set (running ?s') - set xs"
    using Cons.IH [OF inv'] Cons.prems(2-4) run' by auto
  show ?case
    using converse_rtranclp_into_rtranclp [of "pool_step job", OF step t(1)] t(2,3) run' by auto
qed auto

text \<open>
  Progress: when the first \<open>m\<close> tasks all return, some run starts and finishes every one
  of them, whatever the other tasks do; the FIFO queue never lets a task that does not
  return hold a worker a task before it needs.
\<close>

lemma pool_progress:
  assumes "pool_inv job n s" "\<forall>i<m. job i \<noteq> None"
  shows "\<exists>t. (pool_step job)\<^sup>*\<^sup>* s t \<and> (\<forall>i<m. i \<notin> set (queue t @ running t))"
  using assms(1)
proof (induction "length (queue s)" arbitrary: s rule: less_induct)
  case less
  have dr: "distinct (running s)" using less.prems by (simp add: pool_inv_def)
  let ?xs = "filter (\<lambda>i. job i \<noteq> None) (running s)"
  have "set ?xs \<subseteq> set (running s)" "distinct ?xs" "\<forall>i\<in>set ?xs. job i \<noteq> None"
    using dr by simp_all
  then obtain s1 where s1: "(pool_step job)\<^sup>*\<^sup>* s s1" "queue s1 = queue s"
    "set (running s1) = set (running s) - set ?xs"
    using finish_returning [OF less.prems] by blast
  have inv1: "pool_inv job n s1" by (rule pool_steps_inv [OF s1(1) less.prems])
  have hang1: "\<forall>i\<in>set (running s1). job i = None" using s1(3) by auto
  obtain q where q: "q \<le> n" "queue s1 = [q..<n]" "set (running s1) \<subseteq> {..<q}"
    using inv1 by (auto simp: pool_inv_def)
  show ?case
  proof (cases "q < n \<and> q < m")
    case False
    have "\<forall>i<m. i \<notin> set (queue s1 @ running s1)"
    proof (intro allI impI)
      fix i assume i: "i < m"
      have "i \<notin> set (queue s1)" using False q(2) i by auto
      moreover have "i \<notin> set (running s1)" using hang1 assms(2) i by auto
      ultimately show "i \<notin> set (queue s1 @ running s1)" by simp
    qed
    with s1(1) show ?thesis by blast
  next
    case True
    have "running s1 = []"
    proof (rule ccontr)
      assume "running s1 \<noteq> []"
      then obtain r where r: "r \<in> set (running s1)" by (cases "running s1") auto
      then have "r < q" using q(3) by auto
      then have "job r \<noteq> None" using True assms(2) by auto
      with hang1 r show False by auto
    qed
    moreover have qs: "queue s1 = q # [Suc q..<n]" using q(2) True by (simp add: upt_conv_Cons)
    ultimately have step: "pool_step job s1 (s1\<lparr>queue := [Suc q..<n], running := running s1 @ [q]\<rparr>)"
      by (intro pool_step.start) (simp_all add: POOL_SIZE_def)
    let ?s2 = "s1\<lparr>queue := [Suc q..<n], running := running s1 @ [q]\<rparr>"
    have "length (queue ?s2) < length (queue s)" unfolding s1(2) [symmetric] qs by simp
    moreover have "pool_inv job n ?s2" by (rule pool_step_inv [OF step inv1])
    ultimately obtain t where "(pool_step job)\<^sup>*\<^sup>* ?s2 t" "\<forall>i<m. i \<notin> set (queue t @ running t)"
      using less.hyps by blast
    moreover have "(pool_step job)\<^sup>*\<^sup>* s ?s2"
      using s1(1) step by (rule rtranclp.rtrancl_into_rtrancl)
    ultimately show ?thesis by (meson rtranclp_trans)
  qed
qed

lemma pool_inv_slot:
  assumes "pool_inv job n t" "i < n"
  shows "slots t ! i = None \<longleftrightarrow> i \<in> set (queue t @ running t)"
    and "slots t ! i \<noteq> None \<Longrightarrow> slots t ! i = job i"
    and "job i = None \<Longrightarrow> slots t ! i = None"
proof -
  have "(i \<in> set (queue t @ running t) \<longleftrightarrow> slots t ! i = None) \<and> slots t ! i \<in> {None, job i}"
    using assms unfolding pool_inv_def by blast
  then show "slots t ! i = None \<longleftrightarrow> i \<in> set (queue t @ running t)"
    and "slots t ! i \<noteq> None \<Longrightarrow> slots t ! i = job i"
    and "job i = None \<Longrightarrow> slots t ! i = None"
    by auto
qed

lemma blocked_forever:
  assumes "pool_inv job n t" "first_blocks job n"
  shows "collect (slots t) = None"
proof -
  obtain i where i: "i < n" "job i = None" "\<forall>j<i. \<exists>v. job j = Some (Inr v)"
    using assms(2) unfolding first_blocks_def by blast
  have len: "length (slots t) = n" using assms(1) by (simp add: pool_inv_def)
  have "\<forall>j<i. \<forall>e. slots t ! j \<noteq> Some (Inl e)"
  proof (intro allI impI)
    fix j e assume ji: "j < i"
    then obtain v where v: "job j = Some (Inr v)" using i(3) by blast
    have jn: "j < n" using ji i(1) by simp
    show "slots t ! j \<noteq> Some (Inl e)"
    proof
      assume "slots t ! j = Some (Inl e)"
      with pool_inv_slot(2) [OF assms(1) jn] v show False by simp
    qed
  qed
  moreover have "slots t ! i = None" by (rule pool_inv_slot(3) [OF assms(1) i(1,2)])
  ultimately show ?thesis unfolding collect_None_iff using i(1) len by blast
qed

subsection \<open>Scheduling, order and blocking\<close>

text \<open>
  C11: In every reachable state of the thread pool at most 8 tasks are running and no
  task is both queued and running or started twice.
\<close>

theorem pool_in_flight_bound:
  assumes "(pool_step job)\<^sup>*\<^sup>* (apply_async_all n) s"
  shows "length (running s) \<le> 8 \<and> distinct (queue s @ running s)"
  using pool_reachable_inv [OF assms] by (simp add: pool_inv_def POOL_SIZE_def)

text \<open>
  C5: In every state the ThreadPool(8) can reach, whatever order the workers finish in,
  when [p.get() for p in async_requests] completes its result is the tasks' outcomes in
  submission order, or the exception of the first failing task by index (tasks after it
  may even never return): the same as running the tasks one after another.
\<close>

theorem pool_collect_in_order:
  assumes "(pool_step job)\<^sup>*\<^sup>* (apply_async_all n) s" "collect (slots s) = Some r"
  shows "r = sequence_r (map (\<lambda>i. the (job i)) [0..<n])"
proof -
  have inv: "pool_inv job n s" by (rule pool_reachable_inv [OF assms(1)])
  then have "\<forall>i<length (slots s). slots s ! i \<in> {None, job (0 + i)}"
    by (simp add: pool_inv_def)
  from collect_slots [OF this assms(2)] inv show ?thesis
    by (simp add: pool_inv_def)
qed

text \<open>
  C10: From every reachable state of the thread pool, [p.get() for p in async_requests]
  can still complete exactly when no task before the first failing one hangs: if the
  first task that does not succeed is a requests.get that never returns (no timeout),
  every get after it is never reached and bulk_request blocks forever, even when later
  tasks fail.
\<close>

theorem pool_get_returns:
  assumes "(pool_step job)\<^sup>*\<^sup>* (apply_async_all n) s"
  shows "(\<exists>t. (pool_step job)\<^sup>*\<^sup>* s t \<and> collect (slots t) \<noteq> None) \<longleftrightarrow> \<not> first_blocks job n"
proof
  assume "\<exists>t. (pool_step job)\<^sup>*\<^sup>* s t \<and> collect (slots t) \<noteq> None"
  then obtain t where t: "(pool_step job)\<^sup>*\<^sup>* s t" "collect (slots t) \<noteq> None" by blast
  have invt: "pool_inv job n t" using pool_reachable_inv [OF rtranclp_trans [OF assms t(1)]] .
  show "\<not> first_blocks job n"
  proof
    assume "first_blocks job n"
    from blocked_forever [OF invt this] t(2) show False by simp
  qed
next
  assume nb: "\<not> first_blocks job n"
  have inv: "pool_inv job n s" by (rule pool_reachable_inv [OF assms])
  let ?ok = "\<lambda>i. \<exists>v. job i = Some (Inr v)"
  obtain m where m: "m \<le> n" "\<forall>i<m. job i \<noteq> None"
    and stop: "m < n \<Longrightarrow> \<exists>e. job (m - 1) = Some (Inl e) \<and> 0 < m"
  proof (cases "\<exists>k<n. \<not> ?ok k")
    case True
    then obtain k where k: "k < n" "\<not> ?ok k" "\<forall>i<k. ?ok i"
      using exists_least_iff [of "\<lambda>k. k < n \<and> \<not> ?ok k"] by (auto dest: order.strict_trans)
    have "job k \<noteq> None"
    proof
      assume "job k = None"
      with k(1,3) have "first_blocks job n" unfolding first_blocks_def by blast
      with nb show False by simp
    qed
    then obtain o' where "job k = Some o'" by blast
    with k(2) obtain e where "job k = Some (Inl e)" by (cases o') auto
    with k show ?thesis by (intro that [of "Suc k"]) (auto simp: less_Suc_eq)
  next
    case False
    then show ?thesis by (intro that [of n]) auto
  qed
  obtain t where t: "(pool_step job)\<^sup>*\<^sup>* s t" "\<forall>i<m. i \<notin> set (queue t @ running t)"
    using pool_progress [OF inv m(2)] by blast
  have invt: "pool_inv job n t" by (rule pool_steps_inv [OF t(1) inv])
  have len: "length (slots t) = n" using invt by (simp add: pool_inv_def)
  have "collect (slots t) \<noteq> None"
  proof
    assume "collect (slots t) = None"
    then obtain j where j: "j < length (slots t)" "slots t ! j = None"
      "\<forall>j'<j. \<forall>e. slots t ! j' \<noteq> Some (Inl e)"
      unfolding collect_None_iff by blast
    have jn: "j < n" using j(1) len by simp
    have mj: "m \<le> j"
    proof (rule ccontr)
      assume "\<not> m \<le> j"
      then have "j \<notin> set (queue t @ running t)" using t(2) by simp
      with pool_inv_slot(1) [OF invt jn] j(2) show False by simp
    qed
    with jn m(1) have "m < n" by simp
    then obtain e where e: "job (m - 1) = Some (Inl e)" "0 < m" using stop by blast
    have mn: "m - 1 < n" using m(1) e(2) by simp
    have "m - 1 \<notin> set (queue t @ running t)" using t(2) e(2) by simp
    then have "slots t ! (m - 1) \<noteq> None" using pool_inv_slot(1) [OF invt mn] by simp
    then have "slots t ! (m - 1) = Some (Inl e)" using pool_inv_slot(2) [OF invt mn] e(1) by simp
    moreover have "m - 1 < j" using mj e(2) by simp
    ultimately show False using j(3) by blast
  qed
  with t(1) show "\<exists>t. (pool_step job)\<^sup>*\<^sup>* s t \<and> collect (slots t) \<noteq> None" by blast
qed

lemma sequence_r_Inl_iff:
  "sequence_r rs = Inl e \<longleftrightarrow> (\<exists>k<length rs. rs ! k = Inl e \<and> (\<forall>i<k. \<not> isl (rs ! i)))"
proof (induction rs)
  case (Cons r rs)
  show ?case
  proof (cases r)
    case (Inl e')
    then show ?thesis by (auto simp: nth_Cons')
  next
    case (Inr v)
    have "sequence_r (r # rs) = Inl e \<longleftrightarrow> sequence_r rs = Inl e"
      using Inr by (cases "sequence_r rs") simp_all
    also have "\<dots> \<longleftrightarrow> (\<exists>k<length (r # rs). (r # rs) ! k = Inl e \<and> (\<forall>i<k. \<not> isl ((r # rs) ! i)))"
      unfolding Cons.IH using Inr by (simp add: Ex_less_Suc2 All_less_Suc2)
    finally show ?thesis .
  qed
qed simp

text \<open>
  C19: bulk_request raises an exception exactly when some task fails, and then raises
  the exception of the first failing task in submission order.
\<close>

theorem bulk_request_first_error:
  "bulk_request job n = Some (Inl e) \<longleftrightarrow> (\<exists>k<n. job k = Inl e \<and> (\<forall>i<k. \<not> isl (job i)))"
  by (auto simp: bulk_request_eq sequence_r_Inl_iff)

text \<open>
  C20: In v1, grequests.map returns all responses when every request succeeds, and
  otherwise the call exception_handler(request, exception) raises TypeError, because
  the module's exception_handler takes no arguments.
\<close>

theorem grequests_map_result:
  "grequests_map send reqs =
     (if \<forall>r\<in>set reqs. \<not> isl (send r) then Inr (map (\<lambda>r. Some (projr (send r))) reqs)
      else Inl (TypeError ''exception_handler() takes 0 positional arguments but 2 were given''))"
proof (induction reqs)
  case (Cons r reqs)
  then show ?case
    by (cases "send r") (auto simp: grequests_map_def exception_handler_def digit_char_def DIGITS_def)
qed (simp add: grequests_map_def)

subsection \<open>Witnesses\<close>

lemma pool_run_example:
  "(pool_step hang_example)\<^sup>*\<^sup>* (apply_async_all 2)
     \<lparr>queue = [], running = [1], slots = [Some (Inl (TransportError 0)), None]\<rparr>"
proof -
  have s1: "pool_step hang_example (apply_async_all 2) \<lparr>queue = [1], running = [0], slots = [None, None]\<rparr>"
    using pool_step.start [of "apply_async_all 2" 0 "[1]" hang_example]
    by (simp add: apply_async_all_def POOL_SIZE_def upt_rec numeral_2_eq_2)
  have s2: "pool_step hang_example \<lparr>queue = [1], running = [0], slots = [None, None]\<rparr>
              \<lparr>queue = [], running = [0, 1], slots = [None, None]\<rparr>"
    using pool_step.start [of "\<lparr>queue = [1], running = [0], slots = [None, None]\<rparr>" 1 "[]" hang_example]
    by (simp add: POOL_SIZE_def)
  have s3: "pool_step hang_example \<lparr>queue = [], running = [0, 1], slots = [None, None]\<rparr>
              \<lparr>queue = [], running = [1], slots = [Some (Inl (TransportError 0)), None]\<rparr>"
    using pool_step.finish [of 0 "\<lparr>queue = [], running = [0, 1], slots = [None, None]\<rparr>" hang_example]
    by (simp add: hang_example_def)
  show ?thesis
    using s1 s2 s3 by (meson converse_rtranclp_into_rtranclp rtranclp.rtrancl_refl)
qed

lemma pool_in_flight_bound_witness:
  "(pool_step hang_example)\<^sup>*\<^sup>* (apply_async_all 2)
     \<lparr>queue = [], running = [1], slots = [Some (Inl (TransportError 0)), None]\<rparr> \<and>
   length [1::nat] \<le> 8 \<and> distinct ([] @ [1::nat])"
  using pool_in_flight_bound [OF pool_run_example] pool_run_example by simp

lemma pool_collect_in_order_witness:
  "(pool_step hang_example)\<^sup>*\<^sup>* (apply_async_all 2)
     \<lparr>queue = [], running = [1], slots = [Some (Inl (TransportError 0)), None]\<rparr> \<and>
   collect [Some (Inl (TransportError 0)), None] = Some (Inl (TransportError 0)) \<and>
   Inl (TransportError 0) = sequence_r (map (\<lambda>i. the (hang_example i)) [0..<2])"
  using pool_collect_in_order [OF pool_run_example, of "Inl (TransportError 0)"] pool_run_example
  by simp

lemma pool_get_returns_witness:
  "(pool_step hang_example)\<^sup>*\<^sup>* (apply_async_all 2) (apply_async_all 2) \<and>
   (\<exists>t. (pool_step hang_example)\<^sup>*\<^sup>* (apply_async_all 2) t \<and> collect (slots t) \<noteq> None) \<and>
   \<not> first_blocks hang_example 2 \<and>
   \<not> (\<exists>t. (pool_step (\<lambda>i. if i = 0 then None else hang_example i))\<^sup>*\<^sup>* (apply_async_all 2) t \<and>
          collect (slots t) \<noteq> None)"
proof -
  have nb: "\<not> first_blocks hang_example 2"
    by (auto simp: first_blocks_def hang_example_def less_Suc_eq numeral_2_eq_2)
  have b: "first_blocks (\<lambda>i. if i = 0 then None else hang_example i) 2"
    by (auto simp: first_blocks_def intro!: exI [of _ 0])
  show ?thesis
    using pool_get_returns [OF rtranclp.rtrancl_refl, of hang_example 2]
      pool_get_returns [OF rtranclp.rtrancl_refl, of "\<lambda>i. if i = 0 then None else hang_example i" 2] nb b
    by simp
qed

lemma bulk_request_first_error_witness:
  "bulk_request job_example 2 = Some (Inl (TransportError 0)) \<and>
   (\<exists>k<2. job_example k = Inl (TransportError 0) \<and> (\<forall>i<k. \<not> isl (job_example i)))"
  using bulk_request_first_error [of job_example 2 "TransportError 0"]
  by (simp add: bulk_request_def apply_async_all_def job_example_def)

lemma grequests_map_result_witness:
  "grequests_map (\<lambda>r. if r = (0::nat) then Inr r else Inl (TransportError r)) [0, 1] =
     Inl (TypeError ''exception_handler() takes 0 positional arguments but 2 were given'')"
  using grequests_map_result [of "\<lambda>r. if r = (0::nat) then Inr r else Inl (TransportError r)" "[0, 1]"]
  by simp

end
