(* ===== verification/Parser.thy ===== *)
theory Parser
  imports Awis_Prelude "HOL-Library.AList"
begin

text \<open>
  The response parsers: \<open>AWIS.parse_traffic_history\<close> of v2 (\<open>src/awis/awis.py\<close> lines
  155-170, a list of \<open>TrafficHistory\<close> records, lines 36-38) and of v1 (\<open>src/awis.py\<close>
  lines 143-163, a dictionary keyed by date), and the stub \<open>parse_url_info\<close>.
  \<open>ET.parse(BytesIO(content)).getroot()\<close> is lxml's parser, library code: the parsers
  here start from the root element it returns. An element is its tag, its \<open>.text\<close>
  (\<open>None\<close> when the element has no text) and its children. \<open>root.iter(tag)\<close>,
  \<open>element.find(tag)\<close> and \<open>element.find('a/b')\<close> are lxml's, and \<open>int(x)\<close> and
  \<open>float(x)\<close> are CPython's on the Latin-1 strings of the model, with their
  \<open>TypeError\<close> on \<open>None\<close> and \<open>ValueError\<close> on a malformed literal. A float is kept as
  the decimal value of its literal (mantissa and power of ten); its rounding to a binary
  double is not modelled.
\<close>

datatype element = Element (el_tag: string) (el_text: "string option") (el_children: "element list")

definition AWS_TAG :: string where
  "AWS_TAG = ''{http://awis.amazonaws.com/doc/2005-07-11}''"

text \<open>\<open>element.iter()\<close>: the element and its descendants in document order.\<close>

fun iter_all :: "element \<Rightarrow> element list" where
  "iter_all (Element t x cs) = Element t x cs # concat (map iter_all cs)"

definition iter :: "string \<Rightarrow> element \<Rightarrow> element list" where
  "iter t e = filter (\<lambda>x. el_tag x = t) (iter_all e)"

text \<open>\<open>element.find(tag)\<close>: the first child with that tag.\<close>

definition find_el :: "string \<Rightarrow> element \<Rightarrow> element option" where
  "find_el t e = find (\<lambda>x. el_tag x = t) (el_children e)"

text \<open>\<open>element.find('a/b')\<close>: the first \<open>b\<close> child of an \<open>a\<close> child, in document order.\<close>

definition find_path :: "string \<Rightarrow> string \<Rightarrow> element \<Rightarrow> element option" where
  "find_path a b e =
     find (\<lambda>x. el_tag x = b) (concat (map el_children (filter (\<lambda>x. el_tag x = a) (el_children e))))"

definition quoted :: "string \<Rightarrow> string" where
  "quoted s = CHR 0x27 # s @ [CHR 0x27]"

text \<open>Attribute access on \<open>None\<close>.\<close>

definition none_attr :: "string \<Rightarrow> py_error" where
  "none_attr a = AttributeError (quoted ''NoneType'' @ '' object has no attribute '' @ quoted a)"

text \<open>\<open>x.text\<close> and \<open>x.find(tag)\<close> where \<open>x\<close> is the result of a \<open>find\<close>.\<close>

definition get_text :: "element option \<Rightarrow> string option result" where
  "get_text x = (case x of None \<Rightarrow> Inl (none_attr ''text'') | Some e \<Rightarrow> Inr (el_text e))"

definition find_on :: "element option \<Rightarrow> string \<Rightarrow> element option result" where
  "find_on x t = (case x of None \<Rightarrow> Inl (none_attr ''find'') | Some e \<Rightarrow> Inr (find_el t e))"

subsection \<open>\<open>int()\<close> and \<open>float()\<close> of a string\<close>

text \<open>
  The characters CPython strips around a numeric literal: ASCII whitespace and the
  other Latin-1 characters \<open>str.isspace()\<close> accepts.
\<close>

definition PY_SPACE :: string where
  "PY_SPACE = [CHR 0x09, CHR 0x0A, CHR 0x0B, CHR 0x0C, CHR 0x0D, CHR 0x1C, CHR 0x1D, CHR 0x1E,
               CHR 0x1F, CHR 0x20, CHR 0x85, CHR 0xA0]"

definition py_strip :: "string \<Rightarrow> string" where
  "py_strip s = rev (dropWhile (\<lambda>c. c \<in> set PY_SPACE) (rev (dropWhile (\<lambda>c. c \<in> set PY_SPACE) s)))"

definition split_sign :: "string \<Rightarrow> bool \<times> string" where
  "split_sign s =
     (case s of
        c # r \<Rightarrow> if c = CHR ''-'' then (True, r) else if c = CHR ''+'' then (False, r) else (False, s)
      | [] \<Rightarrow> (False, []))"

definition signed :: "bool \<Rightarrow> int \<Rightarrow> int" where
  "signed neg i = (if neg then - i else i)"

text \<open>Decimal digits, single underscores allowed between two digits.\<close>

definition digit_groups :: "string \<Rightarrow> bool" where
  "digit_groups s \<longleftrightarrow> list_all (\<lambda>g. g \<noteq> [] \<and> list_all is_dec_digit g) (split_on CHR ''_'' s)"

text \<open>\<open>PyLong_FromString(s, base=10)\<close> on the whole string.\<close>

definition int_literal :: "string \<Rightarrow> int option" where
  "int_literal s =
     (case split_sign (py_strip s) of
        (neg, ds) \<Rightarrow>
          if digit_groups ds then Some (signed neg (int (read_digits (filter (\<lambda>c. c \<noteq> CHR ''_'') ds))))
          else None)"

definition py_int :: "string option \<Rightarrow> int result" where
  "py_int x =
     (case x of
        None \<Rightarrow> Inl (TypeError (''int() argument must be a string, a bytes-like object or a real number, not '' @
                               quoted ''NoneType''))
      | Some s \<Rightarrow>
          (case int_literal s of
             Some i \<Rightarrow> Inr i
           | None \<Rightarrow> Inl (ValueError (''invalid literal for int() with base 10: '' @ quoted s))))"

datatype pyfloat = Finite int int | Infinity bool | NaN

definition UPPER :: string where "UPPER = ''ABCDEFGHIJKLMNOPQRSTUVWXYZ''"
definition LOWER :: string where "LOWER = ''abcdefghijklmnopqrstuvwxyz''"

definition lower_ascii :: "char \<Rightarrow> char" where
  "lower_ascii c = (case map_of (zip UPPER LOWER) c of Some l \<Rightarrow> l | None \<Rightarrow> c)"

text \<open>\<open>_Py_string_to_number_with_underscores\<close>: each underscore between two digits.\<close>

fun underscores_ok :: "char \<Rightarrow> string \<Rightarrow> bool" where
  "underscores_ok p [] = (p \<noteq> CHR ''_'')"
| "underscores_ok p (c # r) =
     ((if c = CHR ''_'' then is_dec_digit p else (p = CHR ''_'' \<longrightarrow> is_dec_digit c)) \<and> underscores_ok c r)"

definition exp_literal :: "string \<Rightarrow> int option" where
  "exp_literal s =
     (case split_sign s of
        (neg, ds) \<Rightarrow> if ds \<noteq> [] \<and> list_all is_dec_digit ds then Some (signed neg (int (read_digits ds))) else None)"

text \<open>The decimal part of \<open>_Py_dg_strtod\<close>: digits, an optional point and exponent.\<close>

definition decimal_literal :: "string \<Rightarrow> (int \<times> int) option" where
  "decimal_literal r =
     (let is_e = (\<lambda>c. c = CHR ''e'' \<or> c = CHR ''E'');
          mant = takeWhile (\<lambda>c. \<not> is_e c) r;
          ex = dropWhile (\<lambda>c. \<not> is_e c) r;
          ip = takeWhile (\<lambda>c. c \<noteq> CHR ''.'') mant;
          fp = drop 1 (dropWhile (\<lambda>c. c \<noteq> CHR ''.'') mant);
          m = int (read_digits (ip @ fp))
      in if list_all is_dec_digit ip \<and> list_all is_dec_digit fp \<and> ip @ fp \<noteq> []
         then (case ex of
                 [] \<Rightarrow> Some (m, - int (length fp))
               | _ # es \<Rightarrow> map_option (\<lambda>x. (m, x - int (length fp))) (exp_literal es))
         else None)"

definition float_literal :: "string \<Rightarrow> pyfloat option" where
  "float_literal s =
     (case split_sign s of
        (neg, r) \<Rightarrow>
          let w = map lower_ascii r
          in if w = ''inf'' \<or> w = ''infinity'' then Some (Infinity neg)
             else if w = ''nan'' then Some NaN
             else map_option (\<lambda>(m, e). Finite (signed neg m) e) (decimal_literal r))"

definition py_float :: "string option \<Rightarrow> pyfloat result" where
  "py_float x =
     (case x of
        None \<Rightarrow> Inl (TypeError (''float() argument must be a string or a real number, not '' @ quoted ''NoneType''))
      | Some s \<Rightarrow>
          (case (if underscores_ok CHR 0x00 s
                 then float_literal (py_strip (filter (\<lambda>c. c \<noteq> CHR ''_'') s)) else None) of
             Some f \<Rightarrow> Inr f
           | None \<Rightarrow> Inl (ValueError (''could not convert string to float: '' @ quoted s))))"

subsection \<open>\<open>parse_traffic_history\<close>\<close>

text \<open>The namedtuple \<open>TrafficHistory\<close> of v2.\<close>

record traffic_history =
  th_date :: "string option"
  page_view_per_million :: int
  page_view_per_user :: pyfloat
  th_rank :: int
  th_reach :: int

text \<open>The body of the loop of v2's \<open>parse_traffic_history\<close>, for one \<open>Data\<close> element.\<close>

definition parse_data :: "element \<Rightarrow> traffic_history result" where
  "parse_data element =
     bindE (get_text (find_el (AWS_TAG @ ''Date'') element)) (\<lambda>date.
     (let pageview_el = find_el (AWS_TAG @ ''PageViews'') element in
     bindE (bindE (bindE (find_on pageview_el (AWS_TAG @ ''PerMillion'')) get_text) py_int) (\<lambda>pageview_pmil.
     bindE (bindE (bindE (find_on pageview_el (AWS_TAG @ ''PerUser'')) get_text) py_float) (\<lambda>pageview_puser.
     bindE (bindE (get_text (find_el (AWS_TAG @ ''Rank'') element)) py_int) (\<lambda>rank.
     bindE (bindE (get_text (find_path (AWS_TAG @ ''Reach'') (AWS_TAG @ ''PerMillion'') element)) py_int) (\<lambda>reach.
     Inr \<lparr>th_date = date, page_view_per_million = pageview_pmil, page_view_per_user = pageview_puser,
          th_rank = rank, th_reach = reach\<rparr>))))))"

definition parse_traffic_history :: "element \<Rightarrow> traffic_history list result" where
  "parse_traffic_history root = sequence_r (map parse_data (iter (AWS_TAG @ ''Data'') root))"

subsection \<open>Version 1: a dictionary keyed by date\<close>

text \<open>
  The value v1 stores under a date: the dictionary with keys \<open>PageViewPerMillion\<close>,
  \<open>PageViewPerUser\<close>, \<open>Rank\<close> and \<open>Reach\<close>, as a tuple in that order. A Python
  dictionary is an association list: \<open>AList.update\<close> replaces the value of a present key
  in place and appends a new key, as \<open>output[date] = ...\<close> does.
\<close>

type_synonym history_fields = "int \<times> pyfloat \<times> int \<times> int"

definition parse_fields_v1 :: "element \<Rightarrow> (string option \<times> history_fields) result" where
  "parse_fields_v1 element =
     bindE (get_text (find_el (AWS_TAG @ ''Date'') element)) (\<lambda>date.
     (let pageview_el = find_el (AWS_TAG @ ''PageViews'') element in
     bindE (bindE (bindE (find_on pageview_el (AWS_TAG @ ''PerMillion'')) get_text) py_int) (\<lambda>pageview_pmil.
     bindE (bindE (bindE (find_on pageview_el (AWS_TAG @ ''PerUser'')) get_text) py_float) (\<lambda>pageview_puser.
     bindE (bindE (get_text (find_el (AWS_TAG @ ''Rank'') element)) py_int) (\<lambda>rank.
     bindE (bindE (get_text (find_path (AWS_TAG @ ''Reach'') (AWS_TAG @ ''PerMillion'') element)) py_int) (\<lambda>reach.
     Inr (date, (pageview_pmil, pageview_puser, rank, reach))))))))"

fun parse_loop_v1 ::
  "element list \<Rightarrow> (string option \<times> history_fields) list \<Rightarrow> (string option \<times> history_fields) list result" where
  "parse_loop_v1 [] output = Inr output"
| "parse_loop_v1 (element # es) output =
     bindE (parse_fields_v1 element) (\<lambda>(date, v). parse_loop_v1 es (AList.update date v output))"

definition parse_traffic_history_v1 :: "element \<Rightarrow> (string option \<times> history_fields) list result" where
  "parse_traffic_history_v1 root = parse_loop_v1 (iter (AWS_TAG @ ''Data'') root) []"

text \<open>\<open>parse_url_info\<close> of v2 and of v1 return the content unchanged.\<close>

definition parse_url_info :: "'c \<Rightarrow> 'c" where
  "parse_url_info content = content"

definition parse_url_info_v1 :: "'c \<Rightarrow> 'c" where
  "parse_url_info_v1 content = content"

subsection \<open>The service's answer\<close>

text \<open>
  A TrafficHistory answer as the service writes it, for the round trip: the records'
  values printed as decimal literals inside the documented element nesting.
\<close>

definition show_float :: "pyfloat \<Rightarrow> string" where
  "show_float f =
     (case f of
        Finite m e \<Rightarrow> show_int m @ ''e'' @ show_int e
      | Infinity neg \<Rightarrow> (if neg then ''-inf'' else ''inf'')
      | NaN \<Rightarrow> ''nan'')"

definition leaf :: "string \<Rightarrow> string \<Rightarrow> string \<Rightarrow> element" where
  "leaf ns t x = Element (ns @ t) (Some x) []"

definition data_el :: "string \<Rightarrow> traffic_history \<Rightarrow> element" where
  "data_el ns r =
     Element (ns @ ''Data'') None
       [Element (ns @ ''Date'') (th_date r) [],
        Element (ns @ ''PageViews'') None
          [leaf ns ''PerMillion'' (show_int (page_view_per_million r)),
           leaf ns ''PerUser'' (show_float (page_view_per_user r))],
        leaf ns ''Rank'' (show_int (th_rank r)),
        Element (ns @ ''Reach'') None [leaf ns ''PerMillion'' (show_int (th_reach r))]]"

text \<open>The answer with its element names qualified by the namespace prefix \<open>ns\<close>.\<close>

definition history_response :: "string \<Rightarrow> traffic_history list \<Rightarrow> element" where
  "history_response ns rs =
     Element (ns @ ''TrafficHistoryResponse'') None
       [Element (ns @ ''Response'') None
         [Element (ns @ ''TrafficHistoryResult'') None
           [Element (ns @ ''Alexa'') None
             [Element (ns @ ''TrafficHistory'') None
               [Element (ns @ ''HistoricalData'') None (map (data_el ns) rs)]]]]]"

definition fields_of :: "traffic_history \<Rightarrow> string option \<times> history_fields" where
  "fields_of r = (th_date r, (page_view_per_million r, page_view_per_user r, th_rank r, th_reach r))"

text \<open>A record as the service answers it, for the witnesses.\<close>

definition example_record :: traffic_history where
  "example_record = \<lparr>th_date = Some ''20191001'', page_view_per_million = 1000,
     page_view_per_user = Finite 25 (- 1), th_rank = 500, th_reach = 900\<rparr>"

subsection \<open>Lemmas\<close>

lemma dropWhile_none: "\<forall>x\<in>set xs. \<not> P x \<Longrightarrow> dropWhile P xs = xs"
  by (induction xs) auto

lemma py_strip_id: "set s \<inter> set PY_SPACE = {} \<Longrightarrow> py_strip s = s"
proof -
  assume "set s \<inter> set PY_SPACE = {}"
  then have "\<forall>x\<in>set s. \<not> x \<in> set PY_SPACE" "\<forall>x\<in>set (rev s). \<not> x \<in> set PY_SPACE" by auto
  then show ?thesis by (simp add: py_strip_def dropWhile_none)
qed

lemma digits_not_space: "set DIGITS \<inter> set PY_SPACE = {}"
  by (simp add: DIGITS_def PY_SPACE_def)

lemma show_nat_Cons: "\<exists>c r. show_nat n = c # r \<and> c \<in> set DIGITS"
  using set_show_nat [of n] show_nat_nonempty [of n] by (cases "show_nat n") auto

lemma split_sign_show_int: "split_sign (show_int i @ t) = (i < 0, show_nat (nat \<bar>i\<bar>) @ t)"
proof (cases "i < 0")
  case True
  then show ?thesis by (simp add: show_int_def split_sign_def)
next
  case False
  obtain c r where "show_nat (nat i) = c # r" "c \<in> set DIGITS"
    using show_nat_Cons by blast
  moreover have "c \<noteq> CHR ''-''" "c \<noteq> CHR ''+''"
    using \<open>c \<in> set DIGITS\<close> by (auto simp: DIGITS_def)
  ultimately show ?thesis
    using False by (simp add: show_int_def split_sign_def)
qed

lemma digit_groups_digits: "s \<noteq> [] \<Longrightarrow> set s \<subseteq> set DIGITS \<Longrightarrow> digit_groups s"
proof -
  assume "s \<noteq> []" "set s \<subseteq> set DIGITS"
  moreover have "CHR ''_'' \<notin> set DIGITS" by (simp add: DIGITS_def)
  ultimately have "CHR ''_'' \<notin> set s" by blast
  with \<open>s \<noteq> []\<close> \<open>set s \<subseteq> set DIGITS\<close> show ?thesis
    by (auto simp: digit_groups_def list_all_iff is_dec_digit_def)
qed

lemma filter_no_underscore: "CHR ''_'' \<notin> set s \<Longrightarrow> filter (\<lambda>c. c \<noteq> CHR ''_'') s = s"
  by (induction s) auto

lemma show_nat_no_underscore: "CHR ''_'' \<notin> set (show_nat n)"
  using set_show_nat [of n] by (auto simp: DIGITS_def)

lemma signed_nat_abs [simp]: "signed (i < 0) \<bar>i\<bar> = i" "signed (i < 0) (int (nat \<bar>i\<bar>)) = i"
  by (simp_all add: signed_def)

lemma set_show_int_space: "set (show_int i) \<inter> set PY_SPACE = {}"
  using set_show_int [of i] by (auto simp: DIGITS_def PY_SPACE_def)

lemma int_literal_show_int: "int_literal (show_int i) = Some i"
proof -
  have "digit_groups (show_nat (nat \<bar>i\<bar>))"
    using set_show_nat show_nat_nonempty by (blast intro: digit_groups_digits)
  then show ?thesis
    using split_sign_show_int [of i "[]"] py_strip_id [OF set_show_int_space]
    by (simp add: int_literal_def filter_no_underscore show_nat_no_underscore signed_nat_abs)
qed

lemma exp_literal_show_int: "exp_literal (show_int i) = Some i"
proof -
  have "list_all is_dec_digit (show_nat (nat \<bar>i\<bar>))"
    using set_show_nat by (auto simp: list_all_iff is_dec_digit_def)
  then show ?thesis
    using split_sign_show_int [of i "[]"]
    by (simp add: exp_literal_def signed_nat_abs)
qed

lemma py_int_show_int: "py_int (Some (show_int i)) = Inr i"
  by (simp add: py_int_def int_literal_show_int)


lemma underscores_ok_free: "CHR ''_'' \<notin> set s \<Longrightarrow> p \<noteq> CHR ''_'' \<Longrightarrow> underscores_ok p s"
  by (induction s arbitrary: p) auto

lemma set_show_float: "set (show_float f) \<subseteq> insert CHR ''-'' (set DIGITS) \<union> set ''einfa''"
proof (cases f)
  case (Finite m e)
  then show ?thesis
    using set_show_int [of m] set_show_int [of e] by (auto simp: show_float_def)
qed (auto simp: show_float_def)

lemma lower_ascii_digit: "c \<in> set DIGITS \<Longrightarrow> lower_ascii c = c"
proof -
  assume "c \<in> set DIGITS"
  then have "c \<notin> set UPPER" by (auto simp: DIGITS_def UPPER_def)
  then show ?thesis
    by (simp add: lower_ascii_def map_of_zip_is_None UPPER_def LOWER_def)
qed

lemma decimal_literal_show: "decimal_literal (show_nat k @ CHR ''e'' # show_int e) = Some (int k, e)"
proof -
  have nd: "\<And>c. c \<in> set (show_nat k) \<Longrightarrow> c \<noteq> CHR ''e'' \<and> c \<noteq> CHR ''E'' \<and> c \<noteq> CHR ''.''"
    using set_show_nat by (fastforce simp: DIGITS_def)
  have dg: "list_all is_dec_digit (show_nat k)"
    using set_show_nat by (auto simp: list_all_iff is_dec_digit_def)
  have t1: "takeWhile (\<lambda>c. \<not> (c = CHR ''e'' \<or> c = CHR ''E'')) (show_nat k @ CHR ''e'' # show_int e) = show_nat k"
    using nd by (simp add: takeWhile_append2)
  have t2: "dropWhile (\<lambda>c. \<not> (c = CHR ''e'' \<or> c = CHR ''E'')) (show_nat k @ CHR ''e'' # show_int e) = CHR ''e'' # show_int e"
    using nd by (simp add: dropWhile_append2)
  have t3: "takeWhile (\<lambda>c. c \<noteq> CHR ''.'') (show_nat k) = show_nat k"
    using nd by (simp add: takeWhile_eq_all_conv)
  have t4: "dropWhile (\<lambda>c. c \<noteq> CHR ''.'') (show_nat k) = []"
    using nd by (simp add: dropWhile_eq_Nil_conv)
  show ?thesis
    unfolding decimal_literal_def Let_def t1 t2 t3 t4
    using dg by (simp add: exp_literal_show_int)
qed

lemma float_literal_show_float: "float_literal (show_float f) = Some f"
proof (cases f)
  case (Finite m e)
  obtain c r where cr: "show_nat (nat \<bar>m\<bar>) = c # r" "c \<in> set DIGITS"
    using show_nat_Cons by blast
  then have "lower_ascii c \<noteq> CHR ''i'' \<and> lower_ascii c \<noteq> CHR ''n''"
    by (auto simp: lower_ascii_digit DIGITS_def)
  then have "map lower_ascii (show_nat (nat \<bar>m\<bar>) @ CHR ''e'' # show_int e) \<noteq> ''inf'' \<and>
             map lower_ascii (show_nat (nat \<bar>m\<bar>) @ CHR ''e'' # show_int e) \<noteq> ''infinity'' \<and>
             map lower_ascii (show_nat (nat \<bar>m\<bar>) @ CHR ''e'' # show_int e) \<noteq> ''nan''"
    using cr by auto
  then show ?thesis
    using Finite split_sign_show_int [of m "''e'' @ show_int e"]
    by (simp add: float_literal_def show_float_def decimal_literal_show del: nat_abs_int_diff)
next
  case (Infinity neg)
  then show ?thesis
    by (cases neg) (simp_all add: float_literal_def show_float_def split_sign_def lower_ascii_def UPPER_def LOWER_def)
next
  case NaN
  then show ?thesis
    by (simp add: float_literal_def show_float_def split_sign_def lower_ascii_def UPPER_def LOWER_def)
qed

lemma py_float_show_float: "py_float (Some (show_float f)) = Inr f"
proof -
  have "CHR ''_'' \<notin> insert CHR ''-'' (set DIGITS) \<union> set ''einfa''"
       "(insert CHR ''-'' (set DIGITS) \<union> set ''einfa'') \<inter> set PY_SPACE = {}"
    by (simp_all add: DIGITS_def PY_SPACE_def)
  then have "CHR ''_'' \<notin> set (show_float f)" "set (show_float f) \<inter> set PY_SPACE = {}"
    using set_show_float [of f] by blast+
  then show ?thesis
    by (simp add: py_float_def underscores_ok_free filter_no_underscore py_strip_id float_literal_show_float)
qed

lemma map_sum_bindE [simp]: "map_sum id f (bindE m g) = bindE m (\<lambda>x. map_sum id f (g x))"
  by (cases m) simp_all

lemma parse_fields_v1_eq: "parse_fields_v1 e = map_sum id fields_of (parse_data e)"
  by (simp add: parse_fields_v1_def parse_data_def Let_def fields_of_def)

lemma parse_loop_v1_eq:
  "parse_loop_v1 es acc =
     map_sum id (\<lambda>rs. fold (\<lambda>r. AList.update (th_date r) (snd (fields_of r))) rs acc)
       (sequence_r (map parse_data es))"
proof (induction es arbitrary: acc)
  case (Cons e es)
  show ?case
    by (cases "parse_data e"; cases "sequence_r (map parse_data es)")
       (simp_all add: parse_fields_v1_eq Cons.IH fields_of_def)
qed simp

text \<open>
  C18: v1 parse_traffic_history returns the dictionary obtained by storing v2's records
  one after another under their dates, and fails exactly when v2 fails, with the same
  exception.
\<close>

theorem parse_v1_refines_v2:
  "parse_traffic_history_v1 root =
     map_sum id (\<lambda>rs. fold (\<lambda>r. AList.update (th_date r) (snd (fields_of r))) rs [])
       (parse_traffic_history root)"
  by (simp add: parse_traffic_history_v1_def parse_traffic_history_def parse_loop_v1_eq)

lemma parse_data_el: "parse_data (data_el AWS_TAG r) = Inr r"
  by (simp add: parse_data_def data_el_def leaf_def find_el_def find_path_def get_text_def find_on_def
      py_int_show_int py_float_show_float)

lemma iter_history_response: "iter (AWS_TAG @ ''Data'') (history_response AWS_TAG rs) = map (data_el AWS_TAG) rs"
proof -
  have "iter (AWS_TAG @ ''Data'') (data_el AWS_TAG r) = [data_el AWS_TAG r]" for r
    by (simp add: iter_def data_el_def leaf_def)
  then have "filter (\<lambda>x. el_tag x = AWS_TAG @ ''Data'') (concat (map iter_all (map (data_el AWS_TAG) rs))) =
      map (data_el AWS_TAG) rs"
    by (induction rs) (simp_all add: iter_def)
  then show ?thesis
    by (simp add: iter_def history_response_def)
qed

text \<open>
  C7: parse_traffic_history reads back exactly the records, in order, of a
  TrafficHistory answer in the AWIS namespace that prints each record's date, page
  views per million and per user, rank and reach.
\<close>

theorem parse_traffic_history_roundtrip: "parse_traffic_history (history_response AWS_TAG rs) = Inr rs"
  by (simp add: parse_traffic_history_def iter_history_response comp_def parse_data_el)

text \<open>
  C22: A TrafficHistory answer whose elements are not in the AWIS namespace parses to
  the empty list instead of failing.
\<close>

theorem parse_without_namespace: "parse_traffic_history (history_response [] rs) = Inr []"
proof -
  have "iter (AWS_TAG @ ''Data'') (data_el [] r) = []" for r
    by (simp add: iter_def data_el_def leaf_def AWS_TAG_def)
  then have "filter (\<lambda>x. el_tag x = AWS_TAG @ ''Data'') (concat (map iter_all (map (data_el []) rs))) = []"
    by (induction rs) (simp_all add: iter_def)
  then show ?thesis
    by (simp add: parse_traffic_history_def iter_def history_response_def AWS_TAG_def)
qed

text \<open>
  C23: A Data element is parsed only if it has Date, PageViews with PerMillion and
  PerUser, Rank and Reach/PerMillion children in the AWIS namespace; if any is missing,
  parsing raises.
\<close>

theorem parse_data_requires_fields:
  assumes "parse_data element = Inr r"
  shows "find_el (AWS_TAG @ ''Date'') element \<noteq> None \<and>
         (\<exists>pv. find_el (AWS_TAG @ ''PageViews'') element = Some pv \<and>
               find_el (AWS_TAG @ ''PerMillion'') pv \<noteq> None \<and> find_el (AWS_TAG @ ''PerUser'') pv \<noteq> None) \<and>
         find_el (AWS_TAG @ ''Rank'') element \<noteq> None \<and>
         find_path (AWS_TAG @ ''Reach'') (AWS_TAG @ ''PerMillion'') element \<noteq> None"
  using assms
  by (auto simp: parse_data_def bindE_Inr_iff get_text_def find_on_def Let_def split: option.splits)


subsection \<open>Witnesses\<close>

lemma parse_data_requires_fields_witness:
  "parse_data (data_el AWS_TAG example_record) = Inr example_record \<and>
   find_el (AWS_TAG @ ''Date'') (data_el AWS_TAG example_record) \<noteq> None \<and>
   (\<exists>pv. find_el (AWS_TAG @ ''PageViews'') (data_el AWS_TAG example_record) = Some pv \<and>
         find_el (AWS_TAG @ ''PerMillion'') pv \<noteq> None \<and> find_el (AWS_TAG @ ''PerUser'') pv \<noteq> None) \<and>
   find_el (AWS_TAG @ ''Rank'') (data_el AWS_TAG example_record) \<noteq> None \<and>
   find_path (AWS_TAG @ ''Reach'') (AWS_TAG @ ''PerMillion'') (data_el AWS_TAG example_record) \<noteq> None"
  using parse_data_requires_fields [OF parse_data_el [of example_record]] parse_data_el [of example_record]
  by blast

end
