(* ===== verification/Client.thy ===== *)
theory Client
  imports Planner Dispatcher Parser
begin

text \<open>
  The public operations, composing the components: \<open>AWIS.traffic_history\<close> (plan, then
  \<open>bulk_request\<close>, then one \<open>parse_traffic_history\<close> per response, chained;
  \<open>src/awis/awis.py\<close> lines 107-146) and \<open>AWIS.url_info\<close> (lines 90-105), and their v1
  versions (\<open>src/awis.py\<close> lines 80-141: one \<open>create_request\<close> per query in the loop,
  \<open>grequests.map\<close>, and the dictionaries merged with \<open>dict.update\<close>).

  The environment is a set of parameters: the transport \<open>send\<close> (\<open>requests.get\<close> on the
  built request, raising on a network failure), lxml's parser \<open>xml_parse\<close> of the
  response content, \<open>date.today()\<close>, and the clock: task \<open>i\<close> reads
  \<open>datetime.utcnow()\<close> twice, giving \<open>clock i\<close>.
\<close>

record response =
  content :: bytes

type_synonym transport = "http_request \<Rightarrow> response result"
type_synonym xml_parser = "bytes \<Rightarrow> element result"

text \<open>\<open>VALID_RESPONSE_GROUPS\<close> (v2 module constant; v1 sets it as \<open>self.valid_response_groups\<close>).\<close>

definition VALID_RESPONSE_GROUPS :: "string list" where
  "VALID_RESPONSE_GROUPS =
     [''RelatedLinks'', ''Categories'', ''Rank'', ''RankByCountry'', ''UsageStats'', ''AdultContent'',
      ''Speed'', ''Language'', ''OwnedDomains'', ''LinksInCount'', ''SiteData'']"

text \<open>\<open>self.parse_traffic_history(r.content)\<close>, with \<open>ET.parse\<close> as \<open>xml_parse\<close>.\<close>

definition parse_response :: "xml_parser \<Rightarrow> response \<Rightarrow> traffic_history list result" where
  "parse_response xml_parse r = bindE (xml_parse (content r)) parse_traffic_history"

text \<open>Task \<open>i\<close> of the pool: \<open>self.create_request(queries[i], session)\<close>, which sends.\<close>

definition history_job ::
  "crypto \<Rightarrow> awis_client \<Rightarrow> (nat \<Rightarrow> utc_now \<times> utc_now) \<Rightarrow> transport \<Rightarrow> string list \<Rightarrow> nat \<Rightarrow> response result" where
  "history_job c self clock send queries i =
     send (create_request c self (fst (clock i)) (snd (clock i)) (queries ! i))"

text \<open>
  v2 \<open>traffic_history\<close>. The result is \<open>None\<close> when the call does not return (the
  collection would wait forever).
\<close>

definition traffic_history_v2 ::
  "crypto \<Rightarrow> awis_client \<Rightarrow> (nat \<Rightarrow> utc_now \<times> utc_now) \<Rightarrow> transport \<Rightarrow> xml_parser \<Rightarrow>
   date \<Rightarrow> string \<Rightarrow> int \<Rightarrow> string option \<Rightarrow> bool \<Rightarrow> traffic_history list result option" where
  "traffic_history_v2 c self clock send xml_parse today url search_range start_date search_reverse =
     (case traffic_history_plan range_errors_v2 today url search_range start_date search_reverse of
        Inl e \<Rightarrow> Some (Inl e)
      | Inr queries \<Rightarrow>
          map_option
            (\<lambda>bulk_responses. bindE bulk_responses (\<lambda>rs.
               map_sum id concat (sequence_r (map (parse_response xml_parse) rs))))
            (bulk_request (history_job c self clock send queries) (length queries)))"

text \<open>The sequential reference: build, send and parse the sub-requests one after another.\<close>

definition traffic_history_seq ::
  "crypto \<Rightarrow> awis_client \<Rightarrow> (nat \<Rightarrow> utc_now \<times> utc_now) \<Rightarrow> transport \<Rightarrow> xml_parser \<Rightarrow>
   date \<Rightarrow> string \<Rightarrow> int \<Rightarrow> string option \<Rightarrow> bool \<Rightarrow> traffic_history list result" where
  "traffic_history_seq c self clock send xml_parse today url search_range start_date search_reverse =
     bindE (traffic_history_plan range_errors_v2 today url search_range start_date search_reverse) (\<lambda>queries.
     bindE (sequence_r (map (history_job c self clock send queries) [0..<length queries])) (\<lambda>rs.
     map_sum id concat (sequence_r (map (parse_response xml_parse) rs))))"

text \<open>
  v2 \<open>url_info\<close>: after the join, \<open>self.valid_response_groups\<close> is read, which the v2
  class never sets.
\<close>

definition url_info_v2 :: "awis_client \<Rightarrow> string list \<Rightarrow> string \<Rightarrow> bytes result" where
  "url_info_v2 self response_groups url =
     (let str_response_groups = join '','' response_groups
      in Inl (AttributeError (quoted ''AWIS'' @ '' object has no attribute '' @ quoted ''valid_response_groups'')))"

subsection \<open>Version 1\<close>

text \<open>
  The v1 instance: \<open>AWIS.__init__(access_id, secret_key)\<close> stores the credentials and the
  set of valid response groups (it also reads the clock, which it does not use).
\<close>

record awis_client_v1 =
  v1_access_id :: string
  v1_secret_access_key :: string
  valid_response_groups :: "string list"

definition awis_init_v1 :: "string \<Rightarrow> string \<Rightarrow> awis_client_v1" where
  "awis_init_v1 aid secret_key =
     \<lparr>v1_access_id = aid, v1_secret_access_key = secret_key, valid_response_groups = VALID_RESPONSE_GROUPS\<rparr>"

text \<open>\<open>AWIS.parse_response(response)\<close> of v1 (unused by the class): the raw content.\<close>

definition parse_response_v1 :: "response \<Rightarrow> bytes" where
  "parse_response_v1 response = content response"

text \<open>\<open>output.update(d)\<close> for a dictionary \<open>d\<close>: its items in order.\<close>

definition dict_update :: "('k \<times> 'v) list \<Rightarrow> ('k \<times> 'v) list \<Rightarrow> ('k \<times> 'v) list" where
  "dict_update output d = fold (\<lambda>(k, v). AList.update k v) d output"

text \<open>The merge loop of v1 \<open>traffic_history\<close> over the lazily parsed responses.\<close>

fun merge_v1 ::
  "xml_parser \<Rightarrow> response option list \<Rightarrow> (string option \<times> history_fields) list \<Rightarrow>
   (string option \<times> history_fields) list result" where
  "merge_v1 xml_parse [] output = Inr output"
| "merge_v1 xml_parse (r # rs) output =
     bindE (case r of
              None \<Rightarrow> Inl (none_attr ''content'')
            | Some resp \<Rightarrow> bindE (xml_parse (content resp)) parse_traffic_history_v1)
       (\<lambda>d. merge_v1 xml_parse rs (dict_update output d))"

definition traffic_history_v1 ::
  "crypto \<Rightarrow> awis_client_v1 \<Rightarrow> (nat \<Rightarrow> utc_now \<times> utc_now) \<Rightarrow> transport \<Rightarrow> xml_parser \<Rightarrow>
   date \<Rightarrow> string \<Rightarrow> int \<Rightarrow> string option \<Rightarrow> bool \<Rightarrow> (string option \<times> history_fields) list result" where
  "traffic_history_v1 c self clock send xml_parse today url search_range start_date search_reverse =
     bindE (traffic_history_plan range_errors_v1 today url search_range start_date search_reverse) (\<lambda>queries.
     (let reqs = map (\<lambda>i. create_request_v1 c (v1_access_id self) (v1_secret_access_key self)
                              (fst (clock i)) (snd (clock i)) (queries ! i))
                   [0..<length queries]
      in bindE (grequests_map send reqs) (\<lambda>responses. merge_v1 xml_parse responses [])))"

definition url_info_v1 ::
  "crypto \<Rightarrow> awis_client_v1 \<Rightarrow> utc_now \<times> utc_now \<Rightarrow> transport \<Rightarrow> string list \<Rightarrow> string \<Rightarrow> bytes result" where
  "url_info_v1 c self now send response_groups url =
     (let str_response_groups = join '','' response_groups
      in if \<not> set response_groups \<subseteq> set (valid_response_groups self)
         then Inl (NameError ''Not all response groups are valid'')
         else
           (let canonical_query = url_info_query str_response_groups url;
                request = create_request_v1 c (v1_access_id self) (v1_secret_access_key self) (fst now) (snd now)
                            canonical_query
            in bindE (grequests_map send [request]) (\<lambda>responses.
                 case responses ! 0 of
                   None \<Rightarrow> Inl (none_attr ''content'')
                 | Some response \<Rightarrow> Inr (parse_url_info_v1 (content response)))))"

text \<open>A clock reading for the witnesses.\<close>

definition example_now :: utc_now where
  "example_now = \<lparr>now_date = 737425, now_secs = 0\<rparr>"

definition hist_map :: "traffic_history list \<Rightarrow> (string option \<rightharpoonup> history_fields) \<Rightarrow> (string option \<rightharpoonup> history_fields)" where
  "hist_map rs m = fold (\<lambda>r m. m(th_date r \<mapsto> snd (fields_of r))) rs m"

subsection \<open>Lemmas\<close>

lemma traffic_history_v2_seq:
  "traffic_history_v2 c self clock send xml_parse today url sr sd reverse =
     Some (traffic_history_seq c self clock send xml_parse today url sr sd reverse)"
  by (simp add: traffic_history_v2_def traffic_history_seq_def bulk_request_eq split: sum.split)

lemma plan_errs_Inr:
  "traffic_history_plan errs today url sr sd reverse = Inr qs \<Longrightarrow>
   traffic_history_plan errs' today url sr sd reverse = Inr qs"
  by (auto simp: traffic_history_plan_def bindE_Inr_iff split: if_splits)

lemma sequence_r_map_Inr_conv:
  "sequence_r (map f xs) = Inr vs \<Longrightarrow> map f xs = map Inr vs"
  by (simp add: sequence_r_Inr_iff)


lemma map_of_fold_update:
  "map_of (fold (\<lambda>r. AList.update (th_date r) (snd (fields_of r))) rs out) = hist_map rs (map_of out)"
  by (induction rs arbitrary: out) (simp_all add: hist_map_def update_conv')

lemma distinct_fold_update:
  "distinct (map fst out) \<Longrightarrow> distinct (map fst (fold (\<lambda>r. AList.update (th_date r) (snd (fields_of r))) rs out))"
  by (induction rs arbitrary: out) (simp_all add: distinct_update)

lemma map_of_dict_update:
  "distinct (map fst d) \<Longrightarrow> map_of (dict_update out d) = map_of out ++ map_of d"
proof (induction d arbitrary: out)
  case (Cons p d)
  obtain k v where p: "p = (k, v)" by (cases p)
  have k: "k \<notin> dom (map_of d)" and dd: "distinct (map fst d)"
    using Cons.prems p by (auto simp: dom_map_of_conv_image_fst)
  have "map_of (dict_update out (p # d)) = map_of (dict_update (AList.update k v out) d)"
    by (simp add: dict_update_def p)
  also have "\<dots> = (map_of out)(k \<mapsto> v) ++ map_of d"
    using Cons.IH [OF dd, of "AList.update k v out"] by (simp only: update_conv')
  also have "\<dots> = map_of out ++ map_of (p # d)"
    using k by (auto simp: fun_eq_iff map_add_def p split: option.splits)
  finally show ?case .
qed (simp add: dict_update_def)

lemma hist_map_Cons: "hist_map (r # rs) m = hist_map rs (m(th_date r \<mapsto> snd (fields_of r)))"
  by (simp add: hist_map_def)

lemma hist_map_add: "hist_map rs m = m ++ hist_map rs Map.empty"
proof (induction rs arbitrary: m)
  case (Cons r rs)
  let ?u = "[th_date r \<mapsto> snd (fields_of r)]"
  have "hist_map (r # rs) m = m(th_date r \<mapsto> snd (fields_of r)) ++ hist_map rs Map.empty"
    by (simp only: hist_map_Cons Cons.IH [of "m(th_date r \<mapsto> snd (fields_of r))"])
  moreover have "hist_map (r # rs) Map.empty = ?u ++ hist_map rs Map.empty"
    by (simp only: hist_map_Cons Cons.IH [of ?u])
  moreover have "m(th_date r \<mapsto> snd (fields_of r)) = m ++ ?u"
    by simp
  ultimately show ?case
    by (simp only: map_add_assoc)
qed (simp add: hist_map_def)

lemma hist_map_append: "hist_map (xs @ ys) Map.empty = hist_map xs Map.empty ++ hist_map ys Map.empty"
  using hist_map_add [of ys "hist_map xs Map.empty"] by (simp add: hist_map_def)

lemma merge_v1_map_of:
  assumes "sequence_r (map (parse_response xml_parse) resps) = Inr rss"
  shows "\<exists>d. merge_v1 xml_parse (map Some resps) out = Inr d \<and>
             map_of d = map_of out ++ hist_map (concat rss) Map.empty"
  using assms
proof (induction resps arbitrary: rss out)
  case Nil
  then show ?case by (simp add: hist_map_def)
next
  case (Cons resp resps)
  obtain rs rss' where rss: "rss = rs # rss'" and p: "parse_response xml_parse resp = Inr rs"
    and ps: "sequence_r (map (parse_response xml_parse) resps) = Inr rss'"
    using Cons.prems by (auto simp: bindE_Inr_iff)
  obtain root where root: "xml_parse (content resp) = Inr root" "parse_traffic_history root = Inr rs"
    using p by (auto simp: parse_response_def bindE_Inr_iff)
  let ?d = "fold (\<lambda>r. AList.update (th_date r) (snd (fields_of r))) rs []"
  have v1: "parse_traffic_history_v1 root = Inr ?d"
    using root(2) by (simp add: parse_traffic_history_v1_def parse_traffic_history_def parse_loop_v1_eq)
  have "distinct (map fst ?d)" by (rule distinct_fold_update) simp
  then have m: "map_of (dict_update out ?d) = map_of out ++ hist_map rs Map.empty"
    by (simp add: map_of_dict_update map_of_fold_update)
  obtain d where "merge_v1 xml_parse (map Some resps) (dict_update out ?d) = Inr d"
    "map_of d = map_of (dict_update out ?d) ++ hist_map (concat rss') Map.empty"
    using Cons.IH [OF ps] by blast
  moreover have "hist_map rs Map.empty ++ hist_map (concat rss') Map.empty = hist_map (rs @ concat rss') Map.empty"
    by (rule hist_map_append [symmetric])
  ultimately have "merge_v1 xml_parse (map Some (resp # resps)) out = Inr d \<and>
      map_of d = map_of out ++ hist_map (concat rss) Map.empty"
    using root(1) v1 m rss by (simp add: map_add_assoc [symmetric] del: map_add_assoc)
  then show ?case by blast
qed

lemma grequests_map_Inr: "map send reqs = map Inr resps \<Longrightarrow> grequests_map send reqs = Inr (map Some resps)"
proof (induction reqs arbitrary: resps)
  case (Cons r reqs)
  then obtain v vs where "resps = v # vs" "send r = Inr v" "map send reqs = map Inr vs"
    by (cases resps) auto
  with Cons.IH show ?case by (simp add: grequests_map_def)
qed (simp add: grequests_map_def)

lemma parse_response_served:
  "xml_parse (content resp) = Inr (history_response AWS_TAG rs) \<Longrightarrow> parse_response xml_parse resp = Inr rs"
  by (simp add: parse_response_def parse_traffic_history_def iter_history_response comp_def parse_data_el)

lemma map_sum_Inr_iff: "map_sum f g x = Inr y \<longleftrightarrow> (\<exists>z. x = Inr z \<and> y = g z)"
  by (cases x) auto

text \<open>
  C4: If every request is answered and each answer is a TrafficHistory document listing
  some records, traffic_history returns (it never blocks) and gives, when the arguments
  are valid, the concatenation of the records answered to each sub-request in
  submission order, and otherwise the planner's error.
\<close>

theorem traffic_history_end_to_end:
  assumes "\<forall>req. send req = Inr (serve req)"
    and "\<forall>req. xml_parse (content (serve req)) = Inr (history_response AWS_TAG (answer req))"
  shows "traffic_history_v2 c self clock send xml_parse today url sr sd reverse =
           Some (map_sum id
                   (\<lambda>queries. concat (map (\<lambda>i. answer (create_request c self (fst (clock i)) (snd (clock i)) (queries ! i)))
                                          [0..<length queries]))
                   (traffic_history_plan range_errors_v2 today url sr sd reverse))"
proof (cases "traffic_history_plan range_errors_v2 today url sr sd reverse")
  case (Inr queries)
  let ?req = "\<lambda>i. create_request c self (fst (clock i)) (snd (clock i)) (queries ! i)"
  let ?is = "[0..<length queries]"
  have "map (history_job c self clock send queries) ?is = map Inr (map (\<lambda>i. serve (?req i)) ?is)"
    using assms(1) by (simp add: history_job_def)
  then have s1: "sequence_r (map (history_job c self clock send queries) ?is) = Inr (map (\<lambda>i. serve (?req i)) ?is)"
    by (simp only: sequence_r_map_Inr)
  have "map (parse_response xml_parse) (map (\<lambda>i. serve (?req i)) ?is) = map Inr (map (\<lambda>i. answer (?req i)) ?is)"
    using assms(2) by (simp add: parse_response_served)
  then have s2: "sequence_r (map (parse_response xml_parse) (map (\<lambda>i. serve (?req i)) ?is)) =
      Inr (map (\<lambda>i. answer (?req i)) ?is)"
    by (simp only: sequence_r_map_Inr)
  show ?thesis
    by (simp only: traffic_history_v2_seq traffic_history_seq_def Inr bindE_simps s1 s2) simp
qed (simp add: traffic_history_v2_def)

text \<open>
  C17: Whenever v2 traffic_history (with region us-west-1) returns a list of records,
  v1 traffic_history on the same inputs returns a dictionary that maps each date to the
  fields of the last record with that date.
\<close>

theorem traffic_history_v1_matches_v2:
  assumes "traffic_history_v2 c (awis_init aid secret ''us-west-1'') clock send xml_parse today url sr sd reverse = Some (Inr rs)"
  shows "\<exists>d. traffic_history_v1 c (awis_init_v1 aid secret) clock send xml_parse today url sr sd reverse = Inr d \<and>
             map_of d = fold (\<lambda>r m. m(th_date r \<mapsto> snd (fields_of r))) rs Map.empty"
proof -
  let ?self = "awis_init aid secret ''us-west-1''"
  obtain queries resps rss where plan: "traffic_history_plan range_errors_v2 today url sr sd reverse = Inr queries"
    and js: "sequence_r (map (history_job c ?self clock send queries) [0..<length queries]) = Inr resps"
    and ps: "sequence_r (map (parse_response xml_parse) resps) = Inr rss" and rs: "rs = concat rss"
    using assms by (auto simp: traffic_history_v2_seq traffic_history_seq_def bindE_Inr_iff map_sum_Inr_iff)
  have v1: "create_request_v1 c aid secret n1 n2 q = create_request c ?self n1 n2 q" for n1 n2 q
    by (rule create_request_v1_as_v2)
  let ?reqs = "map (\<lambda>i. create_request_v1 c aid secret (fst (clock i)) (snd (clock i)) (queries ! i)) [0..<length queries]"
  have hj: "map (history_job c ?self clock send queries) [0..<length queries] = map send ?reqs"
    by (simp add: history_job_def v1)
  have "map send ?reqs = map Inr resps"
    using js unfolding hj by (simp add: sequence_r_Inr_iff)
  then have g: "grequests_map send ?reqs = Inr (map Some resps)"
    by (rule grequests_map_Inr)
  obtain d where "merge_v1 xml_parse (map Some resps) [] = Inr d" "map_of d = hist_map (concat rss) Map.empty"
    using merge_v1_map_of [OF ps, of "[]"] by auto
  then show ?thesis
    using plan_errs_Inr [OF plan, of range_errors_v1] g rs
    by (simp add: traffic_history_v1_def hist_map_def awis_init_v1_def)
qed

text \<open>
  C21: v1 url_info rejects response groups outside the valid set with NameError before
  any request is built or sent; with valid groups it sends one signed urlInfo request
  and returns the raw response content, or raises TypeError from the exception handler
  when the request fails.
\<close>

theorem url_info_v1_validation:
  "url_info_v1 c (awis_init_v1 aid secret) now send groups url =
     (if set groups \<subseteq> set VALID_RESPONSE_GROUPS
      then (case send (create_request_v1 c aid secret (fst now) (snd now) (url_info_query (join '','' groups) url)) of
              Inr response \<Rightarrow> Inr (content response)
            | Inl _ \<Rightarrow> Inl (TypeError ''exception_handler() takes 0 positional arguments but 2 were given''))
      else Inl (NameError ''Not all response groups are valid''))"
  by (simp add: url_info_v1_def awis_init_v1_def grequests_map_def exception_handler_def Let_def parse_url_info_v1_def
      digit_char_def DIGITS_def split: sum.split)

subsection \<open>Witnesses\<close>

lemma traffic_history_end_to_end_witness:
  "traffic_history_v2 id_crypto (awis_init ''AKID'' ''secret'' ''us-west-1'') (\<lambda>_. (example_now, example_now))
     (\<lambda>_. Inr \<lparr>content = []\<rparr>) (\<lambda>_. Inr (history_response AWS_TAG [example_record]))
     737425 ''example.com'' 45 (Some ''20191001'') False =
   Some (map_sum id (\<lambda>queries. concat (map (\<lambda>i. [example_record]) [0..<length queries]))
     (traffic_history_plan range_errors_v2 737425 ''example.com'' 45 (Some ''20191001'') False))"
  using traffic_history_end_to_end [where serve = "\<lambda>_. \<lparr>content = []\<rparr>" and answer = "\<lambda>_. [example_record]",
      of "\<lambda>_. Inr \<lparr>content = []\<rparr>" "\<lambda>_. Inr (history_response AWS_TAG [example_record])" id_crypto
      "awis_init ''AKID'' ''secret'' ''us-west-1''" "\<lambda>_. (example_now, example_now)" 737425 "''example.com''" 45
      "Some ''20191001''" False]
  by simp

lemma example_plan:
  "traffic_history_plan errs 737425 ''example.com'' 45 (Some ''20191001'') False =
     Inr [history_query ''example.com'' 31 737333, history_query ''example.com'' 14 737364]"
proof -
  have v: "valid_date 737425" by (simp add: valid_date_def MAXORDINAL_def)
  have s: "start_of 737425 45 (Some ''20191001'') False = Inr 737333"
    by (simp add: start_of_def date_eval_simps)
  have "plan_spans 45 = [31, 14]"
    by (simp add: plan_spans_eq num_requests_of_def MAX_SEARCH_RANGE_def numeral_eq_Suc)
  then show ?thesis
    using traffic_history_plan_windows [of 45 737425 "Some ''20191001''" False 737333 errs "''example.com''"] v s
    by simp
qed

lemma traffic_history_v1_matches_v2_witness:
  "traffic_history_v2 id_crypto (awis_init ''AKID'' ''secret'' ''us-west-1'') (\<lambda>_. (example_now, example_now))
     (\<lambda>_. Inr \<lparr>content = []\<rparr>) (\<lambda>_. Inr (history_response AWS_TAG [example_record]))
     737425 ''example.com'' 45 (Some ''20191001'') False = Some (Inr [example_record, example_record]) \<and>
   (\<exists>d. traffic_history_v1 id_crypto (awis_init_v1 ''AKID'' ''secret'') (\<lambda>_. (example_now, example_now))
     (\<lambda>_. Inr \<lparr>content = []\<rparr>) (\<lambda>_. Inr (history_response AWS_TAG [example_record]))
     737425 ''example.com'' 45 (Some ''20191001'') False = Inr d \<and>
     map_of d = fold (\<lambda>r m. m(th_date r \<mapsto> snd (fields_of r))) [example_record, example_record] Map.empty)"
proof -
  have p: "parse_response (\<lambda>_. Inr (history_response AWS_TAG [example_record])) \<lparr>content = []\<rparr> = Inr [example_record]"
    by (rule parse_response_served) simp
  have v2: "traffic_history_v2 id_crypto (awis_init ''AKID'' ''secret'' ''us-west-1'') (\<lambda>_. (example_now, example_now))
     (\<lambda>_. Inr \<lparr>content = []\<rparr>) (\<lambda>_. Inr (history_response AWS_TAG [example_record]))
     737425 ''example.com'' 45 (Some ''20191001'') False = Some (Inr [example_record, example_record])"
    by (simp add: traffic_history_v2_seq traffic_history_seq_def example_plan history_job_def p numeral_eq_Suc)
  show ?thesis
    using traffic_history_v1_matches_v2 [OF v2] v2 by simp
qed

end
