(* ===== verification/Calendar_Table.thy ===== *)
theory Calendar_Table
  imports Dates
begin

text \<open>
  The month-and-day step of CPython's \<open>_ord2ymd\<close> (\<open>ord2ymd\<close> of \<open>Dates\<close>) and its
  check for all 365 day offsets of a year, leap and common, by evaluation. \<open>Calendar\<close>
  builds the correctness of the calendar conversions on it.
\<close>

text \<open>The month-and-day step of \<open>_ord2ymd\<close>, for a day offset \<open>r1\<close> within the year.\<close>

definition month_day :: "bool \<Rightarrow> int \<Rightarrow> int \<times> int" where
  "month_day leapyear r1 =
     (let month = (r1 + 50) div 32;
          preceding = DAYS_BEFORE_MONTH ! nat month + (if 2 < month \<and> leapyear then 1 else 0)
      in if r1 < preceding
         then (let month' = month - 1;
                   preceding' = preceding -
                     (DAYS_IN_MONTH ! nat month' + (if month' = 2 \<and> leapyear then 1 else 0))
               in (month', r1 - preceding' + 1))
         else (month, r1 - preceding + 1))"

definition month_day_ok :: "bool \<Rightarrow> int \<Rightarrow> bool" where
  "month_day_ok leapyear r1 =
     (case month_day leapyear r1 of
        (m, d) \<Rightarrow> 1 \<le> m \<and> m \<le> 12 \<and> 1 \<le> d \<and>
                  d \<le> (if m = 2 \<and> leapyear then 29 else DAYS_IN_MONTH ! nat m) \<and>
                  DAYS_BEFORE_MONTH ! nat m + (if 2 < m \<and> leapyear then 1 else 0) + d = r1 + 1)"

lemma month_day_all: "list_all (\<lambda>r. month_day_ok True (int r) \<and> month_day_ok False (int r)) [0..<365]"
  by code_simp

lemma month_day_ok_year: "0 \<le> r1 \<Longrightarrow> r1 < 365 \<Longrightarrow> month_day_ok leapyear r1"
proof -
  assume "0 \<le> r1" "r1 < 365"
  then have "nat r1 \<in> set [0..<365]" "int (nat r1) = r1" by auto
  moreover have "\<forall>r \<in> set [0..<365]. month_day_ok True (int r) \<and> month_day_ok False (int r)"
    using month_day_all by (simp only: list_all_iff)
  ultimately have "month_day_ok True r1 \<and> month_day_ok False r1"
    by metis
  then show ?thesis by (cases leapyear) simp_all
qed

end
