(* ===== verification/Calendar.thy ===== *)
theory Calendar
  imports Calendar_Table
begin

text \<open>
  Correctness of the calendar conversions of \<open>Dates\<close>: CPython's \<open>_ord2ymd\<close> inverts
  \<open>_ymd2ord\<close> on every valid date and gives a valid year, month and day, and
  \<open>strptime('%Y%m%d')\<close> reads back what \<open>strftime('%Y%m%d')\<close> prints for every date
  from the year 1000 on (earlier years print fewer than four digits). The years follow
  from the 400/100/4/1-year decomposition of the ordinal, the month and day from the
  table check of \<open>Calendar_Table\<close>. These are facts of the Python library the client
  calls; the properties in \<open>Spec2Isabelle\<close> use them for the dates the client prints
  and reads back.
\<close>

lemma div_mod_unique_int:
  fixes k q r :: int
  assumes "0 \<le> r" "r < k"
  shows "(k * q + r) div k = q" "(k * q + r) mod k = r"
  using assms by (simp_all add: div_pos_pos_trivial mod_pos_pos_trivial)

lemma days_before_year_decomp:
  fixes a b c d :: int
  assumes "0 \<le> b" "b \<le> 3" "0 \<le> c" "c \<le> 24" "0 \<le> d" "d \<le> 3"
  shows "days_before_year (400 * a + 100 * b + 4 * c + d + 1) = 146097 * a + 36524 * b + 1461 * c + 365 * d"
proof -
  define Y where "Y = 400 * a + 100 * b + 4 * c + d"
  have "Y = 4 * (100 * a + 25 * b + c) + d" by (simp add: Y_def)
  then have q4: "Y div 4 = 100 * a + 25 * b + c"
    using div_mod_unique_int(1) [of d 4 "100 * a + 25 * b + c"] assms by simp
  have "Y = 100 * (4 * a + b) + (4 * c + d)" by (simp add: Y_def)
  then have q100: "Y div 100 = 4 * a + b"
    using div_mod_unique_int(1) [of "4 * c + d" 100 "4 * a + b"] assms by simp
  have "Y = 400 * a + (100 * b + 4 * c + d)" by (simp add: Y_def)
  then have q400: "Y div 400 = a"
    using div_mod_unique_int(1) [of "100 * b + 4 * c + d" 400 a] assms by simp
  have "days_before_year (Y + 1) = Y * 365 + Y div 4 - Y div 100 + Y div 400"
    by (simp add: days_before_year_def)
  also have "\<dots> = 146097 * a + 36524 * b + 1461 * c + 365 * d"
    unfolding q4 q100 q400 by (simp add: Y_def algebra_simps)
  finally show ?thesis by (simp add: Y_def)
qed

lemma mod_range_zero:
  fixes r k :: int
  assumes "1 \<le> r" "r \<le> k"
  shows "r mod k = 0 \<longleftrightarrow> r = k"
proof (cases "r = k")
  case False
  then have "r mod k = r" using assms by (simp add: mod_pos_pos_trivial)
  then show ?thesis using assms False by simp
qed simp

lemma is_leap_decomp:
  fixes a b c e :: int
  assumes "0 \<le> b" "b \<le> 3" "0 \<le> c" "c \<le> 24" "0 \<le> e" "e \<le> 3"
  shows "is_leap (400 * a + 100 * b + 4 * c + e + 1) \<longleftrightarrow> e = 3 \<and> (c \<noteq> 24 \<or> b = 3)"
proof -
  define y where "y = 400 * a + 100 * b + 4 * c + e + 1"
  have "y = (e + 1) + 4 * (100 * a + 25 * b + c)" by (simp add: y_def)
  then have m4: "y mod 4 = (e + 1) mod 4" by (metis mod_mult_self2)
  have "y = (4 * c + e + 1) + 100 * (4 * a + b)" by (simp add: y_def)
  then have m100: "y mod 100 = (4 * c + e + 1) mod 100" by (metis mod_mult_self2)
  have "y = (100 * b + 4 * c + e + 1) + 400 * a" by (simp add: y_def)
  then have m400: "y mod 400 = (100 * b + 4 * c + e + 1) mod 400" by (metis mod_mult_self2)
  have "y mod 4 = 0 \<longleftrightarrow> e = 3"
    unfolding m4 using mod_range_zero [of "e + 1" 4] assms by simp
  moreover have "4 * c + e + 1 = 100 \<longleftrightarrow> c = 24 \<and> e = 3"
    using assms by presburger
  then have "y mod 100 = 0 \<longleftrightarrow> c = 24 \<and> e = 3"
    unfolding m100 using mod_range_zero [of "4 * c + e + 1" 100] assms by simp
  moreover have "100 * b + 4 * c + e + 1 = 400 \<longleftrightarrow> b = 3 \<and> c = 24 \<and> e = 3"
    using assms by presburger
  then have "y mod 400 = 0 \<longleftrightarrow> b = 3 \<and> c = 24 \<and> e = 3"
    unfolding m400 using mod_range_zero [of "100 * b + 4 * c + e + 1" 400] assms by simp
  ultimately show ?thesis
    by (auto simp: is_leap_def y_def)
qed

lemma ord2ymd_split:
  "ord2ymd n =
     (let n0 = n - 1; a = n0 div 146097; b = n0 mod 146097 div 36524;
          c = n0 mod 146097 mod 36524 div 1461; e = n0 mod 146097 mod 36524 mod 1461 div 365;
          r1 = n0 mod 146097 mod 36524 mod 1461 mod 365;
          year = a * 400 + 1 + b * 100 + c * 4 + e
      in if e = 4 \<or> b = 4 then (year - 1, 12, 31)
         else (year, month_day (e = 3 \<and> (c \<noteq> 24 \<or> b = 3)) r1))"
proof -
  have pair_if: "\<And>x c p q. (x, if c then p else q) = (if c then (x, p) else (x, q))" by simp
  show ?thesis
    by (simp only: ord2ymd_def month_day_def DI400Y_def DI100Y_def DI4Y_def Let_def pair_if)
qed

lemma ymd2ord_month_day:
  assumes "month_day_ok (is_leap y) r1" "month_day (is_leap y) r1 = (m, d)"
  shows "1 \<le> m \<and> m \<le> 12 \<and> 1 \<le> d \<and> d \<le> days_in_month y m \<and>
         ymd2ord y m d = days_before_year y + r1 + 1"
  using assms by (auto simp: month_day_ok_def days_in_month_def ymd2ord_def days_before_month_def)

lemma ord2ymd_correct:
  assumes "1 \<le> n" "ord2ymd n = (y, m, d)"
  shows "1 \<le> y \<and> 1 \<le> m \<and> m \<le> 12 \<and> 1 \<le> d \<and> d \<le> days_in_month y m \<and>
         ymd2ord y m d = n \<and> n \<le> days_before_year (y + 1)"
proof -
  define n0 where "n0 = n - 1"
  define r400 where "r400 = n0 mod 146097"
  define r100 where "r100 = r400 mod 36524"
  define r4 where "r4 = r100 mod 1461"
  define a where "a = n0 div 146097"
  define b where "b = r400 div 36524"
  define c where "c = r100 div 1461"
  define e where "e = r4 div 365"
  define r1 where "r1 = r4 mod 365"
  have e0: "n0 = 146097 * a + r400" by (simp add: a_def r400_def)
  have e1: "r400 = 36524 * b + r100" by (simp add: b_def r100_def)
  have e2: "r100 = 1461 * c + r4" by (simp add: c_def r4_def)
  have e3: "r4 = 365 * e + r1" by (simp add: e_def r1_def)
  have bd: "0 \<le> r400" "r400 < 146097" "0 \<le> r100" "r100 < 36524" "0 \<le> r4" "r4 < 1461"
    "0 \<le> r1" "r1 < 365"
    by (simp_all add: r400_def r100_def r4_def r1_def)
  have a0: "0 \<le> a" using assms(1) by (simp add: a_def n0_def)
  have b0: "0 \<le> b" "b \<le> 4" using e1 bd by (simp add: b_def, linarith)
  have c0: "0 \<le> c" "c \<le> 24" using e2 bd by (simp add: c_def, linarith)
  have d0: "0 \<le> e" "e \<le> 4" using e3 bd by (simp add: e_def, linarith)
  have n: "n = 146097 * a + 36524 * b + 1461 * c + 365 * e + r1 + 1"
    using e0 e1 e2 e3 by (simp add: n0_def)
  have sp: "ord2ymd n = (if e = 4 \<or> b = 4 then (a * 400 + 1 + b * 100 + c * 4 + e - 1, 12, 31)
                         else (a * 400 + 1 + b * 100 + c * 4 + e, month_day (e = 3 \<and> (c \<noteq> 24 \<or> b = 3)) r1))"
    unfolding ord2ymd_split Let_def n0_def [symmetric] r400_def [symmetric] r100_def [symmetric]
      r4_def [symmetric] a_def [symmetric] b_def [symmetric] c_def [symmetric] e_def [symmetric]
      r1_def [symmetric] ..
  show ?thesis
  proof (cases "e = 4 \<or> b = 4")
    case False
    let ?year = "400 * a + 100 * b + 4 * c + e + 1"
    have b3: "b \<le> 3" and d3: "e \<le> 3" using False b0 d0 by auto
    have leap: "is_leap ?year \<longleftrightarrow> e = 3 \<and> (c \<noteq> 24 \<or> b = 3)"
      by (rule is_leap_decomp) (use b0 b3 c0 d0 d3 in auto)
    have y: "y = ?year" and md: "month_day (is_leap ?year) r1 = (m, d)"
      using assms(2) False leap by (simp_all add: sp algebra_simps)
    have ok: "month_day_ok (is_leap ?year) r1" by (rule month_day_ok_year) (use bd in auto)
    have dby: "days_before_year ?year = 146097 * a + 36524 * b + 1461 * c + 365 * e"
      by (rule days_before_year_decomp) (use b0 b3 c0 d0 d3 in auto)
    have "days_before_year (?year + 1) = days_before_year ?year + 365 + (if is_leap ?year then 1 else 0)"
      by (rule days_before_year_step)
    then show ?thesis
      using ymd2ord_month_day [OF ok md] dby n bd a0 b0 c0 d0 y by auto
  next
    case True
    have y: "y = 400 * a + 100 * b + 4 * c + e" and m: "m = 12" and d: "d = 31"
      using assms(2) True by (simp_all add: sp algebra_simps)
    show ?thesis
    proof (cases "b = 4")
      case True
      then have "r400 = 146096" using e1 bd by linarith
      then have z: "c = 0" "e = 0" "r1 = 0" using e1 e2 e3 bd c0 d0 True by linarith+
      have y': "y = 400 * a + 100 * 3 + 4 * 24 + 3 + 1" using y z True by simp
      have "is_leap y" unfolding y' by (subst is_leap_decomp) auto
      moreover have "days_before_year y = 146097 * a + 36524 * 3 + 1461 * 24 + 365 * 3"
        unfolding y' by (rule days_before_year_decomp) auto
      moreover have "days_before_year (y + 1) = 146097 * (a + 1) + 36524 * 0 + 1461 * 0 + 365 * 0"
        using days_before_year_decomp [of 0 0 0 "a + 1"] y' by (simp add: algebra_simps)
      ultimately show ?thesis
        using n z True m d a0 y'
        by (simp add: ymd2ord_def days_before_month_def days_in_month_def DAYS_BEFORE_MONTH_def DAYS_IN_MONTH_def)
    next
      case False
      with \<open>e = 4 \<or> b = 4\<close> have e4: "e = 4" by simp
      then have z: "r1 = 0" "c \<le> 23" using e2 e3 bd by linarith+
      have b3: "b \<le> 3" using False b0 by simp
      have y': "y = 400 * a + 100 * b + 4 * c + 3 + 1" using y e4 by simp
      have "is_leap y" unfolding y' by (subst is_leap_decomp) (use b0 b3 c0 z in auto)
      moreover have "days_before_year y = 146097 * a + 36524 * b + 1461 * c + 365 * 3"
        unfolding y' by (rule days_before_year_decomp) (use b0 b3 c0 in auto)
      moreover have "days_before_year (y + 1) = 146097 * a + 36524 * b + 1461 * (c + 1) + 365 * 0"
        using days_before_year_decomp [of b "c + 1" 0 a] y' b0 b3 c0 z by (simp add: algebra_simps)
      ultimately show ?thesis
        using n z e4 m d a0 b0 c0 y'
        by (simp add: ymd2ord_def days_before_month_def days_in_month_def DAYS_BEFORE_MONTH_def DAYS_IN_MONTH_def)
    qed
  qed
qed

lemma ord2ymd_year_le:
  assumes "valid_date n" "ord2ymd n = (y, m, d)"
  shows "y \<le> 9999"
proof (rule ccontr)
  assume "\<not> y \<le> 9999"
  then have "days_before_year 10000 \<le> days_before_year y" by (simp add: days_before_year_mono)
  moreover have "days_before_year 10000 = 3652059" by (simp add: days_before_year_def)
  moreover have "1 \<le> m \<and> m \<le> 12 \<and> 1 \<le> d \<and> ymd2ord y m d = n"
    using ord2ymd_correct [of n y m d] assms by (simp add: valid_date_def)
  ultimately show False
    using days_before_month_bounds [of m y] assms(1) by (auto simp: ymd2ord_def valid_date_def MAXORDINAL_def)
qed

lemma day_cases:
  fixes d :: int
  assumes "1 \<le> d" "d \<le> 31"
  shows "d \<in> set [1..31]"
  using assms by simp

lemma day_part:
  assumes "1 \<le> d" "d \<le> 31"
  shows "first_some (\<lambda>da. map_option (\<lambda>(d', r2). (y, m, d', r2)) (da (pad2 d))) day_alts = Some (y, m, d, [])"
proof -
  have "\<forall>d \<in> set [1..31]. first_some (\<lambda>da. map_option (\<lambda>(d', r2). (y, m, d', r2)) (da (pad2 d))) day_alts = Some (y, m, d, [])"
    by (simp add: upto.simps day_alts_def pad2_def show_int_def show_nat_large digit_char_def DIGITS_def
        digit_in_def read_digits_def digit_val_def is_dec_digit_def)
  then show ?thesis using day_cases [OF assms] by blast
qed

lemma month_part:
  assumes "1 \<le> m" "m \<le> 12" "F m t = Some v"
  shows "first_some (\<lambda>ma. case ma (pad2 m @ t) of None \<Rightarrow> None | Some (m', r1) \<Rightarrow> F m' r1) month_alts = Some v"
proof -
  have "\<forall>m \<in> set [1..12]. F m t = Some v \<longrightarrow>
          first_some (\<lambda>ma. case ma (pad2 m @ t) of None \<Rightarrow> None | Some (m', r1) \<Rightarrow> F m' r1) month_alts = Some v"
    by (simp add: upto.simps month_alts_def pad2_def show_int_def show_nat_large digit_char_def DIGITS_def
        digit_in_def read_digits_def digit_val_def is_dec_digit_def)
  moreover have "m \<in> set [1..12]" using assms by simp
  ultimately show ?thesis using assms(3) by blast
qed

lemma show_nat_four_digits:
  assumes "1000 \<le> k" "k < 10000"
  shows "\<exists>a b c d. show_nat k = [a, b, c, d]"
proof -
  have "\<not> k div 10 div 10 < 10" "\<not> k div 10 < 10" "k div 10 div 10 div 10 < 10" "\<not> k < 10"
    using assms by (simp_all add: div_mult2_eq)
  then show ?thesis
    by (simp add: show_nat_large [of k] show_nat_large [of "k div 10"] show_nat_large [of "k div 10 div 10"])
qed

lemma year_part:
  assumes "1000 \<le> y" "y \<le> 9999"
  shows "year_re (show_int y @ t) = Some (y, t)"
proof -
  have k: "1000 \<le> nat y" "nat y < 10000" using assms by auto
  obtain a b c d where abcd: "show_nat (nat y) = [a, b, c, d]"
    using show_nat_four_digits [OF k] by blast
  have "set [a, b, c, d] \<subseteq> set DIGITS"
    using set_show_nat [of "nat y"] abcd by simp
  then have "list_all is_dec_digit [a, b, c, d]" by (simp add: is_dec_digit_def)
  moreover have "int (read_digits [a, b, c, d]) = y"
    using read_show_nat [of "nat y"] abcd assms by simp
  ultimately show ?thesis
    using assms abcd by simp
qed

lemma ord2ymd_year_ge:
  assumes "valid_date n" "364878 \<le> n" "ord2ymd n = (y, m, d)"
  shows "1000 \<le> y"
proof (rule ccontr)
  assume "\<not> 1000 \<le> y"
  then have "days_before_year (y + 1) \<le> days_before_year 1000" by (simp add: days_before_year_mono)
  moreover have "days_before_year 1000 = 364877" by (simp add: days_before_year_def)
  moreover have "n \<le> days_before_year (y + 1)"
    using ord2ymd_correct [OF _ assms(3)] assms(1) by (simp add: valid_date_def)
  ultimately show False using assms(2) by simp
qed

lemma days_in_month_le: "1 \<le> m \<Longrightarrow> m \<le> 12 \<Longrightarrow> days_in_month y m \<le> 31"
  by (drule (1) month_cases) (auto simp: days_in_month_def DAYS_IN_MONTH_def)

lemma pad2_two_digits: "0 \<le> i \<Longrightarrow> i < 100 \<Longrightarrow> length (pad2 i) = 2 \<and> set (pad2 i) \<subseteq> set DIGITS"
proof -
  assume i: "0 \<le> i" "i < 100"
  have "nat i div 10 < 10" using i by simp
  then show ?thesis
    using i digit_char_is_dec_digit [of "nat i"] digit_char_is_dec_digit [of "nat i div 10"]
      digit_char_is_dec_digit [of "nat i mod 10"]
    by (auto simp: pad2_def show_nat_large [of "nat i"] is_dec_digit_def DIGITS_def nat_less_iff)
qed

lemma strftime_Ymd_digits:
  assumes "valid_date n" "364878 \<le> n"
  shows "length (strftime_Ymd n) = 8 \<and> set (strftime_Ymd n) \<subseteq> set DIGITS"
proof -
  obtain y m d where ymd: "ord2ymd n = (y, m, d)" by (cases "ord2ymd n") auto
  have c: "1 \<le> m \<and> m \<le> 12 \<and> 1 \<le> d \<and> d \<le> days_in_month y m \<and> n \<le> days_before_year (y + 1)"
    using ord2ymd_correct [OF _ ymd] assms by (simp add: valid_date_def)
  have y9: "y \<le> 9999" by (rule ord2ymd_year_le [OF assms(1) ymd])
  have y1: "1000 \<le> y" by (rule ord2ymd_year_ge [OF assms ymd])
  have k: "1000 \<le> nat y" "nat y < 10000" using y1 y9 by auto
  obtain a b cc dd where abcd: "show_nat (nat y) = [a, b, cc, dd]"
    using show_nat_four_digits [OF k] by blast
  have "set (show_int y) \<subseteq> set DIGITS" using set_show_nat [of "nat y"] y1 by simp
  moreover have "length (show_int y) = 4" using abcd y1 by simp
  moreover have "length (pad2 m) = 2 \<and> set (pad2 m) \<subseteq> set DIGITS" using c by (simp add: pad2_two_digits)
  moreover have "length (pad2 d) = 2 \<and> set (pad2 d) \<subseteq> set DIGITS"
    using c days_in_month_le [of m y] by (simp add: pad2_two_digits)
  ultimately show ?thesis using ymd by (simp add: strftime_Ymd_def)
qed

lemma strftime_Ymd_strptime:
  assumes "valid_date n" "364878 \<le> n"
  shows "strptime_date (strftime_Ymd n) = Inr n"
proof -
  obtain y m d where ymd: "ord2ymd n = (y, m, d)" by (cases "ord2ymd n") auto
  have c: "1 \<le> y \<and> 1 \<le> m \<and> m \<le> 12 \<and> 1 \<le> d \<and> d \<le> days_in_month y m \<and>
           ymd2ord y m d = n \<and> n \<le> days_before_year (y + 1)"
    using ord2ymd_correct [OF _ ymd] assms by (simp add: valid_date_def)
  have y9: "y \<le> 9999" by (rule ord2ymd_year_le [OF assms(1) ymd])
  have y1: "1000 \<le> y" by (rule ord2ymd_year_ge [OF assms ymd])
  have d31: "d \<le> 31" using c days_in_month_le [of m y] by simp
  have "strptime_match (show_int y @ pad2 m @ pad2 d) = Some (y, m, d, [])"
    unfolding strptime_match_def year_part [OF y1 y9]
    by (simp add: month_part [where F = "\<lambda>m' r1. first_some (\<lambda>da. map_option (\<lambda>(d', r2). (y, m', d', r2)) (da r1)) day_alts"]
                  day_part c d31)
  then show ?thesis
    using c ymd by (simp add: strftime_Ymd_def strptime_date_def)
qed

end
