(* ===== verification/Packaging.thy ===== *)
theory Packaging
  imports Awis_Prelude
begin

text \<open>
  The packaging descriptor \<open>src/setup.py\<close>: the arguments of its \<open>setup()\<close> call, the
  package list computed by setuptools' \<open>find_packages()\<close>, and the modules that
  \<open>build_py\<close> then installs. A source tree is the list of its files' paths relative to
  the directory of \<open>setup.py\<close> (where \<open>pip\<close> runs it), in directory-listing
  order; a path is the list of its components.
\<close>

type_synonym path = "string list"

subsection \<open>\<open>setuptools.find_packages()\<close>\<close>

text \<open>
  The subdirectories of a directory \<open>p\<close> that \<open>os.walk\<close> lists: those on the path of
  some file below \<open>p\<close>.
\<close>

definition subdirs :: "path list \<Rightarrow> path \<Rightarrow> string list" where
  "subdirs tree p = remdups [f ! length p. f \<leftarrow> tree, take (length p) f = p \<and> Suc (length p) < length f]"

text \<open>\<open>PackageFinder._looks_like_package\<close>: the directory holds an \<open>__init__.py\<close>.\<close>

definition looks_like_package :: "path list \<Rightarrow> path \<Rightarrow> bool" where
  "looks_like_package tree q = (q @ [''__init__.py''] \<in> set tree)"

text \<open>
  \<open>PackageFinder._find_iter\<close>: at each directory of the walk, a subdirectory whose name
  has no dot and which looks like a package is yielded under its dotted name and kept
  for the walk; the others are pruned. \<open>os.walk\<close> is top-down: the packages among a
  directory's subdirectories come before those found below them. The default
  \<open>include=('*',)\<close> and \<open>exclude=()\<close> filter nothing. The walk descends at most
  \<open>n\<close> levels; the depth of the deepest file is enough.
\<close>

fun walk :: "nat \<Rightarrow> path list \<Rightarrow> path \<Rightarrow> string list" where
  "walk 0 tree p = []"
| "walk (Suc n) tree p =
     (let ds = filter (\<lambda>d. CHR ''.'' \<notin> set d \<and> looks_like_package tree (p @ [d])) (subdirs tree p)
      in map (\<lambda>d. join ''.'' (p @ [d])) ds @ concat (map (\<lambda>d. walk n tree (p @ [d])) ds))"

definition find_packages :: "path list \<Rightarrow> string list" where
  "find_packages tree = walk (foldr max (map length tree) 0) tree []"

text \<open>
  The packages setuptools documents: a dotted path each of whose directories, from the
  top, has a dot-free name and an \<open>__init__.py\<close>.
\<close>

fun pkg_path :: "path list \<Rightarrow> path \<Rightarrow> path \<Rightarrow> bool" where
  "pkg_path tree p [] = True"
| "pkg_path tree p (d # ds) =
     (CHR ''.'' \<notin> set d \<and> looks_like_package tree (p @ [d]) \<and> pkg_path tree (p @ [d]) ds)"

subsection \<open>\<open>setup()\<close> and the installed modules\<close>

record setup_args =
  setup_name :: string
  setup_version :: string
  setup_url :: string
  setup_packages :: "string list"
  install_requires :: "string list"
  python_requires :: string

definition setup_py :: "path list \<Rightarrow> setup_args" where
  "setup_py tree =
     \<lparr>setup_name = ''awis-py'', setup_version = ''0.0.2'', setup_url = ''https://github.com/whistlebee/awis-py'',
      setup_packages = find_packages tree, install_requires = [''requests'', ''lxml''],
      python_requires = ''>=3.6''\<rparr>"

text \<open>\<open>glob('*.py')\<close> on a file name: a \<open>.py\<close> suffix after a name not starting with a dot.\<close>

definition is_py_file :: "string \<Rightarrow> bool" where
  "is_py_file f = (3 < length f \<and> drop (length f - 3) f = ''.py'' \<and> hd f \<noteq> CHR ''.'')"

text \<open>
  \<open>build_py.find_package_modules\<close>: the \<open>*.py\<close> files directly in a package's
  directory (its dotted name with dots as separators; \<open>package_dir\<close> is not given).
  No \<open>py_modules\<close> are passed, so these are all the modules installed.
\<close>

definition package_modules :: "path list \<Rightarrow> string \<Rightarrow> path list" where
  "package_modules tree package =
     [f \<leftarrow> tree. f \<noteq> [] \<and> butlast f = split_on CHR ''.'' package \<and> is_py_file (last f)]"

definition installed_modules :: "path list \<Rightarrow> path list" where
  "installed_modules tree = concat (map (package_modules tree) (setup_packages (setup_py tree)))"

text \<open>The files of the repository under \<open>src/\<close>.\<close>

definition source_tree :: "path list" where
  "source_tree = [[''setup.py''], [''awis.py''], [''awis'', ''awis.py'']]"

subsection \<open>Lemmas\<close>

lemma subdirs_package: "looks_like_package tree (p @ [d]) \<Longrightarrow> d \<in> set (subdirs tree p)"
  unfolding looks_like_package_def subdirs_def
  by (force intro!: bexI [where x = "p @ [d, ''__init__.py'']"])

lemma walk_Suc_set:
  "set (walk (Suc n) tree p) =
     (\<lambda>d. join ''.'' (p @ [d])) ` {d. CHR ''.'' \<notin> set d \<and> looks_like_package tree (p @ [d])} \<union>
     (\<Union>d \<in> {d. CHR ''.'' \<notin> set d \<and> looks_like_package tree (p @ [d])}. set (walk n tree (p @ [d])))"
proof -
  have "set (filter (\<lambda>d. CHR ''.'' \<notin> set d \<and> looks_like_package tree (p @ [d])) (subdirs tree p)) =
        {d. CHR ''.'' \<notin> set d \<and> looks_like_package tree (p @ [d])}"
    using subdirs_package by auto
  then show ?thesis by (simp only: walk.simps Let_def set_append set_map set_concat image_image)
qed

lemma walk_set:
  "set (walk n tree p) = {join ''.'' (p @ q) | q. q \<noteq> [] \<and> length q \<le> n \<and> pkg_path tree p q}"
proof (induction n arbitrary: p)
  case 0
  then show ?case by auto
next
  case (Suc n)
  let ?ok = "\<lambda>d. CHR ''.'' \<notin> set d \<and> looks_like_package tree (p @ [d])"
  show ?case
  proof (rule set_eqI, rule iffI)
    fix x assume "x \<in> set (walk (Suc n) tree p)"
    then consider d where "?ok d" "x = join ''.'' (p @ [d])"
      | d q where "?ok d" "q \<noteq> []" "length q \<le> n" "pkg_path tree (p @ [d]) q" "x = join ''.'' ((p @ [d]) @ q)"
      unfolding walk_Suc_set Suc.IH by blast
    then show "x \<in> {join ''.'' (p @ q) | q. q \<noteq> [] \<and> length q \<le> Suc n \<and> pkg_path tree p q}"
    proof cases
      case 1
      then show ?thesis by (intro CollectI exI [of _ "[d]"]) simp
    next
      case 2
      then show ?thesis by (intro CollectI exI [of _ "d # q"]) simp
    qed
  next
    fix x assume "x \<in> {join ''.'' (p @ q) | q. q \<noteq> [] \<and> length q \<le> Suc n \<and> pkg_path tree p q}"
    then obtain q' where x': "x = join ''.'' (p @ q')" and "q' \<noteq> []" "length q' \<le> Suc n"
      "pkg_path tree p q'"
      by blast
    then obtain d q where "q' = d # q" and x: "x = join ''.'' (p @ d # q)" and q: "length q \<le> n"
      and d: "?ok d" and pq: "pkg_path tree (p @ [d]) q"
      by (cases q') auto
    show "x \<in> set (walk (Suc n) tree p)"
    proof (cases "q = []")
      case True
      then show ?thesis unfolding walk_Suc_set using x d by blast
    next
      case False
      then have "x \<in> set (walk n tree (p @ [d]))" unfolding Suc.IH using x q pq by force
      then show ?thesis unfolding walk_Suc_set using d by blast
    qed
  qed
qed

lemma pkg_path_last:
  "pkg_path tree p q \<Longrightarrow> q \<noteq> [] \<Longrightarrow> looks_like_package tree (p @ q)"
proof (induction q arbitrary: p)
  case (Cons d ds)
  then show ?case using Cons.IH [of "p @ [d]"] by (cases ds) auto
qed simp

lemma length_le_foldr_max: "f \<in> set tree \<Longrightarrow> length f \<le> foldr max (map length tree) (0::nat)"
  by (induction tree) auto

lemma pkg_path_depth:
  assumes "pkg_path tree [] q" "q \<noteq> []"
  shows "length q \<le> foldr max (map length tree) 0"
proof -
  have "q @ [''__init__.py''] \<in> set tree"
    using pkg_path_last [OF assms] by (simp add: looks_like_package_def)
  from length_le_foldr_max [OF this] show ?thesis by simp
qed

lemma pkg_path_no_dot: "pkg_path tree p q \<Longrightarrow> \<forall>x \<in> set q. CHR ''.'' \<notin> set x"
  by (induction q arbitrary: p) auto

lemma find_packages_set:
  "set (find_packages tree) = {join ''.'' q | q. q \<noteq> [] \<and> pkg_path tree [] q}"
  unfolding find_packages_def walk_set using pkg_path_depth by auto

lemma installed_modules_iff:
  "f \<in> set (installed_modules tree) \<longleftrightarrow>
     f \<in> set tree \<and> f \<noteq> [] \<and> is_py_file (last f) \<and> butlast f \<noteq> [] \<and> pkg_path tree [] (butlast f)"
proof -
  have "(\<exists>pkg \<in> set (find_packages tree). butlast f = split_on CHR ''.'' pkg) \<longleftrightarrow>
        butlast f \<noteq> [] \<and> pkg_path tree [] (butlast f)"
  proof
    assume "\<exists>pkg \<in> set (find_packages tree). butlast f = split_on CHR ''.'' pkg"
    then obtain q where q: "q \<noteq> []" "pkg_path tree [] q" "butlast f = split_on CHR ''.'' (join ''.'' q)"
      unfolding find_packages_set by blast
    then have "butlast f = q" using split_on_join [OF q(1) pkg_path_no_dot [OF q(2)]] by simp
    with q show "butlast f \<noteq> [] \<and> pkg_path tree [] (butlast f)" by simp
  next
    assume h: "butlast f \<noteq> [] \<and> pkg_path tree [] (butlast f)"
    then have "split_on CHR ''.'' (join ''.'' (butlast f)) = butlast f"
      using split_on_join [of "butlast f" "CHR ''.''"] pkg_path_no_dot [of tree "[]" "butlast f"] by simp
    moreover have "join ''.'' (butlast f) \<in> set (find_packages tree)"
      unfolding find_packages_set using h by blast
    ultimately show "\<exists>pkg \<in> set (find_packages tree). butlast f = split_on CHR ''.'' pkg" by metis
  qed
  then show ?thesis
    by (auto simp: installed_modules_def package_modules_def setup_py_def)
qed

text \<open>
  C33: The distribution never installs the v1 module awis.py at the top of src/; it
  installs the v2 module awis/awis.py exactly when the tree also holds
  awis/__init__.py; on the tree of the repository, which has no __init__.py, it
  installs no module at all.
\<close>

theorem setup_installed_modules:
  "[''awis.py''] \<notin> set (installed_modules tree) \<and>
   ([''awis'', ''awis.py''] \<in> set (installed_modules tree) \<longleftrightarrow>
      [''awis'', ''awis.py''] \<in> set tree \<and> [''awis'', ''__init__.py''] \<in> set tree) \<and>
   installed_modules source_tree = []"
proof -
  have "find_packages source_tree = []"
    by (simp add: find_packages_def source_tree_def subdirs_def looks_like_package_def numeral_eq_Suc)
  then have "installed_modules source_tree = []"
    by (simp add: installed_modules_def setup_py_def)
  then show ?thesis
    by (simp add: installed_modules_iff is_py_file_def looks_like_package_def)
qed

end
