(* ===== verification/Spec2Isabelle.thy ===== *)
theory Spec2Isabelle
  imports Client Calendar Packaging
begin

text \<open>
  \<^bold>\<open>A verification model of awis-py, a client for the Alexa Web Information Service.\<close>

  The repository holds two versions of one client class \<open>AWIS\<close>: \<open>src/awis/awis.py\<close>
  (in the package directory, called v2 below: a thread pool, \<open>TrafficHistory\<close> records) and the
  older \<open>src/awis.py\<close> (v1: \<open>grequests\<close>, dictionaries keyed by date). Both build
  SigV4-signed GET requests, send them, and parse the XML answers. The parts and how they
  interact:
  \<^item> the history planner (\<open>traffic_history\<close>, lines 119-142 of v2) validates
    \<open>search_range\<close> and the dates and turns one request into sub-queries of at most 31
    days; the query builder (\<open>url_info\<close>, \<open>traffic_history\<close>) writes the canonical
    query strings with \<open>urllib.parse.quote\<close>;
  \<^item> the signer and request builder (\<open>get_signature_key\<close>, \<open>create_request\<close>,
    \<open>sha256\<close>, \<open>hmac_sha256\<close>, \<open>amz_date\<close>, \<open>date_stamp\<close>) sign each query;
  \<^item> the dispatcher (\<open>bulk_request\<close>: a pool of 8 threads; v1: \<open>grequests.map\<close>) sends
    the requests and collects the responses in order;
  \<^item> the parsers (\<open>parse_traffic_history\<close>, \<open>parse_url_info\<close>) read the answers and
    \<open>traffic_history\<close> chains (v2) or merges (v1) them;
  \<^item> the packaging descriptor \<open>src/setup.py\<close> decides, through \<open>find_packages()\<close>,
    which of the two versions is installed.

  \<^bold>\<open>Theories.\<close>
  \<^item> \<open>Awis_Prelude\<close>: Python exceptions as the sum type \<open>py_error + 'a\<close> (\<open>bindE\<close>
    propagates them, \<open>sequence_r\<close> runs a list left to right), \<open>str(int)\<close> as
    \<open>show_int\<close>, \<open>str.join\<close>, splitting, and their round trips.
  \<^item> \<open>Dates\<close>: \<open>datetime.date\<close> as an ordinal with the library's \<open>OverflowError\<close>s,
    \<open>strftime('%Y%m%d')\<close> through CPython's \<open>_ord2ymd\<close>, \<open>strptime\<close> through
    \<open>_strptime\<close>'s regular expression; lemmas on the calendar and on parsed dates.
  \<^item> \<open>Calendar_Table\<close> and \<open>Calendar\<close>: correctness of those library conversions, used
    by the properties of this theory.
    \<open>_ord2ymd\<close> inverts \<open>_ymd2ord\<close> on every valid ordinal and gives a valid date
    (the years by the 400/100/4/1-year decomposition, the month and day by evaluating
    the month table on all 365 day offsets of both kinds of year), and \<open>strptime\<close>
    reads back what \<open>strftime('%Y%m%d')\<close> prints for every date from the year 1000 on.
  \<^item> \<open>Query\<close>: \<open>quote\<close>, its inverse, the two canonical queries, a reader
    \<open>parse_query\<close> and the SigV4 canonical form; the url_info round trip and the
    condition under which the signed query is canonical.
  \<^item> \<open>Planner\<close>: \<open>traffic_history_plan\<close> with its loop \<open>history_loop\<close>; the abstract
    plan \<open>windows\<close>/\<open>plan_spans\<close> and the specification's \<open>spec_spans\<close>; lemmas: the
    planner's result, the spans, their count and bounds, coverage of the days, and
    refinement of the specification exactly when \<open>search_range mod 31 \<noteq> 0\<close>.
  \<^item> \<open>Signer\<close>: the key chain over a record \<open>crypto\<close> of the two library functions
    (SHA-256 and HMAC stay abstract), \<open>bytes.hex()\<close> exactly; the chain is the SigV4
    derivation.
  \<^item> \<open>Request\<close>: \<open>create_request\<close> of both versions with the two clock readings as
    inputs; the signature binds the query, v1 equals v2 in region us-west-1, the URL host
    differs from the signed host, and the credential reads back.
  \<^item> \<open>Dispatcher\<close>: the \<open>ThreadPool(8)\<close> of \<open>bulk_request\<close> as an inductive step
    relation \<open>pool_step\<close> on a record of queued tasks, running tasks and result slots,
    where a task either returns an outcome or never returns (a \<open>requests.get\<close> without
    a timeout), with the invariant \<open>pool_inv\<close> (rule induction over \<open>rtranclp\<close>), the
    collection \<open>collect\<close>, a progress lemma, and an executable schedule \<open>drive\<close> (a
    \<open>function\<close> with a measure) for tasks that all return; lemmas: at most 8 tasks run,
    the collected results are in submission order whatever the completion order, the
    collection can complete exactly when no task before the first failing one hangs
    (otherwise \<open>bulk_request\<close> blocks forever), the first failure by index is raised;
    and v1's \<open>grequests.map\<close> with its zero-argument \<open>exception_handler\<close>.
  \<^item> \<open>Parser\<close>: lxml elements as a datatype, \<open>iter\<close>/\<open>find\<close>, CPython \<open>int()\<close> and
    \<open>float()\<close> on strings, both \<open>parse_traffic_history\<close> versions; lemmas: a printed
    answer parses back, v1's dictionary is v2's list stored by date, every required child
    must be present, an answer outside the namespace gives no records.
  \<^item> \<open>Client\<close>: \<open>traffic_history\<close> and \<open>url_info\<close> of both versions composed from
    the above, and v1's constructor (the record \<open>awis_client_v1\<close> made by
    \<open>awis_init_v1\<close>); lemmas: end to end v2's \<open>traffic_history\<close> returns the answered records in order, v1 agrees with v2, v1's
    response-group validation.
  \<^item> \<open>Packaging\<close>: \<open>src/setup.py\<close>. The \<open>setup()\<close> arguments as a record, setuptools'
    \<open>find_packages()\<close> as its pruned top-down directory walk \<open>walk\<close> (bounded by the
    depth of the deepest file, which the walk never exceeds), and the modules
    \<open>build_py\<close> installs; lemmas: \<open>find_packages\<close> returns exactly the dot-free
    directories with an \<open>__init__.py\<close> all the way down, the top-level v1 module is never
    installed, and v2's module only with \<open>awis/__init__.py\<close>, which the sources lack.
  \<^item> this theory: properties across components. The \<open>X-Amz-Date\<close> header has the
    format YYYYMMDDTHHMMSSZ (request builder and calendar); the signature is 64 hex
    digits (signer and request builder); the days of \<open>X-Amz-Date\<close> and of the credential
    scope agree exactly when the two clock readings fall on one day (request builder and
    calendar); a service reading the sub-queries gets back each
    window's date, span and url (planner, query builder, calendar, \<open>int()\<close>); a
    reverse search covers the days before the start date (planner and calendar).

  \<^bold>\<open>Environment.\<close> The model is deterministic in its inputs: \<open>date.today()\<close> is a
  parameter \<open>today\<close> (the code reads it twice, lines 122 and 128; one value is taken for
  both), each \<open>datetime.utcnow()\<close> reading is an input, the transport \<open>send\<close>, lxml's
  XML parser and the two hash functions are parameters. No fuel is needed: the client's
  loops run over finite lists and are structural recursion; the pool's schedule
  \<open>drive\<close> terminates by the measure \<open>2 * |queue| + |running|\<close>. Blocking is modelled
  in the pool: a task may never return, and \<open>get()\<close> then waits forever; the client
  functions take a transport that always answers (the value \<open>None\<close> of
  \<open>traffic_history_v2\<close> is a \<open>get()\<close> that waits). The calendar bound
  \<open>364878\<close> is the ordinal of 1000-01-01: below it \<open>%Y\<close> prints fewer than four
  digits and \<open>strptime('%Y%m%d')\<close> does not read the stamp back.

  \<^bold>\<open>Not modelled.\<close> SHA-256 and HMAC-SHA256 (library code, kept abstract: every lemma
  holds for any functions), lxml's XML text parser (its result tree is the input),
  rounding of a float literal to a binary double (a float is its decimal value), the HTTP
  transport and \<open>requests.session()\<close> (the session is never used: \<open>create_request\<close>
  calls \<open>requests.get\<close> directly). Of \<open>setup.py\<close> only what decides the installed
  code has content: the metadata strings are carried as they are, and the file system
  is the list of its file paths.
\<close>

subsection \<open>Shared lemmas\<close>

text \<open>What an accepted \<open>traffic_history\<close> call tells about its arguments.\<close>

lemma traffic_history_plan_accepts:
  assumes "traffic_history_plan errs today url sr start_date reverse = Inr qs"
  obtains date where "1 \<le> sr" "start_of today sr start_date reverse = Inr date" "date + sr < today"
proof -
  from assms have sr: "1 \<le> sr"
    by (auto simp: traffic_history_plan_def split: if_splits)
  with assms obtain date end_date where st: "start_of today sr start_date reverse = Inr date"
    and e: "bindE (timedelta sr) (date_add date) = Inr end_date" and lt: "\<not> today \<le> end_date"
    by (auto simp: traffic_history_plan_def bindE_Inr_iff split: if_splits)
  from e have "end_date = date + sr"
    by (auto simp: bindE_Inr_iff timedelta_def date_add_def Let_def split: if_splits)
  with lt have "date + sr < today" by simp
  with sr st show ?thesis by (rule that)
qed

text \<open>The parameters a service reads from one TrafficHistory query.\<close>

lemma history_query_fields:
  "map_of (decode_params (parse_query (history_query url s d))) ''Start'' = Some (strftime_Ymd d) \<and>
   map_of (decode_params (parse_query (history_query url s d))) ''Range'' = Some (show_int s) \<and>
   map_of (decode_params (parse_query (history_query url s d))) ''Url'' = Some url"
  by (simp add: decode_history_query)

text \<open>A start date printed by \<open>strftime\<close> and searched backwards.\<close>

lemma start_of_reverse:
  assumes "valid_date d" "364878 \<le> d" "1 \<le> sr" "sr < d"
  shows "start_of today sr (Some (strftime_Ymd d)) True = Inr (d - sr)"
  using assms strftime_Ymd_strptime [OF assms(1,2)]
  by (simp add: start_of_def date_sub_def timedelta_def date_add_def valid_date_def MAX_DELTA_DAYS_def
      MAXORDINAL_def Let_def)

text \<open>Date stamps from the year 1000 on name their day uniquely.\<close>

lemma strftime_Ymd_inj:
  assumes "valid_date a" "valid_date b" "364878 \<le> a" "364878 \<le> b"
  shows "strftime_Ymd a = strftime_Ymd b \<longleftrightarrow> a = b"
proof
  assume eq: "strftime_Ymd a = strftime_Ymd b"
  have "Inr a = strptime_date (strftime_Ymd a)" by (rule sym, rule strftime_Ymd_strptime [OF assms(1,3)])
  also have "\<dots> = strptime_date (strftime_Ymd b)" using eq by (rule arg_cong)
  also have "\<dots> = Inr b" by (rule strftime_Ymd_strptime [OF assms(2,4)])
  finally show "a = b" by simp
qed simp

subsection \<open>Properties across components\<close>

text \<open>
  C29: For a clock reading on a date from the year 1000 on, X-Amz-Date has the form
  YYYYMMDD T HHMMSS Z: the eight-digit date stamp, 'T', six digits, 'Z'.
\<close>

theorem amz_date_format:
  assumes "valid_now n" "364878 \<le> now_date n"
  shows "\<exists>ymd hms. amz_date n = ymd @ ''T'' @ hms @ ''Z'' \<and> date_stamp n = ymd \<and>
           length ymd = 8 \<and> length hms = 6 \<and> set (ymd @ hms) \<subseteq> set DIGITS"
proof -
  have s: "0 \<le> now_secs n" "now_secs n < 86400" using assms(1) by (simp_all add: valid_now_def)
  have h: "0 \<le> now_secs n div 3600" "now_secs n div 3600 < 100" using s by simp_all
  have mi: "0 \<le> now_secs n mod 3600 div 60" "now_secs n mod 3600 div 60 < 100" by simp_all
  have se: "0 \<le> now_secs n mod 60" "now_secs n mod 60 < 100" by simp_all
  have "valid_date (now_date n)" using assms(1) by (simp add: valid_now_def)
  then have "length (strftime_Ymd (now_date n)) = 8 \<and> set (strftime_Ymd (now_date n)) \<subseteq> set DIGITS"
    using assms(2) by (rule strftime_Ymd_digits)
  then show ?thesis
    using pad2_two_digits [OF h] pad2_two_digits [OF mi] pad2_two_digits [OF se]
    by (auto simp: amz_date_def date_stamp_def)
qed

text \<open>
  C13: Because create_request reads the clock twice, for any two clock readings (from
  the year 1000 on) the day of X-Amz-Date and the day of the credential scope in the
  Authorization header agree exactly when the two readings fall on the same day: a
  request built across midnight UTC carries two different days.
\<close>

theorem request_clock_rollover:
  assumes "valid_now n1" "valid_now n2" "364878 \<le> now_date n1" "364878 \<le> now_date n2"
  shows "\<exists>d8 hms rest. header (create_request c self n1 n2 q) ''X-Amz-Date'' = Some (d8 @ ''T'' @ hms @ ''Z'') \<and>
           header (create_request c self n1 n2 q) ''Authorization'' =
             Some (ALGORITHM @ '' Credential='' @ access_id self @ ''/'' @ date_stamp n2 @ ''/'' @ rest) \<and>
           length d8 = 8 \<and> (d8 = date_stamp n2 \<longleftrightarrow> now_date n1 = now_date n2)"
proof -
  have v: "valid_date (now_date n1)" "valid_date (now_date n2)"
    using assms(1,2) by (simp_all add: valid_now_def)
  have len: "length (strftime_Ymd (now_date n1)) = 8"
    using strftime_Ymd_digits [OF v(1) assms(3)] by simp
  have iff: "strftime_Ymd (now_date n1) = date_stamp n2 \<longleftrightarrow> now_date n1 = now_date n2"
    unfolding date_stamp_def by (rule strftime_Ymd_inj [OF v assms(3,4)])
  show ?thesis
    apply (rule exI [of _ "strftime_Ymd (now_date n1)"],
           rule exI [of _ "pad2 (now_secs n1 div 3600) @ pad2 (now_secs n1 mod 3600 div 60) @ pad2 (now_secs n1 mod 60)"])
    using len iff apply (simp add: create_request_fields create_request_authorization amz_date_def)
    done
qed

text \<open>
  C30: When HMAC-SHA256 returns 32 bytes, the Signature field that ends the
  Authorization header of create_request is exactly 64 lower-case hexadecimal digits.
\<close>

theorem signature_hex_64:
  assumes "\<forall>k d. length (hmac_digest c k d) = 32"
  shows "\<exists>pre sig. header (create_request c self n1 n2 q) ''Authorization'' =
           Some (pre @ '', SignedHeaders=host;x-amz-date, Signature='' @ sig) \<and>
           length sig = 64 \<and> set sig \<subseteq> set HEX_LOWER"
  unfolding create_request_authorization append_assoc [symmetric]
  apply (intro exI conjI)
    apply (rule refl)
  using assms apply (simp add: length_hex hmac_sha256_def)
  apply (rule set_hex)
  done

text \<open>
  C31: When traffic_history accepts its arguments and the first window starts in the
  year 1000 or later, a service that splits each query at '&' and '=', unquotes the
  values and reads Start with strptime('%Y%m%d') and Range with int() gets back exactly
  each window's start date, its length and the url, in the order of the windows.
\<close>

theorem history_queries_decode:
  assumes "valid_date today" "traffic_history_plan errs today url sr start_date reverse = Inr qs"
    and "start_of today sr start_date reverse = Inr date" "364878 \<le> date"
  shows "map (\<lambda>q. let p = map_of (decode_params (parse_query q))
                  in (map_option strptime_date (p ''Start''), py_int (p ''Range''), p ''Url'')) qs =
         map (\<lambda>(d, s). (Some (Inr d), Inr s, Some url)) (windows date (plan_spans sr))"
proof -
  obtain date' where sr: "1 \<le> sr" and st: "start_of today sr start_date reverse = Inr date'"
    and lt: "date' + sr < today"
    using assms(2) by (rule traffic_history_plan_accepts)
  from st assms(3) have lt: "date + sr < today" using lt by simp
  have qs: "qs = map (\<lambda>(d, s). history_query url s d) (windows date (plan_spans sr))"
    using traffic_history_plan_windows [OF sr assms(1,3) lt] assms(2) by simp
  have vd: "valid_date date" by (rule start_of_valid [OF assms(1,3)])
  have nn: "\<forall>x \<in> set (plan_spans sr). 0 \<le> x"
    using plan_spans_bounds [OF sr] by auto
  have sum: "sum_list (plan_spans sr) \<le> sr"
    using sum_list_plan_spans [OF sr] by (simp add: MAX_SEARCH_RANGE_def)
  have "strptime_date (strftime_Ymd d) = Inr d" if "(d, s) \<in> set (windows date (plan_spans sr))" for d s
  proof (rule strftime_Ymd_strptime)
    from windows_dates [OF that nn] sum vd lt assms(1,4)
    show "valid_date d" "364878 \<le> d" by (auto simp: valid_date_def)
  qed
  then show ?thesis
    unfolding qs by (auto simp: Let_def history_query_fields py_int_show_int)
qed

text \<open>
  C32: With search_reverse and a start date string printed from a date d of the year
  1000 or later, traffic_history searches the search_range days before d (d itself
  excluded): it returns one query per window of the plan starting at d - search_range
  when d is before today, and raises "Cannot search past today's date" otherwise.
\<close>

theorem reverse_search_ends_at_start:
  assumes "valid_date today" "valid_date d" "364878 \<le> d" "1 \<le> sr" "sr < d"
  shows "traffic_history_plan errs today url sr (Some (strftime_Ymd d)) True =
           (if d < today then Inr (map (\<lambda>(d', s). history_query url s d') (windows (d - sr) (plan_spans sr)))
            else Inl (snd errs))"
proof -
  have st: "start_of today sr (Some (strftime_Ymd d)) True = Inr (d - sr)"
    using assms(2-5) by (rule start_of_reverse)
  show ?thesis
  proof (cases "d < today")
    case True
    then show ?thesis
      using traffic_history_plan_windows [OF assms(4,1) st] by simp
  next
    case False
    have "bindE (timedelta sr) (date_add (d - sr)) = Inr d"
      using date_shift_ok [of "d - sr" sr] assms(2,4,5) by (simp add: valid_date_def)
    with False st assms(4) show ?thesis
      by (simp add: traffic_history_plan_def)
  qed
qed

subsection \<open>Witnesses\<close>

lemma request_clock_rollover_witness:
  "valid_now \<lparr>now_date = 737425, now_secs = 86399\<rparr> \<and> valid_now \<lparr>now_date = 737426, now_secs = 0\<rparr> \<and>
   (364878::int) \<le> 737425 \<and> (364878::int) \<le> 737426 \<and>
   (\<exists>d8 hms rest.
      header (create_request id_crypto (awis_init ''AKID'' ''secret'' ''us-west-1'')
        \<lparr>now_date = 737425, now_secs = 86399\<rparr> \<lparr>now_date = 737426, now_secs = 0\<rparr> ''Action=UrlInfo'') ''X-Amz-Date'' =
        Some (d8 @ ''T'' @ hms @ ''Z'') \<and>
      header (create_request id_crypto (awis_init ''AKID'' ''secret'' ''us-west-1'')
        \<lparr>now_date = 737425, now_secs = 86399\<rparr> \<lparr>now_date = 737426, now_secs = 0\<rparr> ''Action=UrlInfo'') ''Authorization'' =
        Some (ALGORITHM @ '' Credential='' @ access_id (awis_init ''AKID'' ''secret'' ''us-west-1'') @ ''/'' @
              date_stamp \<lparr>now_date = 737426, now_secs = 0\<rparr> @ ''/'' @ rest) \<and>
      length d8 = 8 \<and> d8 \<noteq> date_stamp \<lparr>now_date = 737426, now_secs = 0\<rparr>)"
proof -
  have v: "valid_now \<lparr>now_date = 737425, now_secs = 86399\<rparr>" "valid_now \<lparr>now_date = 737426, now_secs = 0\<rparr>"
    by (simp_all add: valid_now_def valid_date_def MAXORDINAL_def)
  show ?thesis
    using request_clock_rollover [OF v, of id_crypto "awis_init ''AKID'' ''secret'' ''us-west-1''" "''Action=UrlInfo''"] v
    by simp
qed

lemma amz_date_format_witness:
  "valid_now \<lparr>now_date = 737425, now_secs = 86399\<rparr> \<and> (364878::int) \<le> 737425 \<and>
   (\<exists>ymd hms. amz_date \<lparr>now_date = 737425, now_secs = 86399\<rparr> = ymd @ ''T'' @ hms @ ''Z'' \<and>
      date_stamp \<lparr>now_date = 737425, now_secs = 86399\<rparr> = ymd \<and>
      length ymd = 8 \<and> length hms = 6 \<and> set (ymd @ hms) \<subseteq> set DIGITS)"
proof -
  have v: "valid_now \<lparr>now_date = 737425, now_secs = 86399\<rparr>"
    by (simp add: valid_now_def valid_date_def MAXORDINAL_def)
  show ?thesis using amz_date_format [OF v] v by simp
qed


lemma signature_hex_64_witness:
  "(\<forall>k d. length (hmac_digest \<lparr>hmac_digest = \<lambda>k d. replicate 32 0, sha256_digest = id\<rparr> k d) = 32) \<and>
   (\<exists>pre sig. header (create_request \<lparr>hmac_digest = \<lambda>k d. replicate 32 0, sha256_digest = id\<rparr>
        (awis_init ''AKID'' ''secret'' ''us-west-1'') example_now example_now ''Action=UrlInfo'') ''Authorization'' =
      Some (pre @ '', SignedHeaders=host;x-amz-date, Signature='' @ sig) \<and>
      length sig = 64 \<and> set sig \<subseteq> set HEX_LOWER)"
  using signature_hex_64 [of "\<lparr>hmac_digest = \<lambda>k d. replicate 32 0, sha256_digest = id\<rparr>"] by simp

lemma history_queries_decode_witness:
  "valid_date 737425 \<and>
   traffic_history_plan range_errors_v2 737425 ''example.com'' 45 (Some ''20191001'') False =
     Inr [history_query ''example.com'' 31 737333, history_query ''example.com'' 14 737364] \<and>
   start_of 737425 45 (Some ''20191001'') False = Inr 737333 \<and> (364878::int) \<le> 737333 \<and>
   map (\<lambda>q. let p = map_of (decode_params (parse_query q))
             in (map_option strptime_date (p ''Start''), py_int (p ''Range''), p ''Url''))
     [history_query ''example.com'' 31 737333, history_query ''example.com'' 14 737364] =
   map (\<lambda>(d, s). (Some (Inr d), Inr s, Some ''example.com'')) (windows 737333 (plan_spans 45))"
proof -
  have v: "valid_date 737425" by (simp add: valid_date_def MAXORDINAL_def)
  have s: "start_of 737425 45 (Some ''20191001'') False = Inr 737333"
    by (simp add: start_of_def date_eval_simps)
  note p = example_plan [of range_errors_v2]
  show ?thesis
    using history_queries_decode [OF v p s] v p s by simp
qed


lemma reverse_search_ends_at_start_witness:
  "valid_date 737425 \<and> valid_date 737364 \<and> (364878::int) \<le> 737364 \<and> (1::int) \<le> 45 \<and> (45::int) < 737364 \<and>
   traffic_history_plan range_errors_v2 737425 ''example.com'' 45 (Some (strftime_Ymd 737364)) True =
     Inr (map (\<lambda>(d', s). history_query ''example.com'' s d') (windows (737364 - 45) (plan_spans 45)))"
proof -
  have v: "valid_date 737425" "valid_date 737364" by (simp_all add: valid_date_def MAXORDINAL_def)
  show ?thesis
    using reverse_search_ends_at_start [OF v(1) v(2), of 45 range_errors_v2 "''example.com''"] v by simp
qed

end
